theory Spec2Isabelle
  imports Main "HOL-Library.AList"
begin

section \<open>Data model\<close>

text \<open>
  Errors are values. A collaborator error is \<open>Error msg\<close>; \<open>fmt.Errorf\<close> with a
  trailing \<open>%v\<close> cause is \<open>Wrapped format args cause\<close>; a Go run-time panic (nil pointer
  dereference, write to a nil map) is \<open>Panic msg\<close>.
\<close>

datatype error = Error string | Wrapped string "string list" error | Panic string

text \<open>
  \<open>resource.Quantity\<close> is compared by value with \<open>Cmp\<close>; it is modelled by an integer
  amount. A \<open>v1.ResourceList\<close> is a Go map, which may be nil (\<open>None\<close>); reading a
  missing key, or a nil map, gives the zero quantity.
\<close>

type_synonym quantity = int

type_synonym resourceList = "(string \<rightharpoonup> quantity) option"

definition Cmp :: "quantity \<Rightarrow> quantity \<Rightarrow> int" where
  "Cmp a b = (if a < b then - 1 else if a = b then 0 else 1)"

definition ResourceStorage :: string where
  "ResourceStorage = ''storage''"

definition resourceGet :: "resourceList \<Rightarrow> string \<Rightarrow> quantity" where
  "resourceGet rl k = (case rl of None \<Rightarrow> 0
     | Some m \<Rightarrow> (case m k of None \<Rightarrow> 0 | Some q \<Rightarrow> q))"

text \<open>Assignment \<open>m[k] = q\<close>: a write to a nil map panics.\<close>

definition resourceSet :: "resourceList \<Rightarrow> string \<Rightarrow> quantity \<Rightarrow> error + resourceList" where
  "resourceSet rl k q = (case rl of None \<Rightarrow> Inl (Panic ''assignment to entry in nil map'')
     | Some m \<Rightarrow> Inr (Some (m(k \<mapsto> q))))"

datatype claimPhase = ClaimPending | ClaimBound | ClaimLost

record objectReference =
  refNamespace :: string
  refName :: string

record persistentVolumeClaim =
  claimName :: string
  claimNamespace :: string
  claimUID :: string
  claimRequests :: resourceList
  claimPhaseOf :: claimPhase
  claimCapacity :: resourceList
  claimConditions :: "string list"

record persistentVolume =
  pvName :: string
  pvClaimRef :: "objectReference option"
  pvCapacity :: resourceList

datatype podPhase = PodPending | PodRunning | PodSucceeded | PodFailed | PodUnknown

record podStatus =
  phase :: podPhase

text \<open>
  \<open>Annotations\<close> is a Go map that is iterated over, so it is an association list (one
  iteration order), and it may be nil.
\<close>

record pod =
  podName :: string
  podNamespace :: string
  podUID :: string
  podNodeName :: string
  podAnnotations :: "(string \<times> string) list option"
  podStatusOf :: podStatus

subsection \<open>Pointers and the heap\<close>

text \<open>
  Claims, volumes and pods are passed around by pointer. A pointer is \<open>None\<close> (nil) or
  the address of a cell; each kind of object has its own heap, a list indexed by
  address, and allocation appends a cell. Dereferencing nil (or an address that was never
  allocated) panics.
\<close>

type_synonym addr = nat

type_synonym ptr = "addr option"

definition deref :: "'a list \<Rightarrow> ptr \<Rightarrow> error + 'a" where
  "deref h p = (case p of None \<Rightarrow> Inl (Panic ''nil pointer dereference'')
     | Some a \<Rightarrow> if a < length h then Inr (h ! a) else Inl (Panic ''nil pointer dereference''))"

text \<open>
  \<open>DeepCopy\<close> of nil is nil; otherwise it allocates a new cell holding an equal value
  (the copy shares nothing with the original).
\<close>

definition DeepCopy :: "'a list \<Rightarrow> ptr \<Rightarrow> error + (ptr \<times> 'a list)" where
  "DeepCopy h p = (case p of None \<Rightarrow> Inr (None, h)
     | Some a \<Rightarrow> if a < length h then Inr (Some (length h), h @ [h ! a])
                 else Inl (Panic ''nil pointer dereference''))"

text \<open>A two-way merge patch between the marshalled old and new volume.\<close>

datatype patch = MergePatch persistentVolume persistentVolume

text \<open>
  The world outside the two caches: the heaps of the process, the pods the API server
  stores (by namespace and name), and the requests sent to the API server so far, in
  order.
\<close>

record world =
  podHeap :: "pod list"
  pvHeap :: "persistentVolume list"
  pvcHeap :: "persistentVolumeClaim list"
  apiPods :: "(string \<times> string) \<rightharpoonup> pod"
  podUpdates :: "pod list"
  pvPatches :: "(string \<times> patch) list"
  pvcStatusUpdates :: "persistentVolumeClaim list"

text \<open>
  The API client. Whether a call fails is decided by the server and the network: each
  call has an oracle that gives the error, if any, in the current world.
\<close>

record kubeClient =
  podGetErr :: "world \<Rightarrow> string \<Rightarrow> string \<Rightarrow> error option"
  podUpdateErr :: "world \<Rightarrow> pod \<Rightarrow> error option"
  pvPatchErr :: "world \<Rightarrow> string \<Rightarrow> patch \<Rightarrow> error option"
  pvcUpdateStatusErr :: "world \<Rightarrow> persistentVolumeClaim \<Rightarrow> error option"

text \<open>\<open>Pods(ns).Get(name)\<close>: a freshly decoded object, private to the caller.\<close>

definition PodsGet :: "kubeClient \<Rightarrow> string \<Rightarrow> string \<Rightarrow> world \<Rightarrow> error + pod" where
  "PodsGet c ns name w = (case podGetErr c w ns name of Some e \<Rightarrow> Inl e
     | None \<Rightarrow> (case apiPods w (ns, name) of None \<Rightarrow> Inl (Error ''not found'')
                | Some p \<Rightarrow> Inr p))"

text \<open>\<open>Pods(ns).Update(pod)\<close>: the request is sent; when it succeeds the pod is stored.\<close>

definition PodsUpdate :: "kubeClient \<Rightarrow> string \<Rightarrow> pod \<Rightarrow> world \<Rightarrow> world \<times> error option" where
  "PodsUpdate c ns p w =
     (let w1 = w\<lparr>podUpdates := podUpdates w @ [p]\<rparr> in
      case podUpdateErr c w p of Some e \<Rightarrow> (w1, Some e)
      | None \<Rightarrow> (w1\<lparr>apiPods := (apiPods w1)((ns, podName p) \<mapsto> p)\<rparr>, None))"

definition PersistentVolumesPatch ::
  "kubeClient \<Rightarrow> string \<Rightarrow> patch \<Rightarrow> world \<Rightarrow> world \<times> error option" where
  "PersistentVolumesPatch c name pt w =
     (w\<lparr>pvPatches := pvPatches w @ [(name, pt)]\<rparr>, pvPatchErr c w name pt)"

definition PersistentVolumeClaimsUpdateStatus ::
  "kubeClient \<Rightarrow> string \<Rightarrow> persistentVolumeClaim \<Rightarrow> world \<Rightarrow> world \<times> error option" where
  "PersistentVolumeClaimsUpdateStatus c ns claim w =
     (w\<lparr>pvcStatusUpdates := pvcStatusUpdates w @ [claim]\<rparr>, pvcUpdateStatusErr c w claim)"

section \<open>Controller side: the cache of pending resize requests\<close>

record PVCWithResizeRequest =
  PVC :: ptr
  PersistentVolume :: ptr
  CurrentSize :: quantity
  ExpectedSize :: quantity

text \<open>
  The Go map \<open>pvcrs\<close> is an association list: lookup is \<open>map_of\<close>, assignment is
  \<open>AList.update\<close>, \<open>delete\<close> is \<open>AList.delete\<close>, and \<open>range\<close> visits the list in
  order (Go leaves the order open).
\<close>

record volumeResizeMap =
  pvcrs :: "(string \<times> PVCWithResizeRequest) list"
  kubeClient :: kubeClient
  podLister :: "string \<Rightarrow> string \<Rightarrow> error + ptr"
  podsInVolumeGetter :: "string \<Rightarrow> ptr list"
  volumeMountedNodesGetter :: "string \<Rightarrow> string list"

definition UniquePVCKey :: "world \<Rightarrow> PVCWithResizeRequest \<Rightarrow> error + string" where
  "UniquePVCKey w pvcr = (case deref (pvcHeap w) (PVC pvcr) of Inl e \<Rightarrow> Inl e
     | Inr claim \<Rightarrow> Inr (claimUID claim))"

definition NewVolumeResizeMap ::
  "kubeClient \<Rightarrow> (string \<Rightarrow> string \<Rightarrow> error + ptr) \<Rightarrow> (string \<Rightarrow> ptr list)
     \<Rightarrow> (string \<Rightarrow> string list) \<Rightarrow> volumeResizeMap" where
  "NewVolumeResizeMap c lister pg ng =
     \<lparr>pvcrs = [], kubeClient = c, podLister = lister, podsInVolumeGetter = pg,
      volumeMountedNodesGetter = ng\<rparr>"

text \<open>
  Both pointers are dereferenced on every path: \<open>pv.Spec\<close> in the first test, and
  \<open>pvc\<close> either in that test or in the argument of the log call that follows it.
\<close>

definition AddPVCUpdate :: "world \<Rightarrow> ptr \<Rightarrow> ptr \<Rightarrow> volumeResizeMap \<Rightarrow> error + volumeResizeMap" where
  "AddPVCUpdate w pvc pv resizeMap =
     (case deref (pvHeap w) pv of Inl e \<Rightarrow> Inl e | Inr pvObj \<Rightarrow>
     (case deref (pvcHeap w) pvc of Inl e \<Rightarrow> Inl e | Inr pvcObj \<Rightarrow>
        (if pvClaimRef pvObj = None
            \<or> claimNamespace pvcObj \<noteq> refNamespace (the (pvClaimRef pvObj))
            \<or> claimName pvcObj \<noteq> refName (the (pvClaimRef pvObj)) then Inr resizeMap
         else if claimPhaseOf pvcObj \<noteq> ClaimBound then Inr resizeMap
         else
           (let pvcSize = resourceGet (claimRequests pvcObj) ResourceStorage;
                pvcStatusSize = resourceGet (claimCapacity pvcObj) ResourceStorage
            in if Cmp pvcStatusSize pvcSize \<ge> 0 then Inr resizeMap
               else
                 (let pvcRequest = \<lparr>PVC = pvc, PersistentVolume = pv,
                                     CurrentSize = pvcStatusSize, ExpectedSize = pvcSize\<rparr>
                  in Inr (resizeMap\<lparr>pvcrs := AList.update (claimUID pvcObj) pvcRequest
                                                 (pvcrs resizeMap)\<rparr>))))))"

definition GetPVCsWithResizeRequest ::
  "volumeResizeMap \<Rightarrow> PVCWithResizeRequest list \<times> volumeResizeMap" where
  "GetPVCsWithResizeRequest resizeMap =
     (foldl (\<lambda>acc (_, pvcr). acc @ [pvcr]) [] (pvcrs resizeMap), resizeMap\<lparr>pvcrs := []\<rparr>)"

definition DeletePVC :: "world \<Rightarrow> ptr \<Rightarrow> volumeResizeMap \<Rightarrow> error + volumeResizeMap" where
  "DeletePVC w pvc resizeMap = (case deref (pvcHeap w) pvc of Inl e \<Rightarrow> Inl e
     | Inr pvcObj \<Rightarrow> Inr (resizeMap\<lparr>pvcrs := AList.delete (claimUID pvcObj) (pvcrs resizeMap)\<rparr>))"

section \<open>Node side: the cache of pending filesystem resizes\<close>

record VolumeToResize =
  Pod :: ptr
  VolumeName :: string

text \<open>
  \<open>pods\<close> maps a unique pod name to a \<open>volumeToResizeSet\<close>, itself a map from
  volume name to entry: an association list of association lists.
\<close>

record volumeFsResizeMap =
  fsPods :: "(string \<times> (string \<times> VolumeToResize) list) list"
  fsKubeClient :: kubeClient

definition NewVolumeFsResizeMap :: "kubeClient \<Rightarrow> volumeFsResizeMap" where
  "NewVolumeFsResizeMap c = \<lparr>fsPods = [], fsKubeClient = c\<rparr>"

text \<open>
  Modelled from the spec: \<open>volumehelper.GetUniquePodName\<close> is not among the source
  files. The spec keys the node cache by "workload identity", the pod's unique
  identifier.
\<close>

definition GetUniquePodName :: "pod \<Rightarrow> string" where
  "GetUniquePodName p = podUID p"

definition AddVolumeForPod ::
  "world \<Rightarrow> string \<Rightarrow> ptr \<Rightarrow> volumeFsResizeMap \<Rightarrow> error + volumeFsResizeMap" where
  "AddVolumeForPod w volumeName pod resizeMap =
     (case deref (podHeap w) pod of Inl e \<Rightarrow> Inl e | Inr p \<Rightarrow>
        (let uniqueName = GetUniquePodName p;
             volumes = (case map_of (fsPods resizeMap) uniqueName of None \<Rightarrow> []
                        | Some vs \<Rightarrow> vs)
         in Inr (resizeMap\<lparr>fsPods := AList.update uniqueName
                   (AList.update volumeName \<lparr>Pod = pod, VolumeName = volumeName\<rparr> volumes)
                   (fsPods resizeMap)\<rparr>)))"

definition GetVolumesToResize :: "volumeFsResizeMap \<Rightarrow> VolumeToResize list \<times> volumeFsResizeMap" where
  "GetVolumesToResize resizeMap =
     (foldl (\<lambda>acc (_, volumes). foldl (\<lambda>acc (_, volume). acc @ [volume]) acc volumes)
            [] (fsPods resizeMap),
      resizeMap\<lparr>fsPods := []\<rparr>)"

text \<open>Lookup of an entry of the node cache by pod name and volume name.\<close>

definition fsLookup :: "volumeFsResizeMap \<Rightarrow> string \<Rightarrow> string \<Rightarrow> VolumeToResize option" where
  "fsLookup resizeMap uniqueName volumeName =
     (case map_of (fsPods resizeMap) uniqueName of None \<Rightarrow> None
      | Some volumes \<Rightarrow> map_of volumes volumeName)"

text \<open>
  A Go map holds a key once: the keys of \<open>pvcrs\<close>, of \<open>pods\<close> and of every inner
  set are distinct. The constructors establish this and every operation keeps it.
\<close>

definition pvcrs_ok :: "volumeResizeMap \<Rightarrow> bool" where
  "pvcrs_ok resizeMap = distinct (map fst (pvcrs resizeMap))"

definition fsPods_ok :: "volumeFsResizeMap \<Rightarrow> bool" where
  "fsPods_ok resizeMap = (distinct (map fst (fsPods resizeMap))
     \<and> list_all (\<lambda>(_, volumes). distinct (map fst volumes)) (fsPods resizeMap))"

section \<open>The handshake annotation\<close>

text \<open>
  Modelled from the spec: \<open>volumehelper.GetVolumeFsResizeAnnotation\<close>,
  \<open>IsVolumeFsResizeAnnotation\<close> and \<open>GetVolumeUniqueNameFromFsResizeAnnotation\<close> are not
  among the source files. The spec gives the key format
  \<open><fixed-prefix><volume-logical-name>\<close>; the prefix itself is not given, so it is the
  parameter \<open>pfx\<close> of everything that uses the annotation.
\<close>

definition GetVolumeFsResizeAnnotation :: "string \<Rightarrow> string \<Rightarrow> string" where
  "GetVolumeFsResizeAnnotation pfx volumeName = pfx @ volumeName"

definition IsVolumeFsResizeAnnotation :: "string \<Rightarrow> string \<Rightarrow> bool" where
  "IsVolumeFsResizeAnnotation pfx key = (take (length pfx) key = pfx)"

definition GetVolumeUniqueNameFromFsResizeAnnotation :: "string \<Rightarrow> string \<Rightarrow> string" where
  "GetVolumeUniqueNameFromFsResizeAnnotation pfx key = drop (length pfx) key"

text \<open>Reading \<open>pod.Annotations[key]\<close>: a nil map has no key.\<close>

definition annotationGet :: "(string \<times> string) list option \<Rightarrow> string \<Rightarrow> string option" where
  "annotationGet anns key = (case anns of None \<Rightarrow> None | Some m \<Rightarrow> map_of m key)"

text \<open>The entries a \<open>range\<close> over \<open>pod.Annotations\<close> visits: none for a nil map.\<close>

definition annotationRange :: "(string \<times> string) list option \<Rightarrow> (string \<times> string) list" where
  "annotationRange anns = (case anns of None \<Rightarrow> [] | Some m \<Rightarrow> m)"

text \<open>Assignment through a pointer that has been dereferenced already.\<close>

definition store :: "'a list \<Rightarrow> ptr \<Rightarrow> 'a \<Rightarrow> 'a list" where
  "store h p v = (case p of None \<Rightarrow> h | Some a \<Rightarrow> h[a := v])"

section \<open>Controller side: persisting sizes and marking pods\<close>

text \<open>
  \<open>json.Marshal\<close> and \<open>strategicpatch.CreateTwoWayMergePatch\<close> are library calls that
  may return an error; \<open>marshalErr\<close> and \<open>createPatchErr\<close> say when. The marshalled
  data is the value itself (\<open>None\<close> for a nil pointer, which marshals to \<open>null\<close>).
\<close>

definition UpdatePVSize ::
  "(persistentVolume option \<Rightarrow> error option)
     \<Rightarrow> (persistentVolume \<Rightarrow> persistentVolume \<Rightarrow> error option)
     \<Rightarrow> volumeResizeMap \<Rightarrow> PVCWithResizeRequest \<Rightarrow> quantity \<Rightarrow> world \<Rightarrow> world \<times> error option" where
  "UpdatePVSize marshalErr createPatchErr resizeMap pvcr newSize w =
     (let oldPv = PersistentVolume pvcr in
      case DeepCopy (pvHeap w) oldPv of Inl e \<Rightarrow> (w, Some e) | Inr (pvClone, h1) \<Rightarrow>
       (let w1 = w\<lparr>pvHeap := h1\<rparr>;
            oldData = (case deref (pvHeap w1) pvClone of Inl _ \<Rightarrow> None | Inr c \<Rightarrow> Some c)
        in case marshalErr oldData of
             Some err \<Rightarrow>
               (case deref (pvHeap w1) pvClone of Inl e \<Rightarrow> (w1, Some e)
                | Inr c \<Rightarrow> (w1, Some (Wrapped ''Unexpected error marshaling PV : %q with error %v''
                                         [pvName c] err)))
           | None \<Rightarrow>
               (case deref (pvHeap w1) pvClone of Inl e \<Rightarrow> (w1, Some e) | Inr c \<Rightarrow>
                (case resourceSet (pvCapacity c) ResourceStorage newSize of
                   Inl e \<Rightarrow> (w1, Some e)
                 | Inr capacity \<Rightarrow>
                    (let c2 = c\<lparr>pvCapacity := capacity\<rparr>;
                         w2 = w1\<lparr>pvHeap := store (pvHeap w1) pvClone c2\<rparr>
                     in case marshalErr (Some c2) of
                          Some err \<Rightarrow>
                            (w2, Some (Wrapped ''Unexpected error marshaling PV : %q with error %v''
                                         [pvName c2] err))
                        | None \<Rightarrow>
                            (case createPatchErr c c2 of
                               Some err \<Rightarrow>
                                 (w2, Some (Wrapped
                                    ''Error Creating two way merge patch for  PV : %q with error %v''
                                    [pvName c2] err))
                             | None \<Rightarrow>
                                 PersistentVolumesPatch (kubeClient resizeMap) (pvName c2)
                                   (MergePatch c c2) w2))))))"

definition updatePVCCapacityAndConditions ::
  "volumeResizeMap \<Rightarrow> PVCWithResizeRequest \<Rightarrow> quantity \<Rightarrow> string list \<Rightarrow> world
     \<Rightarrow> world \<times> error option" where
  "updatePVCCapacityAndConditions resizeMap pvcr newSize conditions w =
     (case DeepCopy (pvcHeap w) (PVC pvcr) of Inl e \<Rightarrow> (w, Some e) | Inr (claimClone, h1) \<Rightarrow>
       (let w1 = w\<lparr>pvcHeap := h1\<rparr> in
        case deref (pvcHeap w1) claimClone of Inl e \<Rightarrow> (w1, Some e) | Inr c \<Rightarrow>
         (case resourceSet (claimCapacity c) ResourceStorage newSize of
            Inl e \<Rightarrow> (w1, Some e)
          | Inr capacity \<Rightarrow>
             (let c2 = c\<lparr>claimCapacity := capacity, claimConditions := conditions\<rparr>;
                  w2 = w1\<lparr>pvcHeap := store (pvcHeap w1) claimClone c2\<rparr>
              in PersistentVolumeClaimsUpdateStatus (kubeClient resizeMap)
                   (claimNamespace c2) c2 w2))))"

definition MarkAsResized ::
  "volumeResizeMap \<Rightarrow> PVCWithResizeRequest \<Rightarrow> quantity \<Rightarrow> world \<Rightarrow> world \<times> error option" where
  "MarkAsResized resizeMap pvcr newSize w =
     (let emptyCondition = [] in
      case updatePVCCapacityAndConditions resizeMap pvcr newSize emptyCondition w of
        (w1, Some err) \<Rightarrow> (w1, Some err)
      | (w1, None) \<Rightarrow> (w1, None))"

text \<open>Both helpers are called with a pod pointer that was dereferenced just before.\<close>

definition podHasMarkedForPVCResizing :: "string \<Rightarrow> pod \<Rightarrow> string \<Rightarrow> bool" where
  "podHasMarkedForPVCResizing pfx p pvcName =
     (case annotationGet (podAnnotations p) (GetVolumeFsResizeAnnotation pfx pvcName) of
        None \<Rightarrow> False
      | Some resizeAnnValue \<Rightarrow> resizeAnnValue = ''yes'')"

definition updatePodAnnotationForPVCResizing ::
  "string \<Rightarrow> volumeResizeMap \<Rightarrow> ptr \<Rightarrow> string \<Rightarrow> world \<Rightarrow> world \<times> error option" where
  "updatePodAnnotationForPVCResizing pfx resizeMap podPtr pvcName w =
     (case deref (podHeap w) podPtr of Inl e \<Rightarrow> (w, Some e) | Inr p \<Rightarrow>
       (let annotations = (case podAnnotations p of None \<Rightarrow> [] | Some m \<Rightarrow> m);
            p2 = p\<lparr>podAnnotations :=
                     Some (AList.update (GetVolumeFsResizeAnnotation pfx pvcName) ''yes''
                             annotations)\<rparr>;
            w1 = w\<lparr>podHeap := store (podHeap w) podPtr p2\<rparr>
        in PodsUpdate (kubeClient resizeMap) (podNamespace p2) p2 w1))"

text \<open>
  The first loop of \<open>MarkForFileSystemResize\<close>: look every pod up, copy it, and sort it
  into \<open>podObjs\<close> (to be marked) or \<open>markedNodes\<close> (its node is marked already).
\<close>

fun MarkForFileSystemResize_lookup ::
  "string \<Rightarrow> volumeResizeMap \<Rightarrow> string \<Rightarrow> string \<Rightarrow> string set \<Rightarrow> ptr list
     \<Rightarrow> world \<times> ptr list \<times> string set \<Rightarrow> world \<times> (error + ptr list \<times> string set)" where
  "MarkForFileSystemResize_lookup pfx resizeMap volumeSpecName uniqueVolumeName mountedNodes []
       (w, podObjs, markedNodes) = (w, Inr (podObjs, markedNodes))"
| "MarkForFileSystemResize_lookup pfx resizeMap volumeSpecName uniqueVolumeName mountedNodes
       (podPtr # pods) (w, podObjs, markedNodes) =
     (case deref (podHeap w) podPtr of Inl e \<Rightarrow> (w, Inl e) | Inr p \<Rightarrow>
      (case podLister resizeMap (podNamespace p) (podName p) of
         Inl err \<Rightarrow> (w, Inl (Wrapped ''get pod %s/%s using PVC %s failed: %v''
                              [podName p, podNamespace p, uniqueVolumeName] err))
       | Inr listed \<Rightarrow>
         (case DeepCopy (podHeap w) listed of Inl e \<Rightarrow> (w, Inl e) | Inr (podObj, h1) \<Rightarrow>
          (let w1 = w\<lparr>podHeap := h1\<rparr> in
           case deref (podHeap w1) podObj of Inl e \<Rightarrow> (w1, Inl e) | Inr obj \<Rightarrow>
            (if length (podNodeName obj) = 0 then
               MarkForFileSystemResize_lookup pfx resizeMap volumeSpecName uniqueVolumeName
                 mountedNodes pods (w1, podObjs, markedNodes)
             else if podNodeName obj \<notin> mountedNodes then
               MarkForFileSystemResize_lookup pfx resizeMap volumeSpecName uniqueVolumeName
                 mountedNodes pods (w1, podObjs, markedNodes)
             else if podNodeName obj \<in> markedNodes then
               MarkForFileSystemResize_lookup pfx resizeMap volumeSpecName uniqueVolumeName
                 mountedNodes pods (w1, podObjs, markedNodes)
             else if podHasMarkedForPVCResizing pfx obj volumeSpecName then
               MarkForFileSystemResize_lookup pfx resizeMap volumeSpecName uniqueVolumeName
                 mountedNodes pods (w1, podObjs, insert (podNodeName obj) markedNodes)
             else
               MarkForFileSystemResize_lookup pfx resizeMap volumeSpecName uniqueVolumeName
                 mountedNodes pods (w1, podObjs @ [podObj], markedNodes))))))"

text \<open>The second loop: mark the first pod of every node that is not marked yet.\<close>

fun MarkForFileSystemResize_mark ::
  "string \<Rightarrow> volumeResizeMap \<Rightarrow> string \<Rightarrow> ptr list \<Rightarrow> world \<times> string set
     \<Rightarrow> world \<times> error option" where
  "MarkForFileSystemResize_mark pfx resizeMap volumeSpecName [] (w, markedNodes) = (w, None)"
| "MarkForFileSystemResize_mark pfx resizeMap volumeSpecName (podObj # podObjs) (w, markedNodes) =
     (case deref (podHeap w) podObj of Inl e \<Rightarrow> (w, Some e) | Inr obj \<Rightarrow>
       (if podNodeName obj \<in> markedNodes then
          MarkForFileSystemResize_mark pfx resizeMap volumeSpecName podObjs (w, markedNodes)
        else
          (case updatePodAnnotationForPVCResizing pfx resizeMap podObj volumeSpecName w of
             (w1, Some markErr) \<Rightarrow> (w1, Some markErr)
           | (w1, None) \<Rightarrow>
               MarkForFileSystemResize_mark pfx resizeMap volumeSpecName podObjs
                 (w1, insert (podNodeName obj) markedNodes))))"

text \<open>\<open>volumeSpecName\<close> is \<open>volumeSpec.Name()\<close>, the volume's name in the pod spec.\<close>

definition MarkForFileSystemResize ::
  "string \<Rightarrow> volumeResizeMap \<Rightarrow> string \<Rightarrow> string \<Rightarrow> world \<Rightarrow> world \<times> error option" where
  "MarkForFileSystemResize pfx resizeMap volumeSpecName uniqueVolumeName w =
     (let pods = podsInVolumeGetter resizeMap uniqueVolumeName in
      if length pods = 0 then (w, None)
      else
        (let mountedNodes = set (volumeMountedNodesGetter resizeMap uniqueVolumeName) in
         case MarkForFileSystemResize_lookup pfx resizeMap volumeSpecName uniqueVolumeName
                mountedNodes pods (w, [], {}) of
           (w1, Inl e) \<Rightarrow> (w1, Some e)
         | (w1, Inr (podObjs, markedNodes)) \<Rightarrow>
             MarkForFileSystemResize_mark pfx resizeMap volumeSpecName podObjs
               (w1, markedNodes)))"

section \<open>Node side: clearing the annotation, and the populator\<close>

definition MarkAsFileSystemResized ::
  "string \<Rightarrow> volumeFsResizeMap \<Rightarrow> ptr \<Rightarrow> string \<Rightarrow> world \<Rightarrow> world \<times> error option" where
  "MarkAsFileSystemResized pfx resizeMap podPtr volumeName w =
     (if podPtr = None then (w, None)
      else
       (case deref (podHeap w) podPtr of Inl e \<Rightarrow> (w, Some e) | Inr p \<Rightarrow>
        (case PodsGet (fsKubeClient resizeMap) (podNamespace p) (podName p) w of
           Inl err \<Rightarrow> (w, Some (Wrapped ''failed to get pod %s/%s with %v''
                                  [podName p, podNamespace p] err))
         | Inr podObj \<Rightarrow>
            (let annKey = GetVolumeFsResizeAnnotation pfx volumeName in
             if annotationGet (podAnnotations podObj) annKey = None then (w, None)
             else
              (let podObj2 = podObj\<lparr>podAnnotations :=
                               map_option (AList.delete annKey) (podAnnotations podObj)\<rparr>
               in case PodsUpdate (fsKubeClient resizeMap) (podNamespace podObj2) podObj2 w of
                    (w1, Some err) \<Rightarrow>
                      (w1, Some (Wrapped ''failed to update pod %s/%s with %v''
                                   [podName podObj2, podNamespace podObj2] err))
                  | (w1, None) \<Rightarrow> (w1, None))))))"

text \<open>
  The populator holds the pod manager (\<open>GetPods()\<close> gives the pods known now) and the
  status provider. \<open>volumehelper.IsPodTerminated\<close> is not among the source files: it is
  the parameter \<open>IsPodTerminated\<close>.
\<close>

record volumeFsResizeMapPopulator =
  podManager :: "ptr list"
  podStatusProvider :: "string \<Rightarrow> podStatus option"

definition isPodTerminated ::
  "(pod \<Rightarrow> podStatus \<Rightarrow> bool) \<Rightarrow> volumeFsResizeMapPopulator \<Rightarrow> world \<Rightarrow> ptr \<Rightarrow> error + bool" where
  "isPodTerminated IsPodTerminated populator w podPtr =
     (case deref (podHeap w) podPtr of Inl e \<Rightarrow> Inl e | Inr p \<Rightarrow>
       (let status = (case podStatusProvider populator (podUID p) of
                        None \<Rightarrow> podStatusOf p | Some found \<Rightarrow> found)
        in Inr (IsPodTerminated p status)))"

fun processPodVolumes_range ::
  "string \<Rightarrow> ptr \<Rightarrow> (string \<times> string) list \<Rightarrow> world \<times> volumeFsResizeMap
     \<Rightarrow> world \<times> (error + volumeFsResizeMap)" where
  "processPodVolumes_range pfx podPtr [] (w, resizeMap) = (w, Inr resizeMap)"
| "processPodVolumes_range pfx podPtr ((key, val) # rest) (w, resizeMap) =
     (if IsVolumeFsResizeAnnotation pfx key \<and> val = ''yes'' then
        (case DeepCopy (podHeap w) podPtr of Inl e \<Rightarrow> (w, Inl e) | Inr (podCopy, h1) \<Rightarrow>
         (let w1 = w\<lparr>podHeap := h1\<rparr> in
          case AddVolumeForPod w1 (GetVolumeUniqueNameFromFsResizeAnnotation pfx key) podCopy
                 resizeMap of
            Inl e \<Rightarrow> (w1, Inl e)
          | Inr resizeMap1 \<Rightarrow> processPodVolumes_range pfx podPtr rest (w1, resizeMap1)))
      else processPodVolumes_range pfx podPtr rest (w, resizeMap))"

definition processPodVolumes ::
  "string \<Rightarrow> ptr \<Rightarrow> world \<times> volumeFsResizeMap \<Rightarrow> world \<times> (error + volumeFsResizeMap)" where
  "processPodVolumes pfx podPtr s =
     (if podPtr = None then (fst s, Inr (snd s))
      else
       (case deref (podHeap (fst s)) podPtr of Inl e \<Rightarrow> (fst s, Inl e)
        | Inr p \<Rightarrow> processPodVolumes_range pfx podPtr (annotationRange (podAnnotations p)) s))"

fun addNewPods_range ::
  "string \<Rightarrow> (pod \<Rightarrow> podStatus \<Rightarrow> bool) \<Rightarrow> volumeFsResizeMapPopulator \<Rightarrow> ptr list
     \<Rightarrow> world \<times> volumeFsResizeMap \<Rightarrow> world \<times> (error + volumeFsResizeMap)" where
  "addNewPods_range pfx IsPodTerminated populator [] (w, resizeMap) = (w, Inr resizeMap)"
| "addNewPods_range pfx IsPodTerminated populator (podObj # rest) (w, resizeMap) =
     (case isPodTerminated IsPodTerminated populator w podObj of
        Inl e \<Rightarrow> (w, Inl e)
      | Inr terminated \<Rightarrow>
         (if terminated then addNewPods_range pfx IsPodTerminated populator rest (w, resizeMap)
          else
           (case processPodVolumes pfx podObj (w, resizeMap) of
              (w1, Inl e) \<Rightarrow> (w1, Inl e)
            | (w1, Inr resizeMap1) \<Rightarrow>
                addNewPods_range pfx IsPodTerminated populator rest (w1, resizeMap1))))"

definition addNewPods ::
  "string \<Rightarrow> (pod \<Rightarrow> podStatus \<Rightarrow> bool) \<Rightarrow> volumeFsResizeMapPopulator
     \<Rightarrow> world \<times> volumeFsResizeMap \<Rightarrow> world \<times> (error + volumeFsResizeMap)" where
  "addNewPods pfx IsPodTerminated populator s =
     addNewPods_range pfx IsPodTerminated populator (podManager populator) s"

definition populate ::
  "string \<Rightarrow> (pod \<Rightarrow> podStatus \<Rightarrow> bool) \<Rightarrow> volumeFsResizeMapPopulator
     \<Rightarrow> world \<times> volumeFsResizeMap \<Rightarrow> world \<times> (error + volumeFsResizeMap)" where
  "populate pfx IsPodTerminated populator s = addNewPods pfx IsPodTerminated populator s"

section \<open>Auxiliary notions and example data\<close>

text \<open>The keys (pod name, volume name) under which a nested map holds the entry \<open>e\<close>.\<close>

definition entryKeys :: "('a \<times> ('b \<times> 'c) list) list \<Rightarrow> 'c \<Rightarrow> ('a \<times> 'b) set" where
  "entryKeys xs e =
     {(u, v). (case map_of xs u of None \<Rightarrow> None | Some vs \<Rightarrow> map_of vs v) = Some e}"

text \<open>A client whose calls all succeed, and a claim bound to a volume, as in the spec's
  end-to-end scenario: \<open>pvc-a\<close> (UID \<open>u1\<close>), capacity 1, request 2.\<close>

definition example_client :: kubeClient where
  "example_client = \<lparr>podGetErr = (\<lambda>_ _ _. None), podUpdateErr = (\<lambda>_ _. None),
     pvPatchErr = (\<lambda>_ _ _. None), pvcUpdateStatusErr = (\<lambda>_ _. None)\<rparr>"

definition example_claim :: persistentVolumeClaim where
  "example_claim = \<lparr>claimName = ''pvc-a'', claimNamespace = ''default'', claimUID = ''u1'',
     claimRequests = Some [ResourceStorage \<mapsto> 2], claimPhaseOf = ClaimBound,
     claimCapacity = Some [ResourceStorage \<mapsto> 1], claimConditions = [''Resizing'']\<rparr>"

definition example_volume :: persistentVolume where
  "example_volume = \<lparr>pvName = ''pv-a'',
     pvClaimRef = Some \<lparr>refNamespace = ''default'', refName = ''pvc-a''\<rparr>,
     pvCapacity = Some [ResourceStorage \<mapsto> 1]\<rparr>"

definition example_pod ::
  "string \<Rightarrow> string \<Rightarrow> string \<Rightarrow> (string \<times> string) list option \<Rightarrow> pod" where
  "example_pod name uid node anns = \<lparr>podName = name, podNamespace = ''default'', podUID = uid,
     podNodeName = node, podAnnotations = anns, podStatusOf = \<lparr>phase = PodRunning\<rparr>\<rparr>"

text \<open>A world whose pod heap is \<open>ps\<close>, with the same pods stored by the API server.\<close>

definition example_world :: "pod list \<Rightarrow> world" where
  "example_world ps = \<lparr>podHeap = ps, pvHeap = [example_volume], pvcHeap = [example_claim],
     apiPods = map_of (map (\<lambda>p. ((podNamespace p, podName p), p)) ps),
     podUpdates = [], pvPatches = [], pvcStatusUpdates = []\<rparr>"

text \<open>A controller cache whose volume is used by the pods \<open>ps\<close> and mounted on node
  \<open>n1\<close>.\<close>

definition example_resizeMap ::
  "(string \<Rightarrow> string \<Rightarrow> error + ptr) \<Rightarrow> ptr list \<Rightarrow> volumeResizeMap" where
  "example_resizeMap lister ps =
     NewVolumeResizeMap example_client lister (\<lambda>_. ps) (\<lambda>_. [''n1''])"

definition example_request :: PVCWithResizeRequest where
  "example_request =
     \<lparr>PVC = Some 0, PersistentVolume = Some 0, CurrentSize = 1, ExpectedSize = 2\<rparr>"

definition example_fsResizeMap :: volumeFsResizeMap where
  "example_fsResizeMap = \<lparr>fsPods =
       [(''uid-x'', [(''data'', \<lparr>Pod = Some 0, VolumeName = ''data''\<rparr>),
                     (''logs'', \<lparr>Pod = Some 1, VolumeName = ''logs''\<rparr>)]),
        (''uid-y'', [(''data'', \<lparr>Pod = Some 2, VolumeName = ''data''\<rparr>)])],
     fsKubeClient = example_client\<rparr>"

text \<open>
  \<open>heapKept h h'\<close>: every object of the heap \<open>h\<close> is in \<open>h'\<close> at the same address
  with the same value; \<open>h'\<close> may hold more objects.
\<close>

definition heapKept :: "'a list \<Rightarrow> 'a list \<Rightarrow> bool" where
  "heapKept h h' = (take (length h) h' = h)"

text \<open>
  The object the pod lister holds for a pod handed out by \<open>GetPodsInVolume\<close>, when
  the pointer is valid and the lookup succeeds.
\<close>

definition listedPod :: "volumeResizeMap \<Rightarrow> world \<Rightarrow> ptr \<Rightarrow> pod option" where
  "listedPod resizeMap w podPtr =
     (case deref (podHeap w) podPtr of Inl _ \<Rightarrow> None | Inr p \<Rightarrow>
      (case podLister resizeMap (podNamespace p) (podName p) of Inl _ \<Rightarrow> None | Inr listed \<Rightarrow>
       (case deref (podHeap w) listed of Inl _ \<Rightarrow> None | Inr obj \<Rightarrow> Some obj)))"

text \<open>
  The pod that \<open>updatePodAnnotationForPVCResizing\<close> makes of \<open>p\<close>: the same pod with
  the volume's annotation set to \<open>yes\<close>.
\<close>

definition markedCopy :: "string \<Rightarrow> string \<Rightarrow> pod \<Rightarrow> pod" where
  "markedCopy pfx pvcName p = p\<lparr>podAnnotations :=
     Some (AList.update (GetVolumeFsResizeAnnotation pfx pvcName) ''yes''
             (annotationRange (podAnnotations p)))\<rparr>"

text \<open>
  A pod can be marked when it is scheduled and the volume is mounted on its node: the
  first two tests of the lookup loop.
\<close>

definition eligible :: "string set \<Rightarrow> pod \<Rightarrow> bool" where
  "eligible mounted p = (podNodeName p \<noteq> [] \<and> podNodeName p \<in> mounted)"

text \<open>
  The lookup loop as a function of the pods the lister returned (in the order of the
  list), when every lookup succeeds: \<open>a\<close> is the address the next copy gets.
\<close>

fun selectPods ::
  "string \<Rightarrow> string \<Rightarrow> string set \<Rightarrow> pod list \<Rightarrow> addr \<Rightarrow> ptr list \<times> string set
     \<Rightarrow> ptr list \<times> string set" where
  "selectPods pfx vsn mounted [] a (podObjs, marked) = (podObjs, marked)"
| "selectPods pfx vsn mounted (obj # objs) a (podObjs, marked) =
     selectPods pfx vsn mounted objs (Suc a)
       (if eligible mounted obj \<and> podNodeName obj \<notin> marked
           \<and> \<not> podHasMarkedForPVCResizing pfx obj vsn
        then podObjs @ [Some a] else podObjs,
        if eligible mounted obj \<and> podNodeName obj \<notin> marked
           \<and> podHasMarkedForPVCResizing pfx obj vsn
        then insert (podNodeName obj) marked else marked)"

text \<open>
  Memory safety of the inputs of \<open>MarkForFileSystemResize\<close>: a pod pointer handed out
  by \<open>GetPodsInVolume\<close> is nil or points to an object, and so does the pointer the
  lister returns for that pod.
\<close>

definition pointerValid :: "volumeResizeMap \<Rightarrow> pod list \<Rightarrow> ptr \<Rightarrow> bool" where
  "pointerValid resizeMap h p = (case p of None \<Rightarrow> True
     | Some a \<Rightarrow> a < length h
         \<and> (case podLister resizeMap (podNamespace (h ! a)) (podName (h ! a)) of
               Inl _ \<Rightarrow> True | Inr None \<Rightarrow> True | Inr (Some l) \<Rightarrow> l < length h))"

definition pointersValid :: "volumeResizeMap \<Rightarrow> string \<Rightarrow> world \<Rightarrow> bool" where
  "pointersValid resizeMap uvn w =
     list_all (pointerValid resizeMap (podHeap w)) (podsInVolumeGetter resizeMap uvn)"

text \<open>The lister's objects for the pods that use the volume, in the order of the list.\<close>

definition listedPods :: "volumeResizeMap \<Rightarrow> string \<Rightarrow> world \<Rightarrow> pod option list" where
  "listedPods resizeMap uvn w = map (listedPod resizeMap w) (podsInVolumeGetter resizeMap uvn)"

text \<open>A lister that knows \<open>pod-x\<close> (at address 0) and \<open>pod-y\<close> (at address 1).\<close>

definition example_lister :: "string \<Rightarrow> string \<Rightarrow> error + ptr" where
  "example_lister ns name =
     (if name = ''pod-x'' then Inr (Some 0) else if name = ''pod-y'' then Inr (Some 1)
      else Inl (Error ''not found''))"

text \<open>
  The populator, in the spec's words: a pod is skipped when its last-known status is
  terminal, "using the most recent observed status if available, else the workload's own
  last-reported status as fallback".
\<close>

definition podTerminated ::
  "(pod \<Rightarrow> podStatus \<Rightarrow> bool) \<Rightarrow> volumeFsResizeMapPopulator \<Rightarrow> pod \<Rightarrow> bool" where
  "podTerminated IsPodTerminated populator p =
     IsPodTerminated p (case podStatusProvider populator (podUID p) of
                          None \<Rightarrow> podStatusOf p | Some found \<Rightarrow> found)"

text \<open>
  In the spec's words: "scan its metadata for handshake signals whose value indicates
  pending; for each match, derive the volume's logical name from the signal key and
  enqueue (workload-copy, volumeName)". \<open>pendingOfPod\<close> lists the pairs of one pod,
  \<open>pendingResizes\<close> those of all the pods of the pod manager that are not
  terminated, in the order in which the populator meets them.
\<close>

definition pendingOfPod :: "string \<Rightarrow> pod \<Rightarrow> (string \<times> pod) list" where
  "pendingOfPod pfx p =
     map (\<lambda>(key, val). (GetVolumeUniqueNameFromFsResizeAnnotation pfx key, p))
       (filter (\<lambda>(key, val). IsVolumeFsResizeAnnotation pfx key \<and> val = ''yes'')
          (annotationRange (podAnnotations p)))"

definition pendingResizes ::
  "string \<Rightarrow> (pod \<Rightarrow> podStatus \<Rightarrow> bool) \<Rightarrow> volumeFsResizeMapPopulator \<Rightarrow> pod list \<Rightarrow> ptr list
     \<Rightarrow> (string \<times> pod) list" where
  "pendingResizes pfx IsPodTerminated populator h ptrs =
     concat (map (\<lambda>ptr. case deref h ptr of Inl _ \<Rightarrow> []
                          | Inr p \<Rightarrow> if podTerminated IsPodTerminated populator p then []
                                    else pendingOfPod pfx p) ptrs)"

text \<open>
  Enqueueing such pairs, with the copies of the pods at the addresses \<open>a\<close>, \<open>a + 1\<close>,
  and so on: what \<open>AddVolumeForPod\<close> does to the cache for each of them.
\<close>

definition enqueueOne :: "addr \<Rightarrow> string \<times> pod \<Rightarrow> volumeFsResizeMap \<Rightarrow> volumeFsResizeMap" where
  "enqueueOne a vp resizeMap =
     resizeMap\<lparr>fsPods := AList.update (GetUniquePodName (snd vp))
        (AList.update (fst vp) \<lparr>Pod = Some a, VolumeName = fst vp\<rparr>
           (case map_of (fsPods resizeMap) (GetUniquePodName (snd vp)) of
              None \<Rightarrow> [] | Some vs \<Rightarrow> vs))
        (fsPods resizeMap)\<rparr>"

fun enqueueAll :: "addr \<Rightarrow> (string \<times> pod) list \<Rightarrow> volumeFsResizeMap \<Rightarrow> volumeFsResizeMap" where
  "enqueueAll a [] resizeMap = resizeMap"
| "enqueueAll a (vp # rest) resizeMap = enqueueAll (Suc a) rest (enqueueOne a vp resizeMap)"

text \<open>The pods handed out by the pod manager are objects: no pointer is nil.\<close>

definition podPointersValid :: "pod list \<Rightarrow> ptr list \<Rightarrow> bool" where
  "podPointersValid h ptrs = list_all (\<lambda>p. case p of None \<Rightarrow> False | Some a \<Rightarrow> a < length h) ptrs"

text \<open>An instance of \<open>IsPodTerminated\<close>: a pod that has failed or succeeded is
  terminated.\<close>

definition example_IsPodTerminated :: "pod \<Rightarrow> podStatus \<Rightarrow> bool" where
  "example_IsPodTerminated p status = (phase status = PodFailed \<or> phase status = PodSucceeded)"

text \<open>A populator whose pod manager knows the pod at address 0, and whose status provider
  has observed the status \<open>observed\<close>, if any, for every pod.\<close>

definition example_populator :: "podStatus option \<Rightarrow> volumeFsResizeMapPopulator" where
  "example_populator observed = \<lparr>podManager = [Some 0], podStatusProvider = (\<lambda>_. observed)\<rparr>"

section \<open>The caches\<close>

subsection \<open>Draining\<close>

lemma foldl_snoc_snd: "foldl (\<lambda>acc (_, v). acc @ [v]) acc xs = acc @ map snd xs"
  by (induction xs arbitrary: acc) auto

lemma foldl_snoc_nested:
  "foldl (\<lambda>acc (_, vs). foldl (\<lambda>acc (_, v). acc @ [v]) acc vs) acc xs
     = acc @ concat (map (\<lambda>(_, vs). map snd vs) xs)"
  by (induction xs arbitrary: acc) (auto simp: foldl_snoc_snd)

lemma finite_map_of_keys: "finite {k. map_of xs k = Some r}"
proof -
  have "{k. map_of xs k = Some r} \<subseteq> fst ` set xs"
    by (auto dest: map_of_SomeD intro: rev_image_eqI)
  then show ?thesis by (rule finite_subset) simp
qed

text \<open>In a map, a value is listed by \<open>range\<close> once for every key that holds it.\<close>

lemma count_list_values:
  "distinct (map fst xs) \<Longrightarrow> count_list (map snd xs) r = card {k. map_of xs k = Some r}"
proof (induction xs)
  case Nil
  then show ?case by simp
next
  case (Cons x xs)
  obtain k v where x: "x = (k, v)" by (cases x)
  from Cons.prems x have knotin: "k \<notin> fst ` set xs" and d: "distinct (map fst xs)" by auto
  then have none: "map_of xs k = None" by (simp add: map_of_eq_None_iff)
  have split: "{k'. map_of (x # xs) k' = Some r}
      = (if v = r then insert k {k'. map_of xs k' = Some r} else {k'. map_of xs k' = Some r})"
    using none x by auto
  have notin: "k \<notin> {k'. map_of xs k' = Some r}" using none by simp
  show ?case
    using Cons.IH [OF d] x split notin finite_map_of_keys [of xs r] by simp
qed

lemma entryKeys_Nil: "entryKeys [] e = {}"
  by (simp add: entryKeys_def)

lemma entryKeys_Cons:
  "map_of xs u0 = None \<Longrightarrow>
   entryKeys ((u0, vs0) # xs) e = (Pair u0 ` {v. map_of vs0 v = Some e}) \<union> entryKeys xs e"
  by (auto simp: entryKeys_def split: option.splits if_splits)

lemma entryKeys_fst: "(u, v) \<in> entryKeys xs e \<Longrightarrow> map_of xs u \<noteq> None"
  by (auto simp: entryKeys_def split: option.splits)

lemma finite_entryKeys: "finite (entryKeys xs e)"
proof (induction xs)
  case Nil
  then show ?case by (simp add: entryKeys_Nil)
next
  case (Cons x xs)
  obtain u0 vs0 where x: "x = (u0, vs0)" by (cases x)
  have "entryKeys (x # xs) e \<subseteq> (Pair u0 ` {v. map_of vs0 v = Some e}) \<union> entryKeys xs e"
    unfolding x by (auto simp: entryKeys_def split: option.splits if_splits)
  moreover have "finite ((Pair u0 ` {v. map_of vs0 v = Some e}) \<union> entryKeys xs e)"
    using Cons.IH finite_map_of_keys [of vs0 e] by simp
  ultimately show ?case by (rule finite_subset)
qed

lemma count_list_nested_values:
  "distinct (map fst xs) \<Longrightarrow> list_all (\<lambda>(_, vs). distinct (map fst vs)) xs \<Longrightarrow>
   count_list (concat (map (\<lambda>(_, vs). map snd vs) xs)) e = card (entryKeys xs e)"
proof (induction xs)
  case Nil
  then show ?case by (simp add: entryKeys_Nil)
next
  case (Cons x xs)
  obtain u0 vs0 where x: "x = (u0, vs0)" by (cases x)
  from Cons.prems x have d: "distinct (map fst xs)" and u0: "u0 \<notin> fst ` set xs"
    and d0: "distinct (map fst vs0)"
    and ds: "list_all (\<lambda>(_, vs). distinct (map fst vs)) xs" by auto
  from u0 have none: "map_of xs u0 = None" by (simp add: map_of_eq_None_iff)
  have disj: "(Pair u0 ` {v. map_of vs0 v = Some e}) \<inter> entryKeys xs e = {}"
    using none by (auto dest: entryKeys_fst)
  have "card (entryKeys (x # xs) e)
      = card (Pair u0 ` {v. map_of vs0 v = Some e}) + card (entryKeys xs e)"
    unfolding x entryKeys_Cons [OF none]
    by (rule card_Un_disjoint) (simp_all add: finite_map_of_keys finite_entryKeys disj)
  also have "card (Pair u0 ` {v. map_of vs0 v = Some e}) = card {v. map_of vs0 v = Some e}"
    by (rule card_image) (simp add: inj_on_def)
  finally show ?case
    using Cons.IH [OF d ds] count_list_values [OF d0, of e] x by simp
qed

subsection \<open>The keys of both caches stay distinct\<close>

lemma pvcrs_ok_New: "pvcrs_ok (NewVolumeResizeMap c lister pg ng)"
  by (simp add: pvcrs_ok_def NewVolumeResizeMap_def)

lemma pvcrs_ok_AddPVCUpdate:
  "pvcrs_ok resizeMap \<Longrightarrow> AddPVCUpdate w pvc pv resizeMap = Inr resizeMap' \<Longrightarrow> pvcrs_ok resizeMap'"
  by (auto simp: pvcrs_ok_def AddPVCUpdate_def Let_def distinct_update
           split: sum.splits if_splits)

lemma pvcrs_ok_DeletePVC:
  "pvcrs_ok resizeMap \<Longrightarrow> DeletePVC w pvc resizeMap = Inr resizeMap' \<Longrightarrow> pvcrs_ok resizeMap'"
  by (auto simp: pvcrs_ok_def DeletePVC_def distinct_delete split: sum.splits)

lemma pvcrs_ok_GetPVCsWithResizeRequest: "pvcrs_ok (snd (GetPVCsWithResizeRequest resizeMap))"
  by (simp add: pvcrs_ok_def GetPVCsWithResizeRequest_def)

lemma fsPods_ok_New: "fsPods_ok (NewVolumeFsResizeMap c)"
  by (simp add: fsPods_ok_def NewVolumeFsResizeMap_def)

lemma list_all_update:
  "list_all P xs \<Longrightarrow> P (k, v) \<Longrightarrow> list_all P (AList.update k v xs)"
  by (induction xs) auto

lemma fsPods_ok_AddVolumeForPod:
  assumes "fsPods_ok resizeMap" and "AddVolumeForPod w volumeName podPtr resizeMap = Inr resizeMap'"
  shows "fsPods_ok resizeMap'"
proof -
  from assms(2) obtain p where
    r: "resizeMap' = resizeMap\<lparr>fsPods := AList.update (GetUniquePodName p)
          (AList.update volumeName \<lparr>Pod = podPtr, VolumeName = volumeName\<rparr>
             (case map_of (fsPods resizeMap) (GetUniquePodName p) of None \<Rightarrow> [] | Some vs \<Rightarrow> vs))
          (fsPods resizeMap)\<rparr>"
    by (auto simp: AddVolumeForPod_def Let_def split: sum.splits)
  have inner: "distinct (map fst
      (case map_of (fsPods resizeMap) (GetUniquePodName p) of None \<Rightarrow> [] | Some vs \<Rightarrow> vs))"
  proof (cases "map_of (fsPods resizeMap) (GetUniquePodName p)")
    case None
    then show ?thesis by simp
  next
    case (Some vs)
    then have "(GetUniquePodName p, vs) \<in> set (fsPods resizeMap)" by (rule map_of_SomeD)
    with assms(1) have "distinct (map fst vs)"
      by (auto simp: fsPods_ok_def list_all_iff)
    with Some show ?thesis by simp
  qed
  from assms(1) inner show ?thesis
    unfolding r fsPods_ok_def
    by (simp add: distinct_update list_all_update)
qed

lemma fsPods_ok_GetVolumesToResize: "fsPods_ok (snd (GetVolumesToResize resizeMap))"
  by (simp add: fsPods_ok_def GetVolumesToResize_def)

text \<open>
  C1. Draining either cache (\<open>GetPVCsWithResizeRequest\<close> on the controller side,
  \<open>GetVolumesToResize\<close> on the node side) leaves the cache empty and returns every entry
  that was in it exactly once: each record occurs in the batch as many times as there are
  keys holding it, so nothing is lost and nothing is listed twice, and nothing stays
  behind in the cache.
\<close>

theorem drain_returns_every_entry_once:
  assumes "pvcrs_ok resizeMap" and "fsPods_ok fsResizeMap"
  shows "pvcrs (snd (GetPVCsWithResizeRequest resizeMap)) = []
       \<and> (\<forall>r. count_list (fst (GetPVCsWithResizeRequest resizeMap)) r
                = card {k. map_of (pvcrs resizeMap) k = Some r})
       \<and> fsPods (snd (GetVolumesToResize fsResizeMap)) = []
       \<and> (\<forall>e. count_list (fst (GetVolumesToResize fsResizeMap)) e
                = card {(u, v). fsLookup fsResizeMap u v = Some e})"
proof -
  have a: "fst (GetPVCsWithResizeRequest resizeMap) = map snd (pvcrs resizeMap)"
    by (simp add: GetPVCsWithResizeRequest_def foldl_snoc_snd)
  have b: "fst (GetVolumesToResize fsResizeMap)
      = concat (map (\<lambda>(_, vs). map snd vs) (fsPods fsResizeMap))"
    by (simp add: GetVolumesToResize_def foldl_snoc_nested)
  have c: "{(u, v). fsLookup fsResizeMap u v = Some e} = entryKeys (fsPods fsResizeMap) e" for e
    by (simp add: entryKeys_def fsLookup_def)
  from assms show ?thesis
    unfolding a b c
    by (simp add: pvcrs_ok_def fsPods_ok_def count_list_values count_list_nested_values
        GetPVCsWithResizeRequest_def GetVolumesToResize_def)
qed

theorem drain_returns_every_entry_once_witness:
  "pvcrs_ok ((example_resizeMap (\<lambda>_ _. Inr None) [])\<lparr>pvcrs := [(''u1'', example_request)]\<rparr>)
   \<and> fsPods_ok example_fsResizeMap
   \<and> fst (GetPVCsWithResizeRequest
        ((example_resizeMap (\<lambda>_ _. Inr None) [])\<lparr>pvcrs := [(''u1'', example_request)]\<rparr>))
       = [example_request]
   \<and> (\<forall>r. count_list (fst (GetPVCsWithResizeRequest
        ((example_resizeMap (\<lambda>_ _. Inr None) [])\<lparr>pvcrs := [(''u1'', example_request)]\<rparr>))) r
        = card {k. map_of [(''u1'', example_request)] k = Some r})
   \<and> fsPods (snd (GetVolumesToResize example_fsResizeMap)) = []
   \<and> (\<forall>e. count_list (fst (GetVolumesToResize example_fsResizeMap)) e
        = card {(u, v). fsLookup example_fsResizeMap u v = Some e})"
proof -
  have h1: "pvcrs_ok ((example_resizeMap (\<lambda>_ _. Inr None) [])
      \<lparr>pvcrs := [(''u1'', example_request)]\<rparr>)"
    by (simp add: pvcrs_ok_def)
  have h2: "fsPods_ok example_fsResizeMap"
    by (simp add: fsPods_ok_def example_fsResizeMap_def)
  have g: "fst (GetPVCsWithResizeRequest
        ((example_resizeMap (\<lambda>_ _. Inr None) [])\<lparr>pvcrs := [(''u1'', example_request)]\<rparr>))
       = [example_request]"
    by (simp add: GetPVCsWithResizeRequest_def)
  from drain_returns_every_entry_once [OF h1 h2] h1 h2 g show ?thesis by simp
qed

subsection \<open>Enqueueing a claim\<close>

text \<open>
  C3. \<open>AddPVCUpdate\<close> inserts (or overwrites), under the claim's UID, a request whose
  \<open>CurrentSize\<close> is the claim's status capacity and whose \<open>ExpectedSize\<close> is its
  requested storage, exactly when the volume's claim reference is set and names the
  claim's namespace and name, the claim is Bound, and the status capacity is strictly
  smaller than the request. Otherwise the cache is returned unchanged. In both cases the
  call returns normally.
\<close>

theorem AddPVCUpdate_inserts_iff_resize_needed:
  assumes "deref (pvHeap w) pv = Inr pvObj" and "deref (pvcHeap w) pvc = Inr claim"
  shows "\<exists>resizeMap'. AddPVCUpdate w pvc pv resizeMap = Inr resizeMap'
     \<and> (if (\<exists>claimRef. pvClaimRef pvObj = Some claimRef
               \<and> refNamespace claimRef = claimNamespace claim
               \<and> refName claimRef = claimName claim)
            \<and> claimPhaseOf claim = ClaimBound
            \<and> resourceGet (claimCapacity claim) ResourceStorage
                 < resourceGet (claimRequests claim) ResourceStorage
         then map_of (pvcrs resizeMap')
                = (map_of (pvcrs resizeMap))(claimUID claim \<mapsto>
                     \<lparr>PVC = pvc, PersistentVolume = pv,
                      CurrentSize = resourceGet (claimCapacity claim) ResourceStorage,
                      ExpectedSize = resourceGet (claimRequests claim) ResourceStorage\<rparr>)
              \<and> resizeMap' = resizeMap\<lparr>pvcrs := pvcrs resizeMap'\<rparr>
         else resizeMap' = resizeMap)"
  using assms
  by (cases "pvClaimRef pvObj")
     (auto simp: AddPVCUpdate_def Cmp_def Let_def update_conv')

theorem AddPVCUpdate_inserts_iff_resize_needed_witness:
  "deref (pvHeap (example_world [])) (Some 0) = Inr example_volume
   \<and> deref (pvcHeap (example_world [])) (Some 0) = Inr example_claim
   \<and> (\<exists>resizeMap'. AddPVCUpdate (example_world []) (Some 0) (Some 0)
           (example_resizeMap (\<lambda>_ _. Inr None) []) = Inr resizeMap'
        \<and> map_of (pvcrs resizeMap') ''u1''
            = Some \<lparr>PVC = Some 0, PersistentVolume = Some 0, CurrentSize = 1, ExpectedSize = 2\<rparr>)"
proof -
  have h1: "deref (pvHeap (example_world [])) (Some 0) = Inr example_volume"
    by (simp add: deref_def example_world_def)
  have h2: "deref (pvcHeap (example_world [])) (Some 0) = Inr example_claim"
    by (simp add: deref_def example_world_def)
  have c: "(\<exists>claimRef. pvClaimRef example_volume = Some claimRef
               \<and> refNamespace claimRef = claimNamespace example_claim
               \<and> refName claimRef = claimName example_claim)
            \<and> claimPhaseOf example_claim = ClaimBound
            \<and> (1::int) < 2"
    by (simp add: example_volume_def example_claim_def)
  have v: "resourceGet (claimCapacity example_claim) ResourceStorage = 1"
    "resourceGet (claimRequests example_claim) ResourceStorage = 2"
    "claimUID example_claim = ''u1''"
    by (simp_all add: example_claim_def resourceGet_def)
  from AddPVCUpdate_inserts_iff_resize_needed
         [OF h1 h2, of "example_resizeMap (\<lambda>_ _. Inr None) []"]
  have "\<exists>r. AddPVCUpdate (example_world []) (Some 0) (Some 0)
       (example_resizeMap (\<lambda>_ _. Inr None) []) = Inr r
    \<and> map_of (pvcrs r) = (map_of (pvcrs (example_resizeMap (\<lambda>_ _. Inr None) [])))
       (''u1'' \<mapsto> \<lparr>PVC = Some 0, PersistentVolume = Some 0, CurrentSize = 1, ExpectedSize = 2\<rparr>)
    \<and> r = (example_resizeMap (\<lambda>_ _. Inr None) [])\<lparr>pvcrs := pvcrs r\<rparr>"
    unfolding v if_P [OF c] .
  then obtain r where r: "AddPVCUpdate (example_world []) (Some 0) (Some 0)
       (example_resizeMap (\<lambda>_ _. Inr None) []) = Inr r
    \<and> map_of (pvcrs r) = (map_of (pvcrs (example_resizeMap (\<lambda>_ _. Inr None) [])))
       (''u1'' \<mapsto> \<lparr>PVC = Some 0, PersistentVolume = Some 0, CurrentSize = 1, ExpectedSize = 2\<rparr>)
    \<and> r = (example_resizeMap (\<lambda>_ _. Inr None) [])\<lparr>pvcrs := pvcrs r\<rparr>" ..
  from r have m: "map_of (pvcrs r) ''u1''
       = Some \<lparr>PVC = Some 0, PersistentVolume = Some 0, CurrentSize = 1, ExpectedSize = 2\<rparr>"
    by simp
  from r have a: "AddPVCUpdate (example_world []) (Some 0) (Some 0)
       (example_resizeMap (\<lambda>_ _. Inr None) []) = Inr r" by (rule conjunct1)
  from a m have "\<exists>resizeMap'. AddPVCUpdate (example_world []) (Some 0) (Some 0)
           (example_resizeMap (\<lambda>_ _. Inr None) []) = Inr resizeMap'
        \<and> map_of (pvcrs resizeMap') ''u1''
            = Some \<lparr>PVC = Some 0, PersistentVolume = Some 0, CurrentSize = 1, ExpectedSize = 2\<rparr>"
    by (intro exI [of _ r] conjI)
  with h1 h2 show ?thesis by (intro conjI)
qed

section \<open>Heaps and copies\<close>

lemma heapKept_refl: "heapKept h h"
  by (simp add: heapKept_def)

lemma heapKept_length: "heapKept h h' \<Longrightarrow> length h \<le> length h'"
  unfolding heapKept_def by (drule arg_cong [where f = length]) simp

lemma heapKept_trans: "heapKept h1 h2 \<Longrightarrow> heapKept h2 h3 \<Longrightarrow> heapKept h1 h3"
proof -
  assume a: "heapKept h1 h2" and b: "heapKept h2 h3"
  from a have l: "length h1 \<le> length h2" by (rule heapKept_length)
  have "take (length h1) h3 = take (length h1) (take (length h2) h3)"
    using l by (simp add: min_def)
  also have "\<dots> = take (length h1) h2" using b by (simp add: heapKept_def)
  also have "\<dots> = h1" using a by (simp add: heapKept_def)
  finally show ?thesis by (simp add: heapKept_def)
qed

lemma heapKept_append: "heapKept h (h @ xs)"
  by (simp add: heapKept_def)

lemma heapKept_store: "heapKept h h' \<Longrightarrow> length h \<le> a \<Longrightarrow> heapKept h (store h' (Some a) v)"
  by (simp add: heapKept_def store_def)

lemma heapKept_nth: "heapKept h h' \<Longrightarrow> a < length h \<Longrightarrow> h' ! a = h ! a"
  using nth_take [of a "length h" h'] by (simp add: heapKept_def)

lemma deref_kept: "heapKept h h' \<Longrightarrow> deref h p = Inr v \<Longrightarrow> deref h' p = Inr v"
  using heapKept_length [of h h'] heapKept_nth [of h h']
  by (auto simp: deref_def split: option.splits if_splits)

lemma DeepCopy_cases:
  assumes "DeepCopy h p = Inr (q, h1)"
  obtains "p = None" "q = None" "h1 = h"
  | a where "p = Some a" "a < length h" "q = Some (length h)" "h1 = h @ [h ! a]"
  using assms by (auto simp: DeepCopy_def split: option.splits if_splits)

lemma DeepCopy_kept: "DeepCopy h p = Inr (q, h1) \<Longrightarrow> heapKept h h1"
  by (erule DeepCopy_cases) (simp_all add: heapKept_refl heapKept_append)

lemma DeepCopy_deref:
  "DeepCopy h p = Inr (q, h1) \<Longrightarrow> deref h1 q = Inr v
     \<Longrightarrow> deref h p = Inr v \<and> q = Some (length h) \<and> h1 = h @ [v]"
  by (erule DeepCopy_cases) (auto simp: deref_def nth_append split: if_splits)

lemma UpdatePVSize_frame:
  "heapKept (pvHeap w) (pvHeap (fst (UpdatePVSize marshalErr createPatchErr resizeMap pvcr newSize w)))
   \<and> podHeap (fst (UpdatePVSize marshalErr createPatchErr resizeMap pvcr newSize w)) = podHeap w
   \<and> pvcHeap (fst (UpdatePVSize marshalErr createPatchErr resizeMap pvcr newSize w)) = pvcHeap w"
proof (cases "DeepCopy (pvHeap w) (PersistentVolume pvcr)")
  case (Inl e)
  then show ?thesis by (simp add: UpdatePVSize_def heapKept_refl)
next
  case (Inr r)
  obtain pvClone h1 where r: "r = (pvClone, h1)" by (cases r)
  from Inr r have k: "heapKept (pvHeap w) h1" by (auto dest: DeepCopy_kept)
  show ?thesis
  proof (cases "deref h1 pvClone")
    case (Inl e)
    with Inr r k show ?thesis
      by (auto simp: UpdatePVSize_def Let_def split: option.splits)
  next
    case c: (Inr c)
    from DeepCopy_deref [OF Inr [unfolded r] c]
    have q: "pvClone = Some (length (pvHeap w))" and h1: "h1 = pvHeap w @ [c]" by simp_all
    have s: "heapKept (pvHeap w) (store h1 pvClone v)" for v
      unfolding q by (rule heapKept_store [OF k]) simp
    from Inr r c k s show ?thesis
      by (auto simp: UpdatePVSize_def Let_def PersistentVolumesPatch_def
               split: option.splits sum.splits)
  qed
qed

lemma updatePVCCapacityAndConditions_frame:
  "heapKept (pvcHeap w) (pvcHeap (fst (updatePVCCapacityAndConditions resizeMap pvcr newSize cs w)))
   \<and> podHeap (fst (updatePVCCapacityAndConditions resizeMap pvcr newSize cs w)) = podHeap w
   \<and> pvHeap (fst (updatePVCCapacityAndConditions resizeMap pvcr newSize cs w)) = pvHeap w"
proof (cases "DeepCopy (pvcHeap w) (PVC pvcr)")
  case (Inl e)
  then show ?thesis by (simp add: updatePVCCapacityAndConditions_def heapKept_refl)
next
  case (Inr r)
  obtain claimClone h1 where r: "r = (claimClone, h1)" by (cases r)
  from Inr r have k: "heapKept (pvcHeap w) h1" by (auto dest: DeepCopy_kept)
  show ?thesis
  proof (cases "deref h1 claimClone")
    case (Inl e)
    with Inr r k show ?thesis
      by (auto simp: updatePVCCapacityAndConditions_def Let_def)
  next
    case c: (Inr c)
    from DeepCopy_deref [OF Inr [unfolded r] c]
    have q: "claimClone = Some (length (pvcHeap w))" by simp
    have s: "heapKept (pvcHeap w) (store h1 claimClone v)" for v
      unfolding q by (rule heapKept_store [OF k]) simp
    from Inr r c k s show ?thesis
      by (auto simp: updatePVCCapacityAndConditions_def Let_def
               PersistentVolumeClaimsUpdateStatus_def split: sum.splits)
  qed
qed

lemma MarkAsResized_fst:
  "fst (MarkAsResized resizeMap pvcr newSize w)
     = fst (updatePVCCapacityAndConditions resizeMap pvcr newSize [] w)"
  by (simp add: MarkAsResized_def split: prod.splits option.splits)



section \<open>The two loops of \<open>MarkForFileSystemResize\<close>\<close>

lemma deref_append_new: "deref (h @ [v]) (Some (length h)) = Inr v"
  by (simp add: deref_def)

lemma DeepCopy_valid: "deref h p = Inr v \<Longrightarrow> DeepCopy h p = Inr (Some (length h), h @ [v])"
  by (auto simp: deref_def DeepCopy_def split: option.splits if_splits)

lemma DeepCopy_invalid:
  "deref h p = Inl e \<Longrightarrow> DeepCopy h p = Inr (None, h) \<or> (\<exists>e'. DeepCopy h p = Inl e')"
  by (auto simp: deref_def DeepCopy_def split: option.splits if_splits)

lemma deref_None: "deref h None = Inl (Panic ''nil pointer dereference'')"
  by (simp add: deref_def)

lemma lookup_step:
  assumes "listedPod resizeMap w podPtr = Some obj"
  shows "MarkForFileSystemResize_lookup pfx resizeMap vsn uvn mounted (podPtr # pods)
           (w, podObjs, marked)
       = MarkForFileSystemResize_lookup pfx resizeMap vsn uvn mounted pods
           (w\<lparr>podHeap := podHeap w @ [obj]\<rparr>,
            (if podNodeName obj \<noteq> [] \<and> podNodeName obj \<in> mounted \<and> podNodeName obj \<notin> marked
                \<and> \<not> podHasMarkedForPVCResizing pfx obj vsn
             then podObjs @ [Some (length (podHeap w))] else podObjs),
            (if podNodeName obj \<noteq> [] \<and> podNodeName obj \<in> mounted \<and> podNodeName obj \<notin> marked
                \<and> podHasMarkedForPVCResizing pfx obj vsn
             then insert (podNodeName obj) marked else marked))"
proof -
  from assms obtain p listed where
    p: "deref (podHeap w) podPtr = Inr p"
    and l: "podLister resizeMap (podNamespace p) (podName p) = Inr listed"
    and o: "deref (podHeap w) listed = Inr obj"
    by (auto simp: listedPod_def split: sum.splits)
  show ?thesis
    by (simp add: p l DeepCopy_valid [OF o] deref_append_new Let_def)
qed

lemma lookup_head_fails:
  assumes "listedPod resizeMap w podPtr = None"
  shows "\<exists>e. MarkForFileSystemResize_lookup pfx resizeMap vsn uvn mounted (podPtr # pods)
           (w, podObjs, marked) = (w, Inl e)"
proof (cases "deref (podHeap w) podPtr")
  case (Inl e)
  then show ?thesis by simp
next
  case p: (Inr p)
  show ?thesis
  proof (cases "podLister resizeMap (podNamespace p) (podName p)")
    case (Inl err)
    with p show ?thesis by simp
  next
    case l: (Inr listed)
    with p assms obtain e where e: "deref (podHeap w) listed = Inl e"
      by (auto simp: listedPod_def split: sum.splits)
    from DeepCopy_invalid [OF e] show ?thesis
      by (auto simp: p l deref_None Let_def)
  qed
qed


lemma listedPod_kept:
  assumes k: "heapKept (podHeap w) (podHeap w')" and l: "listedPod resizeMap w p = Some obj"
  shows "listedPod resizeMap w' p = Some obj"
proof -
  from l obtain pv listed where
    p: "deref (podHeap w) p = Inr pv"
    and g: "podLister resizeMap (podNamespace pv) (podName pv) = Inr listed"
    and o: "deref (podHeap w) listed = Inr obj"
    by (auto simp: listedPod_def split: sum.splits)
  from deref_kept [OF k p] deref_kept [OF k o] g show ?thesis
    by (simp add: listedPod_def)
qed

lemma lookup_frame:
  "MarkForFileSystemResize_lookup pfx resizeMap vsn uvn mounted pods (w, podObjs, marked) = (w', res)
     \<Longrightarrow> heapKept (podHeap w) (podHeap w') \<and> w' = w\<lparr>podHeap := podHeap w'\<rparr>"
proof (induction pods arbitrary: w podObjs marked)
  case Nil
  then show ?case by (auto simp: heapKept_refl)
next
  case (Cons p pods)
  show ?case
  proof (cases "listedPod resizeMap w p")
    case None
    from lookup_head_fails [OF None, of pfx vsn uvn mounted pods podObjs marked] Cons.prems
    show ?thesis by (auto simp: heapKept_refl)
  next
    case (Some obj)
    from Cons.prems [unfolded lookup_step [OF Some]]
    have "heapKept (podHeap (w\<lparr>podHeap := podHeap w @ [obj]\<rparr>)) (podHeap w')
        \<and> w' = (w\<lparr>podHeap := podHeap w @ [obj]\<rparr>)\<lparr>podHeap := podHeap w'\<rparr>"
      by (rule Cons.IH)
    then have k: "heapKept (podHeap w @ [obj]) (podHeap w')"
      and e: "w' = w\<lparr>podHeap := podHeap w'\<rparr>" by simp_all
    from heapKept_trans [OF heapKept_append k] e show ?thesis by simp
  qed
qed

lemma lookup_fresh:
  "MarkForFileSystemResize_lookup pfx resizeMap vsn uvn mounted pods (w, podObjs, marked)
       = (w', Inr (podObjs', marked'))
     \<Longrightarrow> list_all (\<lambda>p. case p of None \<Rightarrow> False | Some a \<Rightarrow> n \<le> a) podObjs
     \<Longrightarrow> n \<le> length (podHeap w)
     \<Longrightarrow> list_all (\<lambda>p. case p of None \<Rightarrow> False | Some a \<Rightarrow> n \<le> a) podObjs'"
proof (induction pods arbitrary: w podObjs marked)
  case Nil
  then show ?case by auto
next
  case (Cons p pods)
  show ?case
  proof (cases "listedPod resizeMap w p")
    case None
    from lookup_head_fails [OF None, of pfx vsn uvn mounted pods podObjs marked] Cons.prems(1)
    show ?thesis by auto
  next
    case (Some obj)
    show ?thesis
      by (rule Cons.IH [OF Cons.prems(1) [unfolded lookup_step [OF Some]]])
         (use Cons.prems(2,3) in auto)
  qed
qed

lemma lookup_fails:
  "p \<in> set pods \<Longrightarrow> deref (podHeap w) p = Inr pv
     \<Longrightarrow> podLister resizeMap (podNamespace pv) (podName pv) = Inl err
     \<Longrightarrow> \<exists>e. snd (MarkForFileSystemResize_lookup pfx resizeMap vsn uvn mounted pods
                    (w, podObjs, marked)) = Inl e"
proof (induction pods arbitrary: w podObjs marked)
  case Nil
  then show ?case by simp
next
  case (Cons x pods)
  show ?case
  proof (cases "listedPod resizeMap w x")
    case None
    from lookup_head_fails [OF None, of pfx vsn uvn mounted pods podObjs marked]
    show ?thesis by auto
  next
    case (Some obj)
    with Cons.prems(2,3) have "x \<noteq> p" by (auto simp: listedPod_def)
    with Cons.prems(1) have in_rest: "p \<in> set pods" by simp
    have d: "deref (podHeap (w\<lparr>podHeap := podHeap w @ [obj]\<rparr>)) p = Inr pv"
      using deref_kept [OF heapKept_append Cons.prems(2)] by simp
    show ?thesis
      unfolding lookup_step [OF Some]
      by (rule Cons.IH [OF in_rest d Cons.prems(3)])
  qed
qed


lemma PodsUpdate_frame:
  "PodsUpdate c ns q w = (w', res) \<Longrightarrow>
     podHeap w' = podHeap w \<and> pvHeap w' = pvHeap w \<and> pvcHeap w' = pvcHeap w
     \<and> podUpdates w' = podUpdates w @ [q]"
  by (auto simp: PodsUpdate_def Let_def split: option.splits)

lemma updatePodAnnotation_frame:
  assumes "updatePodAnnotationForPVCResizing pfx resizeMap p pvcName w = (w', res)"
    and "case p of None \<Rightarrow> False | Some a \<Rightarrow> n \<le> a"
  shows "take n (podHeap w') = take n (podHeap w) \<and> pvHeap w' = pvHeap w
     \<and> pvcHeap w' = pvcHeap w"
proof (cases "deref (podHeap w) p")
  case (Inl e)
  with assms(1) show ?thesis by (simp add: updatePodAnnotationForPVCResizing_def)
next
  case (Inr obj)
  from assms(2) obtain a where a: "p = Some a" "n \<le> a" by (cases p) auto
  from assms(1) Inr obtain ns q where
    "PodsUpdate (kubeClient resizeMap) ns q
       (w\<lparr>podHeap := store (podHeap w) p q\<rparr>) = (w', res)"
    by (simp add: updatePodAnnotationForPVCResizing_def Let_def)
  from PodsUpdate_frame [OF this] a show ?thesis
    by (simp add: store_def)
qed

lemma mark_frame:
  "MarkForFileSystemResize_mark pfx resizeMap vsn podObjs (w, marked) = (w', res)
     \<Longrightarrow> list_all (\<lambda>p. case p of None \<Rightarrow> False | Some a \<Rightarrow> n \<le> a) podObjs
     \<Longrightarrow> take n (podHeap w') = take n (podHeap w) \<and> pvHeap w' = pvHeap w
         \<and> pvcHeap w' = pvcHeap w"
proof (induction podObjs arbitrary: w marked)
  case Nil
  then show ?case by simp
next
  case (Cons p podObjs)
  from Cons.prems(2) have fresh: "case p of None \<Rightarrow> False | Some a \<Rightarrow> n \<le> a"
    and rest: "list_all (\<lambda>p. case p of None \<Rightarrow> False | Some a \<Rightarrow> n \<le> a) podObjs"
    by simp_all
  show ?case
  proof (cases "deref (podHeap w) p")
    case (Inl e)
    with Cons.prems(1) show ?thesis by simp
  next
    case (Inr obj)
    show ?thesis
    proof (cases "podNodeName obj \<in> marked")
      case True
      with Cons.prems(1) Inr have
        "MarkForFileSystemResize_mark pfx resizeMap vsn podObjs (w, marked) = (w', res)"
        by simp
      from Cons.IH [OF this rest] show ?thesis .
    next
      case False
      obtain w1 r1 where u: "updatePodAnnotationForPVCResizing pfx resizeMap p vsn w = (w1, r1)"
        by (cases "updatePodAnnotationForPVCResizing pfx resizeMap p vsn w")
      note f = updatePodAnnotation_frame [OF u fresh]
      show ?thesis
      proof (cases r1)
        case None
        with Cons.prems(1) Inr False u have
          "MarkForFileSystemResize_mark pfx resizeMap vsn podObjs
             (w1, insert (podNodeName obj) marked) = (w', res)"
          by simp
        from Cons.IH [OF this rest] f show ?thesis by simp
      next
        case (Some e)
        with Cons.prems(1) Inr False u have "w' = w1" by simp
        with f show ?thesis by simp
      qed
    qed
  qed
qed

text \<open>
  C7. The mutating operations work on copies: \<open>UpdatePVSize\<close> leaves every volume
  object that existed before the call as it was, \<open>MarkAsResized\<close> (through
  \<open>updatePVCCapacityAndConditions\<close>) every claim object, and
  \<open>MarkForFileSystemResize\<close> every pod object. Each of them only adds objects (the
  copies it edits) to the heap of its own kind, and leaves the other heaps alone.
\<close>

theorem mutations_work_on_copies:
  "heapKept (pvHeap w)
      (pvHeap (fst (UpdatePVSize marshalErr createPatchErr resizeMap pvcr newSize w)))
   \<and> podHeap (fst (UpdatePVSize marshalErr createPatchErr resizeMap pvcr newSize w)) = podHeap w
   \<and> pvcHeap (fst (UpdatePVSize marshalErr createPatchErr resizeMap pvcr newSize w)) = pvcHeap w
   \<and> heapKept (pvcHeap w) (pvcHeap (fst (MarkAsResized resizeMap pvcr newSize w)))
   \<and> podHeap (fst (MarkAsResized resizeMap pvcr newSize w)) = podHeap w
   \<and> pvHeap (fst (MarkAsResized resizeMap pvcr newSize w)) = pvHeap w
   \<and> heapKept (podHeap w) (podHeap (fst (MarkForFileSystemResize pfx resizeMap vsn uvn w)))
   \<and> pvHeap (fst (MarkForFileSystemResize pfx resizeMap vsn uvn w)) = pvHeap w
   \<and> pvcHeap (fst (MarkForFileSystemResize pfx resizeMap vsn uvn w)) = pvcHeap w"
proof -
  have m: "heapKept (podHeap w) (podHeap (fst (MarkForFileSystemResize pfx resizeMap vsn uvn w)))
   \<and> pvHeap (fst (MarkForFileSystemResize pfx resizeMap vsn uvn w)) = pvHeap w
   \<and> pvcHeap (fst (MarkForFileSystemResize pfx resizeMap vsn uvn w)) = pvcHeap w"
  proof (cases "length (podsInVolumeGetter resizeMap uvn) = 0")
    case True
    then show ?thesis by (simp add: MarkForFileSystemResize_def heapKept_refl)
  next
    case False
    obtain w1 r1 where l: "MarkForFileSystemResize_lookup pfx resizeMap vsn uvn
        (set (volumeMountedNodesGetter resizeMap uvn)) (podsInVolumeGetter resizeMap uvn)
        (w, [], {}) = (w1, r1)"
      by (cases "MarkForFileSystemResize_lookup pfx resizeMap vsn uvn
        (set (volumeMountedNodesGetter resizeMap uvn)) (podsInVolumeGetter resizeMap uvn)
        (w, [], {})")
    from lookup_frame [OF l] have k1: "heapKept (podHeap w) (podHeap w1)"
      and e1: "w1 = w\<lparr>podHeap := podHeap w1\<rparr>" by simp_all
    have o1: "pvHeap w1 = pvHeap w" "pvcHeap w1 = pvcHeap w"
      using arg_cong [OF e1, of pvHeap] arg_cong [OF e1, of pvcHeap] by simp_all
    show ?thesis
    proof (cases r1)
      case (Inl e)
      with False l k1 o1 show ?thesis by (simp add: MarkForFileSystemResize_def)
    next
      case (Inr r)
      obtain podObjs marked where r: "r = (podObjs, marked)" by (cases r)
      obtain w2 r2 where mk: "MarkForFileSystemResize_mark pfx resizeMap vsn podObjs (w1, marked)
          = (w2, r2)"
        by (cases "MarkForFileSystemResize_mark pfx resizeMap vsn podObjs (w1, marked)")
      from l Inr r have l': "MarkForFileSystemResize_lookup pfx resizeMap vsn uvn
        (set (volumeMountedNodesGetter resizeMap uvn)) (podsInVolumeGetter resizeMap uvn)
        (w, [], {}) = (w1, Inr (podObjs, marked))" by simp
      have fresh: "list_all (\<lambda>p. case p of None \<Rightarrow> False | Some a \<Rightarrow> length (podHeap w) \<le> a)
          podObjs"
        by (rule lookup_fresh [OF l']) simp_all
      from mark_frame [OF mk fresh] k1 o1
      have "heapKept (podHeap w) (podHeap w2)" "pvHeap w2 = pvHeap w" "pvcHeap w2 = pvcHeap w"
        by (simp_all add: heapKept_def)
      with False l' mk show ?thesis by (simp add: MarkForFileSystemResize_def)
    qed
  qed
  from UpdatePVSize_frame [of w marshalErr createPatchErr resizeMap pvcr newSize]
    updatePVCCapacityAndConditions_frame [of w resizeMap pvcr newSize "[]"] m
  show ?thesis by (simp add: MarkAsResized_fst)
qed


text \<open>
  C8. In \<open>MarkForFileSystemResize\<close> the lookup loop sends no update and changes no
  stored pod, whatever its outcome; so when the lister fails for one of the pods that use
  the volume, the call returns an error, no update request has been sent and the stored
  pods are as before.
\<close>

theorem lookup_error_leaves_pods_unmarked:
  assumes "p \<in> set (podsInVolumeGetter resizeMap uvn)"
    and "deref (podHeap w) p = Inr pv"
    and "podLister resizeMap (podNamespace pv) (podName pv) = Inl err"
  shows "snd (MarkForFileSystemResize pfx resizeMap vsn uvn w) \<noteq> None
     \<and> apiPods (fst (MarkForFileSystemResize pfx resizeMap vsn uvn w)) = apiPods w
     \<and> podUpdates (fst (MarkForFileSystemResize pfx resizeMap vsn uvn w)) = podUpdates w
     \<and> apiPods (fst (MarkForFileSystemResize_lookup pfx resizeMap vsn uvn mounted pods
          (w, podObjs, marked))) = apiPods w
     \<and> podUpdates (fst (MarkForFileSystemResize_lookup pfx resizeMap vsn uvn mounted pods
          (w, podObjs, marked))) = podUpdates w"
proof -
  have frame: "apiPods w1 = apiPods w \<and> podUpdates w1 = podUpdates w"
    if "MarkForFileSystemResize_lookup pfx resizeMap vsn uvn m ps (w, os, mk) = (w1, r1)"
    for m ps os mk w1 r1
  proof -
    from lookup_frame [OF that] have e: "w1 = w\<lparr>podHeap := podHeap w1\<rparr>" by simp
    show ?thesis using arg_cong [OF e, of apiPods] arg_cong [OF e, of podUpdates] by simp
  qed
  obtain w1 r1 where l: "MarkForFileSystemResize_lookup pfx resizeMap vsn uvn
        (set (volumeMountedNodesGetter resizeMap uvn)) (podsInVolumeGetter resizeMap uvn)
        (w, [], {}) = (w1, r1)"
    by (cases "MarkForFileSystemResize_lookup pfx resizeMap vsn uvn
        (set (volumeMountedNodesGetter resizeMap uvn)) (podsInVolumeGetter resizeMap uvn)
        (w, [], {})")
  from lookup_fails [OF assms, of pfx vsn uvn "set (volumeMountedNodesGetter resizeMap uvn)" "[]" "{}"] l
  obtain e where e: "r1 = Inl e" by auto
  from assms(1) have ne: "length (podsInVolumeGetter resizeMap uvn) \<noteq> 0" by auto
  have top: "MarkForFileSystemResize pfx resizeMap vsn uvn w = (w1, Some e)"
    using ne l e by (simp add: MarkForFileSystemResize_def)
  obtain w2 r2 where l2: "MarkForFileSystemResize_lookup pfx resizeMap vsn uvn mounted pods
          (w, podObjs, marked) = (w2, r2)"
    by (cases "MarkForFileSystemResize_lookup pfx resizeMap vsn uvn mounted pods
          (w, podObjs, marked)")
  from frame [OF l] frame [OF l2] top l2 show ?thesis by simp
qed

theorem lookup_error_leaves_pods_unmarked_witness:
  "Some 1 \<in> set (podsInVolumeGetter
       (example_resizeMap (\<lambda>ns name. if name = ''pod-x'' then Inr (Some 0) else Inl (Error ''not found''))
          [Some 0, Some 1]) ''vol'')
   \<and> deref (podHeap (example_world [example_pod ''pod-x'' ''uid-x'' ''n1'' None,
                                      example_pod ''pod-y'' ''uid-y'' ''n1'' None])) (Some 1)
       = Inr (example_pod ''pod-y'' ''uid-y'' ''n1'' None)
   \<and> podLister (example_resizeMap (\<lambda>ns name. if name = ''pod-x'' then Inr (Some 0) else Inl (Error ''not found''))
          [Some 0, Some 1]) (podNamespace (example_pod ''pod-y'' ''uid-y'' ''n1'' None))
          (podName (example_pod ''pod-y'' ''uid-y'' ''n1'' None)) = Inl (Error ''not found'')
   \<and> snd (MarkForFileSystemResize ''resize.''
       (example_resizeMap (\<lambda>ns name. if name = ''pod-x'' then Inr (Some 0) else Inl (Error ''not found''))
          [Some 0, Some 1]) ''data'' ''vol''
       (example_world [example_pod ''pod-x'' ''uid-x'' ''n1'' None,
                       example_pod ''pod-y'' ''uid-y'' ''n1'' None])) \<noteq> None
   \<and> podUpdates (fst (MarkForFileSystemResize ''resize.''
       (example_resizeMap (\<lambda>ns name. if name = ''pod-x'' then Inr (Some 0) else Inl (Error ''not found''))
          [Some 0, Some 1]) ''data'' ''vol''
       (example_world [example_pod ''pod-x'' ''uid-x'' ''n1'' None,
                       example_pod ''pod-y'' ''uid-y'' ''n1'' None]))) = []"
proof -
  let ?rm = "example_resizeMap
    (\<lambda>ns name. if name = ''pod-x'' then Inr (Some 0) else Inl (Error ''not found''))
    [Some 0, Some 1]"
  let ?w = "example_world [example_pod ''pod-x'' ''uid-x'' ''n1'' None,
                           example_pod ''pod-y'' ''uid-y'' ''n1'' None]"
  have h1: "Some 1 \<in> set (podsInVolumeGetter ?rm ''vol'')"
    by (simp add: example_resizeMap_def NewVolumeResizeMap_def)
  have h2: "deref (podHeap ?w) (Some 1) = Inr (example_pod ''pod-y'' ''uid-y'' ''n1'' None)"
    by (simp add: example_world_def deref_def)
  have h3: "podLister ?rm (podNamespace (example_pod ''pod-y'' ''uid-y'' ''n1'' None))
          (podName (example_pod ''pod-y'' ''uid-y'' ''n1'' None)) = Inl (Error ''not found'')"
    by (simp add: example_resizeMap_def NewVolumeResizeMap_def example_pod_def)
  have u: "podUpdates ?w = []" by (simp add: example_world_def)
  from lookup_error_leaves_pods_unmarked [OF h1 h2 h3, of "''resize.''" "''data''"] h1 h2 h3 u
  show ?thesis by simp
qed

section \<open>Clearing the annotation on the node\<close>

lemma annotationGet_delete:
  "annotationGet (map_option (AList.delete key) anns) k
     = (if k = key then None else annotationGet anns k)"
  by (cases anns) (simp_all add: annotationGet_def delete_conv')

lemma MarkAsFileSystemResized_no_pod:
  "deref (podHeap w) podPtr = Inl e
     \<Longrightarrow> fst (MarkAsFileSystemResized pfx resizeMap podPtr volumeName w) = w"
  by (simp add: MarkAsFileSystemResized_def)

lemma MarkAsFileSystemResized_get_fails:
  "deref (podHeap w) podPtr = Inr p
     \<Longrightarrow> PodsGet (fsKubeClient resizeMap) (podNamespace p) (podName p) w = Inl e
     \<Longrightarrow> fst (MarkAsFileSystemResized pfx resizeMap podPtr volumeName w) = w"
  by (simp add: MarkAsFileSystemResized_def)

lemma MarkAsFileSystemResized_cleared:
  "deref (podHeap w) podPtr = Inr p
     \<Longrightarrow> PodsGet (fsKubeClient resizeMap) (podNamespace p) (podName p) w = Inr podObj
     \<Longrightarrow> annotationGet (podAnnotations podObj) (GetVolumeFsResizeAnnotation pfx volumeName) = None
     \<Longrightarrow> MarkAsFileSystemResized pfx resizeMap podPtr volumeName w = (w, None)"
  by (simp add: MarkAsFileSystemResized_def)

text \<open>
  C9. \<open>MarkAsFileSystemResized\<close> with a nil pod returns nil and does nothing. With a
  pod, once the pod has been fetched again: if the fetched pod no longer has the
  annotation of the volume, the call returns nil and sends no update; otherwise it sends
  one update, of the fetched pod with that annotation key removed and every other
  annotation kept. An update is sent only in that last case.
\<close>

theorem MarkAsFileSystemResized_clears_only_a_present_annotation:
  "MarkAsFileSystemResized pfx resizeMap None volumeName w = (w, None)
   \<and> (\<forall>p podObj. deref (podHeap w) podPtr = Inr p
          \<and> PodsGet (fsKubeClient resizeMap) (podNamespace p) (podName p) w = Inr podObj
        \<longrightarrow> (if annotationGet (podAnnotations podObj)
                    (GetVolumeFsResizeAnnotation pfx volumeName) = None
             then MarkAsFileSystemResized pfx resizeMap podPtr volumeName w = (w, None)
             else (\<exists>q. podUpdates (fst (MarkAsFileSystemResized pfx resizeMap podPtr volumeName w))
                        = podUpdates w @ [q]
                    \<and> q = podObj\<lparr>podAnnotations := podAnnotations q\<rparr>
                    \<and> (\<forall>k. annotationGet (podAnnotations q) k
                          = (if k = GetVolumeFsResizeAnnotation pfx volumeName then None
                             else annotationGet (podAnnotations podObj) k)))))
   \<and> (podUpdates (fst (MarkAsFileSystemResized pfx resizeMap podPtr volumeName w)) \<noteq> podUpdates w
        \<longrightarrow> (\<exists>p podObj. deref (podHeap w) podPtr = Inr p
              \<and> PodsGet (fsKubeClient resizeMap) (podNamespace p) (podName p) w = Inr podObj
              \<and> annotationGet (podAnnotations podObj)
                    (GetVolumeFsResizeAnnotation pfx volumeName) \<noteq> None))"
proof (intro conjI allI impI)
  show "MarkAsFileSystemResized pfx resizeMap None volumeName w = (w, None)"
    by (simp add: MarkAsFileSystemResized_def)
next
  fix p podObj
  assume a: "deref (podHeap w) podPtr = Inr p
     \<and> PodsGet (fsKubeClient resizeMap) (podNamespace p) (podName p) w = Inr podObj"
  then have a1: "deref (podHeap w) podPtr = Inr p"
    and a2: "PodsGet (fsKubeClient resizeMap) (podNamespace p) (podName p) w = Inr podObj"
    by simp_all
  from a1 obtain ad where ne: "podPtr = Some ad" by (cases podPtr) (auto simp: deref_def)
  let ?key = "GetVolumeFsResizeAnnotation pfx volumeName"
  let ?q = "podObj\<lparr>podAnnotations := map_option (AList.delete ?key) (podAnnotations podObj)\<rparr>"
  show "if annotationGet (podAnnotations podObj) ?key = None
        then MarkAsFileSystemResized pfx resizeMap podPtr volumeName w = (w, None)
        else (\<exists>q. podUpdates (fst (MarkAsFileSystemResized pfx resizeMap podPtr volumeName w))
                        = podUpdates w @ [q]
                    \<and> q = podObj\<lparr>podAnnotations := podAnnotations q\<rparr>
                    \<and> (\<forall>k. annotationGet (podAnnotations q) k
                          = (if k = ?key then None else annotationGet (podAnnotations podObj) k)))"
  proof (cases "annotationGet (podAnnotations podObj) ?key = None")
    case True
    from MarkAsFileSystemResized_cleared [OF a1 a2 True] True show ?thesis by simp
  next
    case False
    then obtain v where v: "annotationGet (podAnnotations podObj) ?key = Some v" by auto
    obtain w1 r1 where u: "PodsUpdate (fsKubeClient resizeMap) (podNamespace ?q) ?q w = (w1, r1)"
      by (cases "PodsUpdate (fsKubeClient resizeMap) (podNamespace ?q) ?q w")
    from PodsUpdate_frame [OF u] have l: "podUpdates w1 = podUpdates w @ [?q]" by simp
    from a1 a2 v u have "fst (MarkAsFileSystemResized pfx resizeMap podPtr volumeName w) = w1"
      by (cases r1) (simp_all add: MarkAsFileSystemResized_def Let_def ne)
    with l have c1: "podUpdates (fst (MarkAsFileSystemResized pfx resizeMap podPtr volumeName w))
        = podUpdates w @ [?q]" by simp
    have c2: "?q = podObj\<lparr>podAnnotations := podAnnotations ?q\<rparr>" by simp
    have c3: "\<forall>k. annotationGet (podAnnotations ?q) k
        = (if k = ?key then None else annotationGet (podAnnotations podObj) k)"
      by (simp add: annotationGet_delete)
    show ?thesis
      unfolding if_not_P [OF False]
      by (rule exI [of _ ?q]) (intro conjI c1 c2 c3)
  qed
next
  let ?key = "GetVolumeFsResizeAnnotation pfx volumeName"
  assume ch: "podUpdates (fst (MarkAsFileSystemResized pfx resizeMap podPtr volumeName w))
      \<noteq> podUpdates w"
  show "\<exists>p podObj. deref (podHeap w) podPtr = Inr p
              \<and> PodsGet (fsKubeClient resizeMap) (podNamespace p) (podName p) w = Inr podObj
              \<and> annotationGet (podAnnotations podObj) ?key \<noteq> None"
  proof (cases "deref (podHeap w) podPtr")
    case (Inl e)
    from MarkAsFileSystemResized_no_pod [OF Inl] ch show ?thesis by simp
  next
    case p: (Inr p)
    show ?thesis
    proof (cases "PodsGet (fsKubeClient resizeMap) (podNamespace p) (podName p) w")
      case (Inl e)
      from MarkAsFileSystemResized_get_fails [OF p Inl] ch show ?thesis by simp
    next
      case g: (Inr podObj)
      have "annotationGet (podAnnotations podObj) ?key \<noteq> None"
      proof
        assume "annotationGet (podAnnotations podObj) ?key = None"
        from MarkAsFileSystemResized_cleared [OF p g this] ch show False by simp
      qed
      with p g show ?thesis by simp
    qed
  qed
qed


theorem MarkAsFileSystemResized_clears_only_a_present_annotation_witness:
  "deref (podHeap (example_world
       [example_pod ''pod-x'' ''uid-x'' ''n1'' (Some [(''resize.data'', ''yes''), (''team'', ''a'')])]))
     (Some 0)
     = Inr (example_pod ''pod-x'' ''uid-x'' ''n1'' (Some [(''resize.data'', ''yes''), (''team'', ''a'')]))
   \<and> PodsGet (fsKubeClient (NewVolumeFsResizeMap example_client)) ''default'' ''pod-x''
       (example_world
         [example_pod ''pod-x'' ''uid-x'' ''n1'' (Some [(''resize.data'', ''yes''), (''team'', ''a'')])])
     = Inr (example_pod ''pod-x'' ''uid-x'' ''n1'' (Some [(''resize.data'', ''yes''), (''team'', ''a'')]))
   \<and> (\<exists>q. podUpdates (fst (MarkAsFileSystemResized ''resize.''
               (NewVolumeFsResizeMap example_client) (Some 0) ''data''
               (example_world [example_pod ''pod-x'' ''uid-x'' ''n1''
                  (Some [(''resize.data'', ''yes''), (''team'', ''a'')])]))) = [q]
          \<and> annotationGet (podAnnotations q) ''resize.data'' = None
          \<and> annotationGet (podAnnotations q) ''team'' = Some ''a'')"
proof -
  let ?px = "example_pod ''pod-x'' ''uid-x'' ''n1'' (Some [(''resize.data'', ''yes''), (''team'', ''a'')])"
  let ?w = "example_world [?px]"
  let ?fm = "NewVolumeFsResizeMap example_client"
  have h1: "deref (podHeap ?w) (Some 0) = Inr ?px"
    by (simp add: example_world_def deref_def)
  have g: "PodsGet (fsKubeClient ?fm) ''default'' ''pod-x'' ?w = Inr ?px"
    by (simp add: PodsGet_def NewVolumeFsResizeMap_def example_client_def example_world_def
        example_pod_def)
  have n: "podNamespace ?px = ''default''" "podName ?px = ''pod-x''"
    by (simp_all add: example_pod_def)
  have h2: "PodsGet (fsKubeClient ?fm) (podNamespace ?px) (podName ?px) ?w = Inr ?px"
    unfolding n by (rule g)
  have k: "GetVolumeFsResizeAnnotation ''resize.'' ''data'' = ''resize.data''"
    by (simp add: GetVolumeFsResizeAnnotation_def)
  have h3: "annotationGet (podAnnotations ?px) (GetVolumeFsResizeAnnotation ''resize.'' ''data'')
      \<noteq> None"
    by (simp add: k annotationGet_def example_pod_def)
  note t = MarkAsFileSystemResized_clears_only_a_present_annotation
             [of "''resize.''" ?fm "''data''" ?w "Some 0"]
  note b = t [THEN conjunct2, THEN conjunct1, rule_format, OF conjI, OF h1 h2]
  from b [unfolded if_not_P [OF h3]] obtain q where
    q1: "podUpdates (fst (MarkAsFileSystemResized ''resize.'' ?fm (Some 0) ''data'' ?w))
           = podUpdates ?w @ [q]"
    and q3: "\<forall>k. annotationGet (podAnnotations q) k
          = (if k = GetVolumeFsResizeAnnotation ''resize.'' ''data'' then None
             else annotationGet (podAnnotations ?px) k)"
    by (elim exE conjE)
  have u: "podUpdates ?w = []" by (simp add: example_world_def)
  from q3 have a1: "annotationGet (podAnnotations q) ''resize.data'' = None"
    by (simp add: k)
  from q3 have a2: "annotationGet (podAnnotations q) ''team'' = Some ''a''"
    by (simp add: k annotationGet_def example_pod_def)
  from q1 u a1 a2 have "\<exists>q. podUpdates (fst (MarkAsFileSystemResized ''resize.'' ?fm (Some 0)
        ''data'' ?w)) = [q]
      \<and> annotationGet (podAnnotations q) ''resize.data'' = None
      \<and> annotationGet (podAnnotations q) ''team'' = Some ''a''"
    by (intro exI [of _ q]) simp
  with h1 g show ?thesis by (intro conjI)
qed

section \<open>The annotation key and its value\<close>

lemma annotation_key_decoded:
  "IsVolumeFsResizeAnnotation pfx key \<Longrightarrow>
   GetVolumeFsResizeAnnotation pfx (GetVolumeUniqueNameFromFsResizeAnnotation pfx key) = key"
proof -
  assume "IsVolumeFsResizeAnnotation pfx key"
  then have "take (length pfx) key = pfx" by (simp add: IsVolumeFsResizeAnnotation_def)
  then have "pfx @ drop (length pfx) key = take (length pfx) key @ drop (length pfx) key"
    by simp
  then show ?thesis
    by (simp add: GetVolumeFsResizeAnnotation_def GetVolumeUniqueNameFromFsResizeAnnotation_def)
qed

text \<open>
  C4. The key codec is an inverse pair: decoding the key made for a volume name gives the
  name back and recognises the key; a key that is not the key of any name is not
  recognised. The signal is pending only for the value \<open>yes\<close>: the controller takes a
  pod as marked exactly when the annotation is present with that value, and the populator
  enqueues nothing for an annotation with another value or with a key it does not
  recognise.
\<close>

theorem handshake_codec_round_trip:
  "GetVolumeUniqueNameFromFsResizeAnnotation pfx (GetVolumeFsResizeAnnotation pfx volumeName)
     = volumeName
   \<and> IsVolumeFsResizeAnnotation pfx (GetVolumeFsResizeAnnotation pfx volumeName)
   \<and> ((\<forall>name. key \<noteq> GetVolumeFsResizeAnnotation pfx name)
        \<longrightarrow> \<not> IsVolumeFsResizeAnnotation pfx key)
   \<and> podHasMarkedForPVCResizing pfx p volumeName
       = (annotationGet (podAnnotations p) (GetVolumeFsResizeAnnotation pfx volumeName)
            = Some ''yes'')
   \<and> (val \<noteq> ''yes'' \<or> \<not> IsVolumeFsResizeAnnotation pfx key
        \<longrightarrow> processPodVolumes_range pfx podPtr [(key, val)] (w, resizeMap) = (w, Inr resizeMap))"
proof (intro conjI impI)
  show "GetVolumeUniqueNameFromFsResizeAnnotation pfx (GetVolumeFsResizeAnnotation pfx volumeName)
     = volumeName"
    by (simp add: GetVolumeFsResizeAnnotation_def GetVolumeUniqueNameFromFsResizeAnnotation_def)
  show "IsVolumeFsResizeAnnotation pfx (GetVolumeFsResizeAnnotation pfx volumeName)"
    by (simp add: GetVolumeFsResizeAnnotation_def IsVolumeFsResizeAnnotation_def)
  show "\<not> IsVolumeFsResizeAnnotation pfx key"
    if "\<forall>name. key \<noteq> GetVolumeFsResizeAnnotation pfx name"
  proof
    assume "IsVolumeFsResizeAnnotation pfx key"
    from annotation_key_decoded [OF this] that [rule_format,
        of "GetVolumeUniqueNameFromFsResizeAnnotation pfx key"]
    show False by simp
  qed
  show "podHasMarkedForPVCResizing pfx p volumeName
       = (annotationGet (podAnnotations p) (GetVolumeFsResizeAnnotation pfx volumeName)
            = Some ''yes'')"
    by (simp add: podHasMarkedForPVCResizing_def split: option.splits)
  show "processPodVolumes_range pfx podPtr [(key, val)] (w, resizeMap) = (w, Inr resizeMap)"
    if "val \<noteq> ''yes'' \<or> \<not> IsVolumeFsResizeAnnotation pfx key"
    using that by auto
qed

theorem handshake_codec_round_trip_witness:
  "(\<forall>name. ''team'' \<noteq> GetVolumeFsResizeAnnotation ''resize.'' name)
   \<and> \<not> IsVolumeFsResizeAnnotation ''resize.'' ''team''
   \<and> GetVolumeUniqueNameFromFsResizeAnnotation ''resize.''
        (GetVolumeFsResizeAnnotation ''resize.'' ''pv-a'') = ''pv-a''
   \<and> ''true'' \<noteq> ''yes''
   \<and> processPodVolumes_range ''resize.'' (Some 0) [(''resize.pv-a'', ''true'')]
        (example_world [], example_fsResizeMap) = (example_world [], Inr example_fsResizeMap)"
proof -
  have h1: "\<forall>name. ''team'' \<noteq> GetVolumeFsResizeAnnotation ''resize.'' name"
    by (simp add: GetVolumeFsResizeAnnotation_def)
  have h2: "''true'' \<noteq> ''yes'' \<or> \<not> IsVolumeFsResizeAnnotation ''resize.'' ''resize.pv-a''"
    by simp
  note t1 = handshake_codec_round_trip [of "''resize.''" "''pv-a''" "''team''"]
  note t2 = handshake_codec_round_trip [of "''resize.''" "''pv-a''" "''resize.pv-a''" _
              "''true''" "Some 0" "example_world []" example_fsResizeMap]
  from t1 have a: "GetVolumeUniqueNameFromFsResizeAnnotation ''resize.''
        (GetVolumeFsResizeAnnotation ''resize.'' ''pv-a'') = ''pv-a''" by (rule conjunct1)
  from t1 [THEN conjunct2, THEN conjunct2, THEN conjunct1, THEN mp, OF h1]
  have b: "\<not> IsVolumeFsResizeAnnotation ''resize.'' ''team''" .
  from t2 [THEN conjunct2, THEN conjunct2, THEN conjunct2, THEN conjunct2, THEN mp, OF h2]
  have c: "processPodVolumes_range ''resize.'' (Some 0) [(''resize.pv-a'', ''true'')]
        (example_world [], example_fsResizeMap) = (example_world [], Inr example_fsResizeMap)" .
  have d: "''true'' \<noteq> ''yes''" by simp
  from h1 b a d c show ?thesis by (intro conjI)
qed

section \<open>Which pods \<open>MarkForFileSystemResize\<close> marks\<close>

lemma lookup_selectPods:
  "map (listedPod resizeMap w) pods = map Some objs \<Longrightarrow>
   MarkForFileSystemResize_lookup pfx resizeMap vsn uvn mounted pods (w, podObjs, marked)
     = (w\<lparr>podHeap := podHeap w @ objs\<rparr>,
        Inr (selectPods pfx vsn mounted objs (length (podHeap w)) (podObjs, marked)))"
proof (induction pods arbitrary: w objs podObjs marked)
  case Nil
  then show ?case by simp
next
  case (Cons p pods)
  from Cons.prems obtain obj rest where objs: "objs = obj # rest"
    and head: "listedPod resizeMap w p = Some obj"
    and tail: "map (listedPod resizeMap w) pods = map Some rest"
    by (cases objs) auto
  let ?w1 = "w\<lparr>podHeap := podHeap w @ [obj]\<rparr>"
  have k: "heapKept (podHeap w) (podHeap ?w1)" by (simp add: heapKept_append)
  have "map (listedPod resizeMap ?w1) pods = map Some rest"
  proof (rule nth_equalityI)
    show "length (map (listedPod resizeMap ?w1) pods) = length (map Some rest)"
      using arg_cong [OF tail, of length] by simp
  next
    fix i assume "i < length (map (listedPod resizeMap ?w1) pods)"
    then have i: "i < length pods" by simp
    with arg_cong [OF tail, of length] have i': "i < length rest" by simp
    from arg_cong [OF tail, of "\<lambda>xs. xs ! i"] i i'
    have "listedPod resizeMap w (pods ! i) = Some (rest ! i)" by simp
    from listedPod_kept [OF k this] i i'
    show "map (listedPod resizeMap ?w1) pods ! i = map Some rest ! i" by simp
  qed
  from Cons.IH [OF this, of "if eligible mounted obj \<and> podNodeName obj \<notin> marked
           \<and> \<not> podHasMarkedForPVCResizing pfx obj vsn
        then podObjs @ [Some (length (podHeap w))] else podObjs"
      "if eligible mounted obj \<and> podNodeName obj \<notin> marked
           \<and> podHasMarkedForPVCResizing pfx obj vsn
        then insert (podNodeName obj) marked else marked"]
  show ?case
    unfolding lookup_step [OF head] objs
    by (simp add: eligible_def)
qed

lemma selectPods_marked:
  "snd (selectPods pfx vsn mounted objs a (podObjs, marked))
     = marked \<union> {podNodeName obj | obj. obj \<in> set objs \<and> eligible mounted obj
                     \<and> podHasMarkedForPVCResizing pfx obj vsn}"
proof (induction objs arbitrary: a podObjs marked)
  case Nil
  then show ?case by simp
next
  case (Cons obj objs)
  show ?case
    unfolding selectPods.simps Cons.IH by auto
qed

lemma selectPods_selected:
  "\<exists>new. fst (selectPods pfx vsn mounted objs a (podObjs, marked)) = podObjs @ new
     \<and> distinct new
     \<and> (\<forall>p \<in> set new. \<exists>i < length objs. p = Some (a + i) \<and> eligible mounted (objs ! i)
            \<and> \<not> podHasMarkedForPVCResizing pfx (objs ! i) vsn)"
proof (induction objs arbitrary: a podObjs marked)
  case Nil
  then show ?case by simp
next
  case (Cons obj objs)
  let ?sel = "eligible mounted obj \<and> podNodeName obj \<notin> marked
           \<and> \<not> podHasMarkedForPVCResizing pfx obj vsn"
  let ?objs1 = "if ?sel then podObjs @ [Some a] else podObjs"
  let ?marked1 = "if eligible mounted obj \<and> podNodeName obj \<notin> marked
           \<and> podHasMarkedForPVCResizing pfx obj vsn
        then insert (podNodeName obj) marked else marked"
  from Cons.IH [of "Suc a" ?objs1 ?marked1] obtain new where
    n1: "fst (selectPods pfx vsn mounted objs (Suc a) (?objs1, ?marked1)) = ?objs1 @ new"
    and n2: "distinct new"
    and n3: "\<forall>p \<in> set new. \<exists>i < length objs. p = Some (Suc a + i)
          \<and> eligible mounted (objs ! i) \<and> \<not> podHasMarkedForPVCResizing pfx (objs ! i) vsn"
    by blast
  have shift: "\<exists>i < length (obj # objs). p = Some (a + i) \<and> eligible mounted ((obj # objs) ! i)
            \<and> \<not> podHasMarkedForPVCResizing pfx ((obj # objs) ! i) vsn" if "p \<in> set new" for p
  proof -
    from n3 that obtain i where "i < length objs" "p = Some (Suc a + i)"
      "eligible mounted (objs ! i)" "\<not> podHasMarkedForPVCResizing pfx (objs ! i) vsn" by blast
    then show ?thesis by (intro exI [of _ "Suc i"]) simp
  qed
  have notin: "Some a \<notin> set new"
  proof
    assume "Some a \<in> set new"
    with n3 obtain i where "Some a = Some (Suc a + i)" by blast
    then show False by simp
  qed
  show ?case
  proof (cases ?sel)
    case True
    have "\<exists>i < length (obj # objs). Some a = Some (a + i) \<and> eligible mounted ((obj # objs) ! i)
            \<and> \<not> podHasMarkedForPVCResizing pfx ((obj # objs) ! i) vsn"
      using True by (intro exI [of _ 0]) simp
    with True n1 n2 notin shift show ?thesis
      by (intro exI [of _ "Some a # new"]) auto
  next
    case False
    with n1 n2 shift show ?thesis
      by (intro exI [of _ new]) auto
  qed
qed

lemma selectPods_covers:
  assumes "obj \<in> set objs" and "eligible mounted obj"
  shows "podNodeName obj \<in> snd (selectPods pfx vsn mounted objs a (podObjs, marked))
     \<or> (\<exists>i < length objs. Some (a + i) \<in> set (fst (selectPods pfx vsn mounted objs a (podObjs, marked)))
           \<and> podNodeName (objs ! i) = podNodeName obj)"
  using assms
proof (induction objs arbitrary: a podObjs marked)
  case Nil
  then show ?case by simp
next
  case (Cons x objs)
  let ?objs1 = "if eligible mounted x \<and> podNodeName x \<notin> marked
           \<and> \<not> podHasMarkedForPVCResizing pfx x vsn then podObjs @ [Some a] else podObjs"
  let ?marked1 = "if eligible mounted x \<and> podNodeName x \<notin> marked
           \<and> podHasMarkedForPVCResizing pfx x vsn
        then insert (podNodeName x) marked else marked"
  let ?r = "selectPods pfx vsn mounted objs (Suc a) (?objs1, ?marked1)"
  have r: "selectPods pfx vsn mounted (x # objs) a (podObjs, marked) = ?r" by simp
  from selectPods_selected [of pfx vsn mounted objs "Suc a" ?objs1 ?marked1]
  obtain new where new: "fst ?r = ?objs1 @ new" by blast
  have mono: "?marked1 \<subseteq> snd ?r" unfolding selectPods_marked by blast
  show ?case
  proof (cases "obj = x")
    case True
    show ?thesis
    proof (cases "podNodeName x \<in> ?marked1")
      case True
      with mono \<open>obj = x\<close> show ?thesis unfolding r by blast
    next
      case False
      with Cons.prems(2) \<open>obj = x\<close> have "?objs1 = podObjs @ [Some a]"
        by (auto split: if_splits)
      with new have "Some (a + 0) \<in> set (fst ?r)" by simp
      with \<open>obj = x\<close> show ?thesis unfolding r by (intro disjI2 exI [of _ 0]) simp
    qed
  next
    case False
    with Cons.prems(1) have "obj \<in> set objs" by simp
    from Cons.IH [OF this Cons.prems(2), of "Suc a" ?objs1 ?marked1]
    show ?thesis
    proof
      assume "podNodeName obj \<in> snd ?r"
      then show ?thesis unfolding r by blast
    next
      assume "\<exists>i<length objs. Some (Suc a + i) \<in> set (fst ?r)
          \<and> podNodeName (objs ! i) = podNodeName obj"
      then obtain i where "i < length objs" "Some (Suc a + i) \<in> set (fst ?r)"
        "podNodeName (objs ! i) = podNodeName obj" by blast
      then show ?thesis unfolding r by (intro disjI2 exI [of _ "Suc i"]) simp
    qed
  qed
qed

lemma updatePodAnnotation_eval:
  "deref (podHeap w) (Some a) = Inr obj \<Longrightarrow>
   updatePodAnnotationForPVCResizing pfx resizeMap (Some a) vsn w
     = PodsUpdate (kubeClient resizeMap) (podNamespace obj) (markedCopy pfx vsn obj)
         (w\<lparr>podHeap := (podHeap w)[a := markedCopy pfx vsn obj]\<rparr>)"
  by (simp add: updatePodAnnotationForPVCResizing_def markedCopy_def annotationRange_def
      store_def Let_def)

lemma markedCopy_node: "podNodeName (markedCopy pfx vsn obj) = podNodeName obj"
  by (simp add: markedCopy_def)

lemma mark_updates:
  assumes "MarkForFileSystemResize_mark pfx resizeMap vsn podObjs (w, marked) = (w', res)"
    and "distinct podObjs"
    and "\<forall>p \<in> set podObjs. \<exists>a. p = Some a \<and> a < length (podHeap w)"
  shows "\<exists>ups. podUpdates w' = podUpdates w @ ups
     \<and> distinct (map podNodeName ups)
     \<and> (\<forall>q \<in> set ups. podNodeName q \<notin> marked
           \<and> (\<exists>a. Some a \<in> set podObjs \<and> q = markedCopy pfx vsn (podHeap w ! a)))
     \<and> (res = None \<longrightarrow> (\<forall>a. Some a \<in> set podObjs
           \<longrightarrow> podNodeName (podHeap w ! a) \<in> marked \<union> podNodeName ` set ups))"
  using assms
proof (induction podObjs arbitrary: w marked)
  case Nil
  then show ?case by simp
next
  case (Cons p podObjs)
  from Cons.prems(3) obtain a where p: "p = Some a" and a: "a < length (podHeap w)" by auto
  let ?obj = "podHeap w ! a"
  have d: "deref (podHeap w) p = Inr ?obj" using p a by (simp add: deref_def)
  from Cons.prems(2) have dist: "distinct podObjs" and pn: "p \<notin> set podObjs" by simp_all
  from Cons.prems(3) have valid: "\<forall>p \<in> set podObjs. \<exists>a. p = Some a \<and> a < length (podHeap w)"
    by simp
  show ?case
  proof (cases "podNodeName ?obj \<in> marked")
    case True
    with Cons.prems(1) d have
      "MarkForFileSystemResize_mark pfx resizeMap vsn podObjs (w, marked) = (w', res)" by simp
    from Cons.IH [OF this dist valid] obtain ups where
      u: "podUpdates w' = podUpdates w @ ups" "distinct (map podNodeName ups)"
      "\<forall>q \<in> set ups. podNodeName q \<notin> marked
           \<and> (\<exists>a. Some a \<in> set podObjs \<and> q = markedCopy pfx vsn (podHeap w ! a))"
      "res = None \<longrightarrow> (\<forall>a. Some a \<in> set podObjs
           \<longrightarrow> podNodeName (podHeap w ! a) \<in> marked \<union> podNodeName ` set ups)"
      by blast
    show ?thesis
    proof (intro exI [of _ ups] conjI)
      show "podUpdates w' = podUpdates w @ ups" by (rule u(1))
      show "distinct (map podNodeName ups)" by (rule u(2))
      show "\<forall>q \<in> set ups. podNodeName q \<notin> marked
           \<and> (\<exists>a. Some a \<in> set (p # podObjs) \<and> q = markedCopy pfx vsn (podHeap w ! a))"
        using u(3) by auto
      show "res = None \<longrightarrow> (\<forall>b. Some b \<in> set (p # podObjs)
           \<longrightarrow> podNodeName (podHeap w ! b) \<in> marked \<union> podNodeName ` set ups)"
        using u(4) True p by auto
    qed
  next
    case False
    let ?q = "markedCopy pfx vsn ?obj"
    let ?w0 = "w\<lparr>podHeap := (podHeap w)[a := ?q]\<rparr>"
    obtain w1 r1 where pu: "PodsUpdate (kubeClient resizeMap) (podNamespace ?obj) ?q ?w0 = (w1, r1)"
      by (cases "PodsUpdate (kubeClient resizeMap) (podNamespace ?obj) ?q ?w0")
    from d have upd: "updatePodAnnotationForPVCResizing pfx resizeMap p vsn w = (w1, r1)"
      unfolding p using updatePodAnnotation_eval [of w a ?obj pfx resizeMap vsn] pu by simp
    from PodsUpdate_frame [OF pu] have h1: "podHeap w1 = (podHeap w)[a := ?q]"
      and l1: "podUpdates w1 = podUpdates w @ [?q]" by simp_all
    show ?thesis
    proof (cases r1)
      case (Some e)
      with Cons.prems(1) d False upd have "w' = w1" "res = Some e" by simp_all
      with l1 False p show ?thesis
        by (intro exI [of _ "[?q]"]) (auto simp: markedCopy_node)
    next
      case None
      with Cons.prems(1) d False upd have rec:
        "MarkForFileSystemResize_mark pfx resizeMap vsn podObjs
           (w1, insert (podNodeName ?obj) marked) = (w', res)" by simp
      have valid1: "\<forall>p \<in> set podObjs. \<exists>a. p = Some a \<and> a < length (podHeap w1)"
        using valid h1 by simp
      have same: "podHeap w1 ! b = podHeap w ! b" if "Some b \<in> set podObjs" for b
      proof -
        from that pn p have "b \<noteq> a" by auto
        then show ?thesis by (simp add: h1)
      qed
      from Cons.IH [OF rec dist valid1] obtain ups where
        u1: "podUpdates w' = podUpdates w1 @ ups" and u2: "distinct (map podNodeName ups)"
        and u3: "\<forall>q \<in> set ups. podNodeName q \<notin> insert (podNodeName ?obj) marked
           \<and> (\<exists>a. Some a \<in> set podObjs \<and> q = markedCopy pfx vsn (podHeap w1 ! a))"
        and u4: "res = None \<longrightarrow> (\<forall>a. Some a \<in> set podObjs
           \<longrightarrow> podNodeName (podHeap w1 ! a)
                 \<in> insert (podNodeName ?obj) marked \<union> podNodeName ` set ups)"
        by blast
      show ?thesis
      proof (intro exI [of _ "?q # ups"] conjI)
        show "podUpdates w' = podUpdates w @ ?q # ups" using u1 l1 by simp
        show "distinct (map podNodeName (?q # ups))"
          using u2 u3 by (auto simp: markedCopy_node)
        show "\<forall>q \<in> set (?q # ups). podNodeName q \<notin> marked
           \<and> (\<exists>a. Some a \<in> set (p # podObjs) \<and> q = markedCopy pfx vsn (podHeap w ! a))"
        proof
          fix q assume "q \<in> set (?q # ups)"
          then consider "q = ?q" | "q \<in> set ups" by auto
          then show "podNodeName q \<notin> marked
             \<and> (\<exists>a. Some a \<in> set (p # podObjs) \<and> q = markedCopy pfx vsn (podHeap w ! a))"
          proof cases
            case 1
            with False p show ?thesis by (auto simp: markedCopy_node)
          next
            case 2
            with u3 obtain b where "podNodeName q \<notin> marked" "Some b \<in> set podObjs"
              "q = markedCopy pfx vsn (podHeap w1 ! b)" by auto
            with same [of b] show ?thesis by auto
          qed
        qed
        show "res = None \<longrightarrow> (\<forall>b. Some b \<in> set (p # podObjs)
           \<longrightarrow> podNodeName (podHeap w ! b) \<in> marked \<union> podNodeName ` set (?q # ups))"
        proof (intro impI allI)
          fix b assume rn: "res = None" and b: "Some b \<in> set (p # podObjs)"
          from b consider "b = a" | "Some b \<in> set podObjs" using p by auto
          then show "podNodeName (podHeap w ! b) \<in> marked \<union> podNodeName ` set (?q # ups)"
          proof cases
            case 1
            then show ?thesis by (simp add: markedCopy_node)
          next
            case 2
            with u4 rn have "podNodeName (podHeap w1 ! b)
                 \<in> insert (podNodeName ?obj) marked \<union> podNodeName ` set ups" by blast
            with same [OF 2] show ?thesis by (auto simp: markedCopy_node)
          qed
        qed
      qed
    qed
  qed
qed

lemma pointerValid_kept:
  assumes "heapKept h h'" and "pointerValid resizeMap h p"
  shows "pointerValid resizeMap h' p"
proof (cases p)
  case None
  then show ?thesis by (simp add: pointerValid_def)
next
  case (Some a)
  with assms(2) have a: "a < length h" by (simp add: pointerValid_def)
  from heapKept_nth [OF assms(1) a] have n: "h' ! a = h ! a" .
  from heapKept_length [OF assms(1)] have l: "length h \<le> length h'" .
  from assms(2) Some a l show ?thesis
    by (auto simp: pointerValid_def n split: sum.splits option.splits)
qed

lemma listedPod_None_kept:
  assumes "heapKept (podHeap w) (podHeap w')" and "pointerValid resizeMap (podHeap w) p"
    and "listedPod resizeMap w p = None"
  shows "listedPod resizeMap w' p = None"
proof (cases p)
  case None
  then show ?thesis by (simp add: listedPod_def deref_def)
next
  case (Some a)
  with assms(2) have a: "a < length (podHeap w)" by (simp add: pointerValid_def)
  from heapKept_nth [OF assms(1) a] have n: "podHeap w' ! a = podHeap w ! a" .
  from heapKept_length [OF assms(1)] have l: "length (podHeap w) \<le> length (podHeap w')" .
  from a l have a': "a < length (podHeap w')" by simp
  show ?thesis
  proof (cases "podLister resizeMap (podNamespace (podHeap w ! a)) (podName (podHeap w ! a))")
    case (Inl e)
    then show ?thesis using Some a' n by (simp add: listedPod_def deref_def)
  next
    case (Inr listed)
    show ?thesis
    proof (cases listed)
      case None
      with Inr show ?thesis using Some a' n by (simp add: listedPod_def deref_def)
    next
      case (Some b)
      with Inr assms(2) \<open>p = Some a\<close> a have "b < length (podHeap w)"
        by (simp add: pointerValid_def)
      with assms(3) Inr Some \<open>p = Some a\<close> a show ?thesis
        by (simp add: listedPod_def deref_def)
    qed
  qed
qed

lemma lookup_fails_valid:
  "list_all (pointerValid resizeMap (podHeap w)) pods \<Longrightarrow> p \<in> set pods
     \<Longrightarrow> listedPod resizeMap w p = None
     \<Longrightarrow> \<exists>e. snd (MarkForFileSystemResize_lookup pfx resizeMap vsn uvn mounted pods
                    (w, podObjs, marked)) = Inl e"
proof (induction pods arbitrary: w podObjs marked)
  case Nil
  then show ?case by simp
next
  case (Cons x pods)
  show ?case
  proof (cases "listedPod resizeMap w x")
    case None
    from lookup_head_fails [OF None, of pfx vsn uvn mounted pods podObjs marked]
    show ?thesis by auto
  next
    case (Some obj)
    with Cons.prems(3) have "x \<noteq> p" by auto
    with Cons.prems(2) have in_rest: "p \<in> set pods" by simp
    let ?w1 = "w\<lparr>podHeap := podHeap w @ [obj]\<rparr>"
    have k: "heapKept (podHeap w) (podHeap ?w1)" by (simp add: heapKept_append)
    from Cons.prems(1) have "list_all (pointerValid resizeMap (podHeap w)) pods" by simp
    then have v: "list_all (pointerValid resizeMap (podHeap ?w1)) pods"
      using pointerValid_kept [OF k] by (auto simp: list_all_iff)
    from Cons.prems(1) in_rest have "pointerValid resizeMap (podHeap w) p"
      by (auto simp: list_all_iff)
    from listedPod_None_kept [OF k this Cons.prems(3)]
    have n: "listedPod resizeMap ?w1 p = None" .
    show ?thesis
      unfolding lookup_step [OF Some]
      by (rule Cons.IH [OF v in_rest n])
  qed
qed

lemma distinct_map_filter_one:
  "distinct (map f xs) \<Longrightarrow> n \<in> f ` set xs \<Longrightarrow> length (filter (\<lambda>q. f q = n) xs) = 1"
proof (induction xs)
  case Nil
  then show ?case by simp
next
  case (Cons x xs)
  show ?case
  proof (cases "f x = n")
    case True
    with Cons.prems(1) have "n \<notin> f ` set xs" by auto
    then have "filter (\<lambda>q. f q = n) xs = []" by (auto simp: filter_empty_conv)
    with True show ?thesis by simp
  next
    case False
    with Cons show ?thesis by auto
  qed
qed

lemma map_all_Some:
  "\<forall>x \<in> set xs. \<exists>y. f x = Some y \<Longrightarrow> \<exists>ys. map f xs = map Some ys"
proof (induction xs)
  case Nil
  then show ?case by simp
next
  case (Cons x xs)
  then obtain y ys where "f x = Some y" "map f xs = map Some ys" by auto
  then show ?case by (intro exI [of _ "y # ys"]) simp
qed

lemma MarkForFileSystemResize_outcome:
  assumes valid: "pointersValid resizeMap uvn w"
  shows "\<exists>ups. podUpdates (fst (MarkForFileSystemResize pfx resizeMap vsn uvn w))
                 = podUpdates w @ ups
     \<and> distinct (map podNodeName ups)
     \<and> (\<forall>q \<in> set ups. \<exists>obj. Some obj \<in> set (listedPods resizeMap uvn w)
            \<and> q = markedCopy pfx vsn obj
            \<and> eligible (set (volumeMountedNodesGetter resizeMap uvn)) obj
            \<and> \<not> podHasMarkedForPVCResizing pfx obj vsn
            \<and> (\<forall>obj'. Some obj' \<in> set (listedPods resizeMap uvn w)
                  \<and> podNodeName obj' = podNodeName obj
                  \<longrightarrow> \<not> podHasMarkedForPVCResizing pfx obj' vsn))
     \<and> (snd (MarkForFileSystemResize pfx resizeMap vsn uvn w) = None
          \<longrightarrow> (\<forall>obj. Some obj \<in> set (listedPods resizeMap uvn w)
                 \<and> eligible (set (volumeMountedNodesGetter resizeMap uvn)) obj
                \<longrightarrow> (\<exists>obj'. Some obj' \<in> set (listedPods resizeMap uvn w)
                       \<and> podNodeName obj' = podNodeName obj
                       \<and> podHasMarkedForPVCResizing pfx obj' vsn)
                    \<or> podNodeName obj \<in> podNodeName ` set ups))"
proof -
  let ?pods = "podsInVolumeGetter resizeMap uvn"
  let ?mounted = "set (volumeMountedNodesGetter resizeMap uvn)"
  let ?R = "MarkForFileSystemResize pfx resizeMap vsn uvn w"
  show ?thesis
  proof (cases "\<exists>p \<in> set ?pods. listedPod resizeMap w p = None")
    case True
    then obtain p where p: "p \<in> set ?pods" "listedPod resizeMap w p = None" by blast
    obtain w1 r1 where l: "MarkForFileSystemResize_lookup pfx resizeMap vsn uvn ?mounted ?pods
        (w, [], {}) = (w1, r1)"
      by (cases "MarkForFileSystemResize_lookup pfx resizeMap vsn uvn ?mounted ?pods (w, [], {})")
    from lookup_fails_valid [OF valid [unfolded pointersValid_def] p, of pfx vsn uvn ?mounted "[]" "{}"] l
    obtain e where e: "r1 = Inl e" by auto
    from lookup_frame [OF l] have "w1 = w\<lparr>podHeap := podHeap w1\<rparr>" by simp
    from arg_cong [OF this, of podUpdates] have u: "podUpdates w1 = podUpdates w" by simp
    from p(1) have "length ?pods \<noteq> 0" by auto
    with l e have "?R = (w1, Some e)" by (simp add: MarkForFileSystemResize_def)
    with u show ?thesis by (intro exI [of _ "[]"]) simp
  next
    case False
    then have "\<forall>p \<in> set ?pods. \<exists>obj. listedPod resizeMap w p = Some obj" by auto
    then have "\<exists>objs. map (listedPod resizeMap w) ?pods = map Some objs"
      by (rule map_all_Some)
    then obtain objs where objs: "map (listedPod resizeMap w) ?pods = map Some objs" ..
    then have listed: "listedPods resizeMap uvn w = map Some objs"
      by (simp add: listedPods_def)
    have inl: "Some obj \<in> set (listedPods resizeMap uvn w) \<longleftrightarrow> obj \<in> set objs" for obj
      unfolding listed by auto
    show ?thesis
    proof (cases "length ?pods = 0")
      case True
      then have "?R = (w, None)" by (simp add: MarkForFileSystemResize_def)
      moreover from True objs have "objs = []" by simp
      ultimately show ?thesis unfolding inl by (intro exI [of _ "[]"]) simp
    next
      case ne: False
      let ?n = "length (podHeap w)"
      let ?w1 = "w\<lparr>podHeap := podHeap w @ objs\<rparr>"
      let ?S = "selectPods pfx vsn ?mounted objs ?n ([], {})"
      obtain sel mk where S: "?S = (sel, mk)" by (cases ?S)
      have l: "MarkForFileSystemResize_lookup pfx resizeMap vsn uvn ?mounted ?pods (w, [], {})
          = (?w1, Inr (sel, mk))"
        using lookup_selectPods [OF objs, of pfx vsn uvn ?mounted "[]" "{}"] S by simp
      obtain w2 r2 where m: "MarkForFileSystemResize_mark pfx resizeMap vsn sel (?w1, mk) = (w2, r2)"
        by (cases "MarkForFileSystemResize_mark pfx resizeMap vsn sel (?w1, mk)")
      from ne l m have R: "?R = (w2, r2)" by (simp add: MarkForFileSystemResize_def)
      have mk: "mk = {podNodeName obj | obj. obj \<in> set objs \<and> eligible ?mounted obj
                     \<and> podHasMarkedForPVCResizing pfx obj vsn}"
        using selectPods_marked [of pfx vsn ?mounted objs ?n "[]" "{}"] S by simp
      from selectPods_selected [of pfx vsn ?mounted objs ?n "[]" "{}"] S
      have dsel: "distinct sel"
        and sel: "\<forall>p \<in> set sel. \<exists>i < length objs. p = Some (?n + i)
            \<and> eligible ?mounted (objs ! i) \<and> \<not> podHasMarkedForPVCResizing pfx (objs ! i) vsn"
        by auto
      have vsel: "\<forall>p \<in> set sel. \<exists>a. p = Some a \<and> a < length (podHeap ?w1)"
        using sel by fastforce
      have at: "podHeap ?w1 ! (?n + i) = objs ! i" for i by simp
      from mark_updates [OF m dsel vsel] obtain ups where
        u1: "podUpdates w2 = podUpdates ?w1 @ ups" and u2: "distinct (map podNodeName ups)"
        and u3: "\<forall>q \<in> set ups. podNodeName q \<notin> mk
           \<and> (\<exists>a. Some a \<in> set sel \<and> q = markedCopy pfx vsn (podHeap ?w1 ! a))"
        and u4: "r2 = None \<longrightarrow> (\<forall>a. Some a \<in> set sel
           \<longrightarrow> podNodeName (podHeap ?w1 ! a) \<in> mk \<union> podNodeName ` set ups)"
        by blast
      have q: "\<exists>obj. obj \<in> set objs \<and> q = markedCopy pfx vsn obj \<and> eligible ?mounted obj
            \<and> \<not> podHasMarkedForPVCResizing pfx obj vsn
            \<and> (\<forall>obj'. obj' \<in> set objs \<and> podNodeName obj' = podNodeName obj
                  \<longrightarrow> \<not> podHasMarkedForPVCResizing pfx obj' vsn)" if "q \<in> set ups" for q
      proof -
        from u3 that obtain a where nm: "podNodeName q \<notin> mk" and a: "Some a \<in> set sel"
          and qa: "q = markedCopy pfx vsn (podHeap ?w1 ! a)" by blast
        from sel a obtain i where i: "i < length objs" "a = ?n + i"
          "eligible ?mounted (objs ! i)" "\<not> podHasMarkedForPVCResizing pfx (objs ! i) vsn"
          by auto
        from qa i(2) at [of i] have qi: "q = markedCopy pfx vsn (objs ! i)" by simp
        have "\<not> podHasMarkedForPVCResizing pfx obj' vsn"
          if "obj' \<in> set objs" "podNodeName obj' = podNodeName (objs ! i)" for obj'
        proof
          assume h: "podHasMarkedForPVCResizing pfx obj' vsn"
          from that(2) i(3) have "eligible ?mounted obj'" by (simp add: eligible_def)
          with that h have "podNodeName (objs ! i) \<in> mk"
            unfolding mk by (intro CollectI exI [of _ obj']) simp
          with nm qi show False by (simp add: markedCopy_node)
        qed
        with i qi show ?thesis by (intro exI [of _ "objs ! i"]) auto
      qed
      have cov: "(\<exists>obj'. obj' \<in> set objs \<and> podNodeName obj' = podNodeName obj
                       \<and> podHasMarkedForPVCResizing pfx obj' vsn)
                    \<or> podNodeName obj \<in> podNodeName ` set ups"
        if "r2 = None" "obj \<in> set objs" "eligible ?mounted obj" for obj
      proof -
        from selectPods_covers [OF that(2,3), of pfx vsn ?n "[]" "{}"] S
        consider "podNodeName obj \<in> mk"
          | i where "i < length objs" "Some (?n + i) \<in> set sel"
              "podNodeName (objs ! i) = podNodeName obj" by auto
        then show ?thesis
        proof cases
          case 1
          then show ?thesis unfolding mk by auto
        next
          case 2
          with u4 that(1) at [of i] have "podNodeName obj \<in> mk \<union> podNodeName ` set ups"
            by fastforce
          then show ?thesis unfolding mk by auto
        qed
      qed
      show ?thesis
        unfolding inl R
        using u1 u2 q cov by (intro exI [of _ ups]) simp
    qed
  qed
qed

lemmas example_defs = example_resizeMap_def NewVolumeResizeMap_def example_world_def
  example_pod_def example_client_def example_lister_def

lemmas mark_defs = MarkForFileSystemResize_def deref_def DeepCopy_def
  podHasMarkedForPVCResizing_def annotationGet_def GetVolumeFsResizeAnnotation_def
  updatePodAnnotationForPVCResizing_def PodsUpdate_def store_def Let_def

lemma markedCopy_annotation:
  "annotationGet (podAnnotations (markedCopy pfx vsn obj)) k
     = (if k = GetVolumeFsResizeAnnotation pfx vsn then Some ''yes''
        else annotationGet (podAnnotations obj) k)"
  by (cases "podAnnotations obj")
     (simp_all add: markedCopy_def annotationGet_def annotationRange_def update_conv')

text \<open>
  C2, as amended. The update requests of one call are for pods of pairwise different
  nodes, so at most one pod of a node is newly marked. Every request is for the copy of
  a listed pod with the annotation set. No request is for a pod of a node on which some
  listed pod already has the annotation with value \<open>yes\<close>. When the call returns nil,
  then for every listed pod that is scheduled to a node on which the volume is mounted:
  if some listed pod of that node already had the annotation with value \<open>yes\<close>, no
  pod of the node is updated (the pods that had the signal keep it, however many they
  are); otherwise exactly one pod of that node is updated.
\<close>

theorem MarkForFileSystemResize_one_update_per_node:
  assumes "pointersValid resizeMap uvn w"
  shows "\<exists>ups. podUpdates (fst (MarkForFileSystemResize pfx resizeMap vsn uvn w))
                 = podUpdates w @ ups
     \<and> distinct (map podNodeName ups)
     \<and> (\<forall>q \<in> set ups. \<exists>obj. Some obj \<in> set (listedPods resizeMap uvn w)
            \<and> q = markedCopy pfx vsn obj)
     \<and> (\<forall>obj. Some obj \<in> set (listedPods resizeMap uvn w)
            \<and> podHasMarkedForPVCResizing pfx obj vsn
          \<longrightarrow> podNodeName obj \<notin> podNodeName ` set ups)
     \<and> (snd (MarkForFileSystemResize pfx resizeMap vsn uvn w) = None
          \<longrightarrow> (\<forall>obj. Some obj \<in> set (listedPods resizeMap uvn w)
                 \<and> podNodeName obj \<noteq> []
                 \<and> podNodeName obj \<in> set (volumeMountedNodesGetter resizeMap uvn)
                \<longrightarrow> (if \<exists>obj'. Some obj' \<in> set (listedPods resizeMap uvn w)
                           \<and> podNodeName obj' = podNodeName obj
                           \<and> podHasMarkedForPVCResizing pfx obj' vsn
                     then podNodeName obj \<notin> podNodeName ` set ups
                     else length (filter (\<lambda>q. podNodeName q = podNodeName obj) ups) = 1)))"
proof -
  let ?listed = "listedPods resizeMap uvn w"
  let ?mounted = "set (volumeMountedNodesGetter resizeMap uvn)"
  from MarkForFileSystemResize_outcome [OF assms, of pfx vsn] obtain ups where
    u1: "podUpdates (fst (MarkForFileSystemResize pfx resizeMap vsn uvn w)) = podUpdates w @ ups"
    and u2: "distinct (map podNodeName ups)"
    and u3: "\<forall>q \<in> set ups. \<exists>obj. Some obj \<in> set ?listed
            \<and> q = markedCopy pfx vsn obj \<and> eligible ?mounted obj
            \<and> \<not> podHasMarkedForPVCResizing pfx obj vsn
            \<and> (\<forall>obj'. Some obj' \<in> set ?listed \<and> podNodeName obj' = podNodeName obj
                  \<longrightarrow> \<not> podHasMarkedForPVCResizing pfx obj' vsn)"
    and u4: "snd (MarkForFileSystemResize pfx resizeMap vsn uvn w) = None
          \<longrightarrow> (\<forall>obj. Some obj \<in> set ?listed \<and> eligible ?mounted obj
                \<longrightarrow> (\<exists>obj'. Some obj' \<in> set ?listed \<and> podNodeName obj' = podNodeName obj
                       \<and> podHasMarkedForPVCResizing pfx obj' vsn)
                    \<or> podNodeName obj \<in> podNodeName ` set ups)"
    by (elim exE conjE)
  have b: "podNodeName obj \<notin> podNodeName ` set ups"
    if "Some obj' \<in> set ?listed" "podNodeName obj' = podNodeName obj"
      "podHasMarkedForPVCResizing pfx obj' vsn" for obj obj'
  proof
    assume "podNodeName obj \<in> podNodeName ` set ups"
    then obtain q where q: "q \<in> set ups" "podNodeName q = podNodeName obj" by auto
    from u3 [rule_format, OF q(1)] obtain ob where ob: "q = markedCopy pfx vsn ob"
      "\<forall>obj'. Some obj' \<in> set ?listed \<and> podNodeName obj' = podNodeName ob
                  \<longrightarrow> \<not> podHasMarkedForPVCResizing pfx obj' vsn" by (elim exE conjE)
    from ob(1) q(2) have "podNodeName ob = podNodeName obj" by (simp add: markedCopy_node)
    with ob(2) [rule_format, of obj'] that show False by simp
  qed
  have c: "if \<exists>obj'. Some obj' \<in> set ?listed \<and> podNodeName obj' = podNodeName obj
                           \<and> podHasMarkedForPVCResizing pfx obj' vsn
           then podNodeName obj \<notin> podNodeName ` set ups
           else length (filter (\<lambda>q. podNodeName q = podNodeName obj) ups) = 1"
    if ok: "snd (MarkForFileSystemResize pfx resizeMap vsn uvn w) = None"
      and l: "Some obj \<in> set ?listed" and e: "podNodeName obj \<noteq> []"
        "podNodeName obj \<in> ?mounted" for obj
  proof (cases "\<exists>obj'. Some obj' \<in> set ?listed \<and> podNodeName obj' = podNodeName obj
                           \<and> podHasMarkedForPVCResizing pfx obj' vsn")
    case True
    then obtain obj' where "Some obj' \<in> set ?listed" "podNodeName obj' = podNodeName obj"
      "podHasMarkedForPVCResizing pfx obj' vsn" by (elim exE conjE)
    from b [OF this] show ?thesis unfolding if_P [OF True] .
  next
    case False
    from e have "eligible ?mounted obj" by (simp add: eligible_def)
    from u4 [rule_format, OF ok, of obj] l this
    have "(\<exists>obj'. Some obj' \<in> set ?listed \<and> podNodeName obj' = podNodeName obj
                       \<and> podHasMarkedForPVCResizing pfx obj' vsn)
                    \<or> podNodeName obj \<in> podNodeName ` set ups" by simp
    then have "podNodeName obj \<in> podNodeName ` set ups"
    proof
      assume "\<exists>obj'. Some obj' \<in> set ?listed \<and> podNodeName obj' = podNodeName obj
                       \<and> podHasMarkedForPVCResizing pfx obj' vsn"
      with False show ?thesis by (rule notE)
    qed
    from distinct_map_filter_one [OF u2 this] show ?thesis unfolding if_not_P [OF False] .
  qed
  show ?thesis
  proof (intro exI [of _ ups] conjI)
    show "podUpdates (fst (MarkForFileSystemResize pfx resizeMap vsn uvn w)) = podUpdates w @ ups"
      by (rule u1)
    show "distinct (map podNodeName ups)" by (rule u2)
    show "\<forall>q \<in> set ups. \<exists>obj. Some obj \<in> set ?listed \<and> q = markedCopy pfx vsn obj"
    proof
      fix q assume "q \<in> set ups"
      from u3 [rule_format, OF this] obtain obj where "Some obj \<in> set ?listed"
        "q = markedCopy pfx vsn obj" by (elim exE conjE)
      then show "\<exists>obj. Some obj \<in> set ?listed \<and> q = markedCopy pfx vsn obj"
        by (intro exI [of _ obj] conjI)
    qed
    show "\<forall>obj. Some obj \<in> set ?listed \<and> podHasMarkedForPVCResizing pfx obj vsn
          \<longrightarrow> podNodeName obj \<notin> podNodeName ` set ups"
    proof (intro allI impI)
      fix obj assume "Some obj \<in> set ?listed \<and> podHasMarkedForPVCResizing pfx obj vsn"
      then show "podNodeName obj \<notin> podNodeName ` set ups"
        using b [of obj obj] by simp
    qed
    show "snd (MarkForFileSystemResize pfx resizeMap vsn uvn w) = None
          \<longrightarrow> (\<forall>obj. Some obj \<in> set ?listed \<and> podNodeName obj \<noteq> []
                 \<and> podNodeName obj \<in> ?mounted
                \<longrightarrow> (if \<exists>obj'. Some obj' \<in> set ?listed
                           \<and> podNodeName obj' = podNodeName obj
                           \<and> podHasMarkedForPVCResizing pfx obj' vsn
                     then podNodeName obj \<notin> podNodeName ` set ups
                     else length (filter (\<lambda>q. podNodeName q = podNodeName obj) ups) = 1))"
    proof (intro allI impI)
      fix obj
      assume ok: "snd (MarkForFileSystemResize pfx resizeMap vsn uvn w) = None"
        and "Some obj \<in> set ?listed \<and> podNodeName obj \<noteq> []
                 \<and> podNodeName obj \<in> ?mounted"
      then have "Some obj \<in> set ?listed" "podNodeName obj \<noteq> []"
        "podNodeName obj \<in> ?mounted" by simp_all
      from c [OF ok this]
      show "if \<exists>obj'. Some obj' \<in> set ?listed \<and> podNodeName obj' = podNodeName obj
                           \<and> podHasMarkedForPVCResizing pfx obj' vsn
            then podNodeName obj \<notin> podNodeName ` set ups
            else length (filter (\<lambda>q. podNodeName q = podNodeName obj) ups) = 1" .
    qed
  qed
qed

theorem MarkForFileSystemResize_one_update_per_node_witness:
  "pointersValid (example_resizeMap example_lister [Some 0, Some 1]) ''vol''
     (example_world [example_pod ''pod-x'' ''uid-x'' ''n1'' None,
                     example_pod ''pod-y'' ''uid-y'' ''n1'' None])
   \<and> snd (MarkForFileSystemResize ''resize.'' (example_resizeMap example_lister [Some 0, Some 1])
       ''data'' ''vol''
       (example_world [example_pod ''pod-x'' ''uid-x'' ''n1'' None,
                       example_pod ''pod-y'' ''uid-y'' ''n1'' None])) = None
   \<and> (\<exists>ups. ups = [example_pod ''pod-x'' ''uid-x'' ''n1'' (Some [(''resize.data'', ''yes'')])]
        \<and> distinct (map podNodeName ups)
        \<and> length (filter (\<lambda>q. podNodeName q = ''n1'') ups) = 1
        \<and> podUpdates (fst (MarkForFileSystemResize ''resize.''
              (example_resizeMap example_lister [Some 0, Some 1]) ''data'' ''vol''
              (example_world [example_pod ''pod-x'' ''uid-x'' ''n1'' None,
                              example_pod ''pod-y'' ''uid-y'' ''n1'' None]))) = ups)"
proof -
  let ?rm = "example_resizeMap example_lister [Some 0, Some 1]"
  let ?w = "example_world [example_pod ''pod-x'' ''uid-x'' ''n1'' None,
                           example_pod ''pod-y'' ''uid-y'' ''n1'' None]"
  let ?R = "MarkForFileSystemResize ''resize.'' ?rm ''data'' ''vol'' ?w"
  have h: "pointersValid ?rm ''vol'' ?w"
    by (simp add: pointersValid_def pointerValid_def example_defs)
  have ev: "snd ?R = None"
    "podUpdates (fst ?R) = [example_pod ''pod-x'' ''uid-x'' ''n1'' (Some [(''resize.data'', ''yes'')])]"
    by (simp_all add: example_defs mark_defs)
  have u0: "podUpdates ?w = []" by (simp add: example_world_def)
  from MarkForFileSystemResize_one_update_per_node [OF h, of "''resize.''" "''data''"]
  obtain ups where u1: "podUpdates (fst ?R) = podUpdates ?w @ ups"
    and u2: "distinct (map podNodeName ups)" by (elim exE conjE)
  from u1 u0 ev(2) have ups: "ups = [example_pod ''pod-x'' ''uid-x'' ''n1''
      (Some [(''resize.data'', ''yes'')])]" by simp
  have one: "length (filter (\<lambda>q. podNodeName q = ''n1'') ups) = 1"
    unfolding ups by (simp add: example_pod_def)
  from ups u2 one ev(2) have "\<exists>ups. ups = [example_pod ''pod-x'' ''uid-x'' ''n1''
          (Some [(''resize.data'', ''yes'')])]
        \<and> distinct (map podNodeName ups)
        \<and> length (filter (\<lambda>q. podNodeName q = ''n1'') ups) = 1
        \<and> podUpdates (fst ?R) = ups"
    by (intro exI [of _ ups]) simp
  with h ev(1) show ?thesis by (intro conjI)
qed

text \<open>
  The claim as stated, "exactly one pod on that node ends the call carrying the signal",
  fails in two ways. With two pods of node \<open>n1\<close> already marked, the call returns nil,
  sends nothing, and both pods carry the signal afterwards. With \<open>pod-x\<close> eligible and
  the lookup of \<open>pod-z\<close> failing, the call returns the error and no pod of \<open>n1\<close>
  carries the signal.
\<close>

theorem MarkForFileSystemResize_exactly_one_marked_counterexample:
  "snd (MarkForFileSystemResize ''resize.'' (example_resizeMap example_lister [Some 0, Some 1])
       ''data'' ''vol''
       (example_world [example_pod ''pod-x'' ''uid-x'' ''n1'' (Some [(''resize.data'', ''yes'')]),
                       example_pod ''pod-y'' ''uid-y'' ''n1'' (Some [(''resize.data'', ''yes'')])]))
     = None
   \<and> apiPods (fst (MarkForFileSystemResize ''resize.''
        (example_resizeMap example_lister [Some 0, Some 1]) ''data'' ''vol''
        (example_world [example_pod ''pod-x'' ''uid-x'' ''n1'' (Some [(''resize.data'', ''yes'')]),
                        example_pod ''pod-y'' ''uid-y'' ''n1'' (Some [(''resize.data'', ''yes'')])])))
       (''default'', ''pod-x'')
     = Some (example_pod ''pod-x'' ''uid-x'' ''n1'' (Some [(''resize.data'', ''yes'')]))
   \<and> apiPods (fst (MarkForFileSystemResize ''resize.''
        (example_resizeMap example_lister [Some 0, Some 1]) ''data'' ''vol''
        (example_world [example_pod ''pod-x'' ''uid-x'' ''n1'' (Some [(''resize.data'', ''yes'')]),
                        example_pod ''pod-y'' ''uid-y'' ''n1'' (Some [(''resize.data'', ''yes'')])])))
       (''default'', ''pod-y'')
     = Some (example_pod ''pod-y'' ''uid-y'' ''n1'' (Some [(''resize.data'', ''yes'')]))
   \<and> podHasMarkedForPVCResizing ''resize.''
       (example_pod ''pod-x'' ''uid-x'' ''n1'' (Some [(''resize.data'', ''yes'')])) ''data''
   \<and> podHasMarkedForPVCResizing ''resize.''
       (example_pod ''pod-y'' ''uid-y'' ''n1'' (Some [(''resize.data'', ''yes'')])) ''data''
   \<and> podNodeName (example_pod ''pod-x'' ''uid-x'' ''n1'' (Some [(''resize.data'', ''yes'')])) = ''n1''
   \<and> podNodeName (example_pod ''pod-y'' ''uid-y'' ''n1'' (Some [(''resize.data'', ''yes'')])) = ''n1''
   \<and> ''n1'' \<in> set (volumeMountedNodesGetter
                      (example_resizeMap example_lister [Some 0, Some 1]) ''vol'')
   \<and> snd (MarkForFileSystemResize ''resize.'' (example_resizeMap example_lister [Some 0, Some 1])
       ''data'' ''vol''
       (example_world [example_pod ''pod-x'' ''uid-x'' ''n1'' None,
                       example_pod ''pod-z'' ''uid-z'' ''n1'' None]))
     = Some (Wrapped ''get pod %s/%s using PVC %s failed: %v'' [''pod-z'', ''default'', ''vol'']
              (Error ''not found''))
   \<and> podUpdates (fst (MarkForFileSystemResize ''resize.''
        (example_resizeMap example_lister [Some 0, Some 1]) ''data'' ''vol''
        (example_world [example_pod ''pod-x'' ''uid-x'' ''n1'' None,
                        example_pod ''pod-z'' ''uid-z'' ''n1'' None]))) = []
   \<and> apiPods (fst (MarkForFileSystemResize ''resize.''
        (example_resizeMap example_lister [Some 0, Some 1]) ''data'' ''vol''
        (example_world [example_pod ''pod-x'' ''uid-x'' ''n1'' None,
                        example_pod ''pod-z'' ''uid-z'' ''n1'' None])))
     = apiPods (example_world [example_pod ''pod-x'' ''uid-x'' ''n1'' None,
                               example_pod ''pod-z'' ''uid-z'' ''n1'' None])"
  by (simp add: example_defs mark_defs)

section \<open>An annotation with another value\<close>

lemma updatePodAnnotation_request:
  assumes "deref (podHeap w) (Some a) = Inr obj"
  shows "podUpdates (fst (updatePodAnnotationForPVCResizing pfx resizeMap (Some a) vsn w))
           = podUpdates w @ [markedCopy pfx vsn obj]
       \<and> podHeap (fst (updatePodAnnotationForPVCResizing pfx resizeMap (Some a) vsn w))
           = (podHeap w)[a := markedCopy pfx vsn obj]"
proof -
  let ?q = "markedCopy pfx vsn obj"
  let ?w0 = "w\<lparr>podHeap := (podHeap w)[a := ?q]\<rparr>"
  obtain w1 r1 where pu: "PodsUpdate (kubeClient resizeMap) (podNamespace obj) ?q ?w0 = (w1, r1)"
    by (cases "PodsUpdate (kubeClient resizeMap) (podNamespace obj) ?q ?w0")
  from PodsUpdate_frame [OF pu] updatePodAnnotation_eval [OF assms, of pfx resizeMap vsn] pu
  show ?thesis by simp
qed

text \<open>
  C10. A listed pod whose annotation for the volume is present with a value other than
  \<open>yes\<close> is an unmarked pod: \<open>podHasMarkedForPVCResizing\<close> is false for it; when the
  lookup loop reaches it (scheduled, volume mounted on its node, node not marked yet) the
  node is not added to the marked nodes and the pod's copy is queued for marking; when
  \<open>updatePodAnnotationForPVCResizing\<close> is applied to it, the pod sent has the value
  \<open>yes\<close> under the key and all its other annotations as before. In a whole call, every
  pod sent carries \<open>yes\<close>, and if the call returns nil and no listed pod of its node has
  the value \<open>yes\<close>, a pod of its node is updated.
\<close>

theorem other_annotation_value_counts_as_unmarked:
  assumes valid: "pointersValid resizeMap uvn w"
    and listed: "Some obj \<in> set (listedPods resizeMap uvn w)"
    and ann: "annotationGet (podAnnotations obj) (GetVolumeFsResizeAnnotation pfx vsn) = Some v"
    and other: "v \<noteq> ''yes''"
  shows "\<not> podHasMarkedForPVCResizing pfx obj vsn
     \<and> (listedPod resizeMap w0 p = Some obj \<and> podNodeName obj \<noteq> []
          \<and> podNodeName obj \<in> mounted \<and> podNodeName obj \<notin> marked
        \<longrightarrow> MarkForFileSystemResize_lookup pfx resizeMap vsn uvn mounted (p # pods)
               (w0, podObjs, marked)
            = MarkForFileSystemResize_lookup pfx resizeMap vsn uvn mounted pods
               (w0\<lparr>podHeap := podHeap w0 @ [obj]\<rparr>,
                podObjs @ [Some (length (podHeap w0))], marked))
     \<and> (deref (podHeap w0) (Some a) = Inr obj
        \<longrightarrow> (\<exists>q. podUpdates (fst (updatePodAnnotationForPVCResizing pfx resizeMap (Some a) vsn w0))
                     = podUpdates w0 @ [q]
                 \<and> podHeap (fst (updatePodAnnotationForPVCResizing pfx resizeMap (Some a) vsn w0))
                     = (podHeap w0)[a := q]
                 \<and> q = obj\<lparr>podAnnotations := podAnnotations q\<rparr>
                 \<and> (\<forall>k. annotationGet (podAnnotations q) k
                        = (if k = GetVolumeFsResizeAnnotation pfx vsn then Some ''yes''
                           else annotationGet (podAnnotations obj) k))))
     \<and> (\<exists>ups. podUpdates (fst (MarkForFileSystemResize pfx resizeMap vsn uvn w))
                  = podUpdates w @ ups
          \<and> (\<forall>q \<in> set ups. annotationGet (podAnnotations q)
                                 (GetVolumeFsResizeAnnotation pfx vsn) = Some ''yes'')
          \<and> (snd (MarkForFileSystemResize pfx resizeMap vsn uvn w) = None
               \<and> podNodeName obj \<noteq> []
               \<and> podNodeName obj \<in> set (volumeMountedNodesGetter resizeMap uvn)
               \<and> (\<forall>obj'. Some obj' \<in> set (listedPods resizeMap uvn w)
                      \<and> podNodeName obj' = podNodeName obj
                     \<longrightarrow> \<not> podHasMarkedForPVCResizing pfx obj' vsn)
              \<longrightarrow> (\<exists>q \<in> set ups. podNodeName q = podNodeName obj)))"
proof (intro conjI)
  show unmarked: "\<not> podHasMarkedForPVCResizing pfx obj vsn"
    using ann other by (simp add: podHasMarkedForPVCResizing_def)
  show "listedPod resizeMap w0 p = Some obj \<and> podNodeName obj \<noteq> []
          \<and> podNodeName obj \<in> mounted \<and> podNodeName obj \<notin> marked
        \<longrightarrow> MarkForFileSystemResize_lookup pfx resizeMap vsn uvn mounted (p # pods)
               (w0, podObjs, marked)
            = MarkForFileSystemResize_lookup pfx resizeMap vsn uvn mounted pods
               (w0\<lparr>podHeap := podHeap w0 @ [obj]\<rparr>,
                podObjs @ [Some (length (podHeap w0))], marked)"
  proof
    assume a: "listedPod resizeMap w0 p = Some obj \<and> podNodeName obj \<noteq> []
          \<and> podNodeName obj \<in> mounted \<and> podNodeName obj \<notin> marked"
    then have l: "listedPod resizeMap w0 p = Some obj" by simp
    show "MarkForFileSystemResize_lookup pfx resizeMap vsn uvn mounted (p # pods)
               (w0, podObjs, marked)
            = MarkForFileSystemResize_lookup pfx resizeMap vsn uvn mounted pods
               (w0\<lparr>podHeap := podHeap w0 @ [obj]\<rparr>,
                podObjs @ [Some (length (podHeap w0))], marked)"
      unfolding lookup_step [OF l] using a unmarked by simp
  qed
  show "deref (podHeap w0) (Some a) = Inr obj
        \<longrightarrow> (\<exists>q. podUpdates (fst (updatePodAnnotationForPVCResizing pfx resizeMap (Some a) vsn w0))
                     = podUpdates w0 @ [q]
                 \<and> podHeap (fst (updatePodAnnotationForPVCResizing pfx resizeMap (Some a) vsn w0))
                     = (podHeap w0)[a := q]
                 \<and> q = obj\<lparr>podAnnotations := podAnnotations q\<rparr>
                 \<and> (\<forall>k. annotationGet (podAnnotations q) k
                        = (if k = GetVolumeFsResizeAnnotation pfx vsn then Some ''yes''
                           else annotationGet (podAnnotations obj) k)))"
  proof
    assume d: "deref (podHeap w0) (Some a) = Inr obj"
    note r = updatePodAnnotation_request [OF d, of pfx resizeMap vsn]
    show "\<exists>q. podUpdates (fst (updatePodAnnotationForPVCResizing pfx resizeMap (Some a) vsn w0))
                     = podUpdates w0 @ [q]
                 \<and> podHeap (fst (updatePodAnnotationForPVCResizing pfx resizeMap (Some a) vsn w0))
                     = (podHeap w0)[a := q]
                 \<and> q = obj\<lparr>podAnnotations := podAnnotations q\<rparr>
                 \<and> (\<forall>k. annotationGet (podAnnotations q) k
                        = (if k = GetVolumeFsResizeAnnotation pfx vsn then Some ''yes''
                           else annotationGet (podAnnotations obj) k))"
    proof (intro exI [of _ "markedCopy pfx vsn obj"] conjI)
      show "podUpdates (fst (updatePodAnnotationForPVCResizing pfx resizeMap (Some a) vsn w0))
          = podUpdates w0 @ [markedCopy pfx vsn obj]" using r by simp
      show "podHeap (fst (updatePodAnnotationForPVCResizing pfx resizeMap (Some a) vsn w0))
          = (podHeap w0)[a := markedCopy pfx vsn obj]" using r by simp
      show "markedCopy pfx vsn obj
          = obj\<lparr>podAnnotations := podAnnotations (markedCopy pfx vsn obj)\<rparr>"
        by (simp add: markedCopy_def)
      show "\<forall>k. annotationGet (podAnnotations (markedCopy pfx vsn obj)) k
                        = (if k = GetVolumeFsResizeAnnotation pfx vsn then Some ''yes''
                           else annotationGet (podAnnotations obj) k)"
        by (simp add: markedCopy_annotation)
    qed
  qed
  let ?listed = "listedPods resizeMap uvn w"
  let ?mounted = "set (volumeMountedNodesGetter resizeMap uvn)"
  from MarkForFileSystemResize_outcome [OF valid, of pfx vsn] obtain ups where
    u1: "podUpdates (fst (MarkForFileSystemResize pfx resizeMap vsn uvn w)) = podUpdates w @ ups"
    and u3: "\<forall>q \<in> set ups. \<exists>obj. Some obj \<in> set ?listed
            \<and> q = markedCopy pfx vsn obj \<and> eligible ?mounted obj
            \<and> \<not> podHasMarkedForPVCResizing pfx obj vsn
            \<and> (\<forall>obj'. Some obj' \<in> set ?listed \<and> podNodeName obj' = podNodeName obj
                  \<longrightarrow> \<not> podHasMarkedForPVCResizing pfx obj' vsn)"
    and u4: "snd (MarkForFileSystemResize pfx resizeMap vsn uvn w) = None
          \<longrightarrow> (\<forall>obj. Some obj \<in> set ?listed \<and> eligible ?mounted obj
                \<longrightarrow> (\<exists>obj'. Some obj' \<in> set ?listed \<and> podNodeName obj' = podNodeName obj
                       \<and> podHasMarkedForPVCResizing pfx obj' vsn)
                    \<or> podNodeName obj \<in> podNodeName ` set ups)"
    by (elim exE conjE)
  show "\<exists>ups. podUpdates (fst (MarkForFileSystemResize pfx resizeMap vsn uvn w))
                  = podUpdates w @ ups
          \<and> (\<forall>q \<in> set ups. annotationGet (podAnnotations q)
                                 (GetVolumeFsResizeAnnotation pfx vsn) = Some ''yes'')
          \<and> (snd (MarkForFileSystemResize pfx resizeMap vsn uvn w) = None
               \<and> podNodeName obj \<noteq> []
               \<and> podNodeName obj \<in> ?mounted
               \<and> (\<forall>obj'. Some obj' \<in> set ?listed \<and> podNodeName obj' = podNodeName obj
                     \<longrightarrow> \<not> podHasMarkedForPVCResizing pfx obj' vsn)
              \<longrightarrow> (\<exists>q \<in> set ups. podNodeName q = podNodeName obj))"
  proof (intro exI [of _ ups] conjI)
    show "podUpdates (fst (MarkForFileSystemResize pfx resizeMap vsn uvn w)) = podUpdates w @ ups"
      by (rule u1)
    show "\<forall>q \<in> set ups. annotationGet (podAnnotations q)
                                 (GetVolumeFsResizeAnnotation pfx vsn) = Some ''yes''"
    proof
      fix q assume "q \<in> set ups"
      from u3 [rule_format, OF this] obtain ob where "q = markedCopy pfx vsn ob"
        by (elim exE conjE)
      then show "annotationGet (podAnnotations q) (GetVolumeFsResizeAnnotation pfx vsn)
          = Some ''yes''" by (simp add: markedCopy_annotation)
    qed
    show "snd (MarkForFileSystemResize pfx resizeMap vsn uvn w) = None
               \<and> podNodeName obj \<noteq> []
               \<and> podNodeName obj \<in> ?mounted
               \<and> (\<forall>obj'. Some obj' \<in> set ?listed \<and> podNodeName obj' = podNodeName obj
                     \<longrightarrow> \<not> podHasMarkedForPVCResizing pfx obj' vsn)
              \<longrightarrow> (\<exists>q \<in> set ups. podNodeName q = podNodeName obj)"
    proof
      assume a: "snd (MarkForFileSystemResize pfx resizeMap vsn uvn w) = None
               \<and> podNodeName obj \<noteq> []
               \<and> podNodeName obj \<in> ?mounted
               \<and> (\<forall>obj'. Some obj' \<in> set ?listed \<and> podNodeName obj' = podNodeName obj
                     \<longrightarrow> \<not> podHasMarkedForPVCResizing pfx obj' vsn)"
      then have ok: "snd (MarkForFileSystemResize pfx resizeMap vsn uvn w) = None"
        and e: "eligible ?mounted obj"
        and none: "\<forall>obj'. Some obj' \<in> set ?listed \<and> podNodeName obj' = podNodeName obj
                     \<longrightarrow> \<not> podHasMarkedForPVCResizing pfx obj' vsn"
        by (simp_all add: eligible_def)
      from u4 [rule_format, OF ok, of obj] listed e
      have "(\<exists>obj'. Some obj' \<in> set ?listed \<and> podNodeName obj' = podNodeName obj
                       \<and> podHasMarkedForPVCResizing pfx obj' vsn)
                    \<or> podNodeName obj \<in> podNodeName ` set ups" by simp
      then have "podNodeName obj \<in> podNodeName ` set ups"
      proof
        assume "\<exists>obj'. Some obj' \<in> set ?listed \<and> podNodeName obj' = podNodeName obj
                       \<and> podHasMarkedForPVCResizing pfx obj' vsn"
        then obtain obj' where "Some obj' \<in> set ?listed \<and> podNodeName obj' = podNodeName obj"
          "podHasMarkedForPVCResizing pfx obj' vsn" by (elim exE conjE) simp
        with none [rule_format, of obj'] show ?thesis by simp
      qed
      then show "\<exists>q \<in> set ups. podNodeName q = podNodeName obj" by auto
    qed
  qed
qed

theorem other_annotation_value_counts_as_unmarked_witness:
  "pointersValid (example_resizeMap example_lister [Some 0]) ''vol''
     (example_world [example_pod ''pod-x'' ''uid-x'' ''n1'' (Some [(''resize.data'', ''no'')])])
   \<and> Some (example_pod ''pod-x'' ''uid-x'' ''n1'' (Some [(''resize.data'', ''no'')]))
       \<in> set (listedPods (example_resizeMap example_lister [Some 0]) ''vol''
            (example_world [example_pod ''pod-x'' ''uid-x'' ''n1'' (Some [(''resize.data'', ''no'')])]))
   \<and> annotationGet (podAnnotations
         (example_pod ''pod-x'' ''uid-x'' ''n1'' (Some [(''resize.data'', ''no'')])))
         (GetVolumeFsResizeAnnotation ''resize.'' ''data'') = Some ''no''
   \<and> ''no'' \<noteq> ''yes''
   \<and> \<not> podHasMarkedForPVCResizing ''resize.''
         (example_pod ''pod-x'' ''uid-x'' ''n1'' (Some [(''resize.data'', ''no'')])) ''data''
   \<and> snd (MarkForFileSystemResize ''resize.'' (example_resizeMap example_lister [Some 0])
         ''data'' ''vol''
         (example_world [example_pod ''pod-x'' ''uid-x'' ''n1'' (Some [(''resize.data'', ''no'')])]))
       = None
   \<and> podUpdates (fst (MarkForFileSystemResize ''resize.''
         (example_resizeMap example_lister [Some 0]) ''data'' ''vol''
         (example_world [example_pod ''pod-x'' ''uid-x'' ''n1'' (Some [(''resize.data'', ''no'')])])))
       = [example_pod ''pod-x'' ''uid-x'' ''n1'' (Some [(''resize.data'', ''yes'')])]"
proof -
  let ?px = "example_pod ''pod-x'' ''uid-x'' ''n1'' (Some [(''resize.data'', ''no'')])"
  let ?rm = "example_resizeMap example_lister [Some 0]"
  let ?w = "example_world [?px]"
  have h1: "pointersValid ?rm ''vol'' ?w"
    by (simp add: pointersValid_def pointerValid_def example_defs)
  have h2: "Some ?px \<in> set (listedPods ?rm ''vol'' ?w)"
    by (simp add: listedPods_def listedPod_def deref_def example_defs)
  have h3: "annotationGet (podAnnotations ?px) (GetVolumeFsResizeAnnotation ''resize.'' ''data'')
      = Some ''no''"
    by (simp add: annotationGet_def GetVolumeFsResizeAnnotation_def example_pod_def)
  have h4: "''no'' \<noteq> ''yes''" by simp
  from other_annotation_value_counts_as_unmarked [OF h1 h2 h3 h4]
  have c1: "\<not> podHasMarkedForPVCResizing ''resize.'' ?px ''data''" by (rule conjunct1)
  have ev: "snd (MarkForFileSystemResize ''resize.'' ?rm ''data'' ''vol'' ?w) = None"
    "podUpdates (fst (MarkForFileSystemResize ''resize.'' ?rm ''data'' ''vol'' ?w))
       = [example_pod ''pod-x'' ''uid-x'' ''n1'' (Some [(''resize.data'', ''yes'')])]"
    by (simp_all add: example_defs mark_defs)
  from h1 h2 h3 h4 c1 ev show ?thesis by (intro conjI)
qed

section \<open>The populator\<close>

lemma AddVolumeForPod_eval:
  "deref (podHeap w) (Some a) = Inr p \<Longrightarrow>
   AddVolumeForPod w v (Some a) resizeMap = Inr (enqueueOne a (v, p) resizeMap)"
  by (simp add: AddVolumeForPod_def enqueueOne_def Let_def)

lemma enqueueAll_append:
  "enqueueAll a (xs @ ys) resizeMap = enqueueAll (a + length xs) ys (enqueueAll a xs resizeMap)"
  by (induction xs arbitrary: a resizeMap) simp_all

lemma range_refines:
  "a < length (podHeap w) \<Longrightarrow> podHeap w ! a = p \<Longrightarrow>
   processPodVolumes_range pfx (Some a) anns (w, resizeMap)
     = (w\<lparr>podHeap := podHeap w @ map snd
            (map (\<lambda>(key, val). (GetVolumeUniqueNameFromFsResizeAnnotation pfx key, p))
               (filter (\<lambda>(key, val). IsVolumeFsResizeAnnotation pfx key \<and> val = ''yes'') anns))\<rparr>,
        Inr (enqueueAll (length (podHeap w))
            (map (\<lambda>(key, val). (GetVolumeUniqueNameFromFsResizeAnnotation pfx key, p))
               (filter (\<lambda>(key, val). IsVolumeFsResizeAnnotation pfx key \<and> val = ''yes'') anns))
            resizeMap))"
proof (induction anns arbitrary: w resizeMap)
  case Nil
  then show ?case by simp
next
  case (Cons kv anns)
  obtain key val where kv: "kv = (key, val)" by (cases kv)
  show ?case
  proof (cases "IsVolumeFsResizeAnnotation pfx key \<and> val = ''yes''")
    case False
    with Cons.IH [OF Cons.prems] kv show ?thesis by auto
  next
    case True
    let ?w1 = "w\<lparr>podHeap := podHeap w @ [p]\<rparr>"
    from Cons.prems have d: "deref (podHeap w) (Some a) = Inr p" by (simp add: deref_def)
    have c: "DeepCopy (podHeap w) (Some a) = Inr (Some (length (podHeap w)), podHeap w @ [p])"
      by (rule DeepCopy_valid [OF d])
    have d1: "deref (podHeap ?w1) (Some (length (podHeap w))) = Inr p"
      by (simp add: deref_def)
    have a1: "a < length (podHeap ?w1)" "podHeap ?w1 ! a = p"
      using Cons.prems by (simp_all add: nth_append)
    from True kv show ?thesis
      by (simp add: c AddVolumeForPod_eval [OF d1] Cons.IH [OF a1])
  qed
qed

lemma processPodVolumes_refines:
  assumes "a < length (podHeap w)"
  shows "processPodVolumes pfx (Some a) (w, resizeMap)
     = (w\<lparr>podHeap := podHeap w @ map snd (pendingOfPod pfx (podHeap w ! a))\<rparr>,
        Inr (enqueueAll (length (podHeap w)) (pendingOfPod pfx (podHeap w ! a)) resizeMap))"
  using assms range_refines [OF assms refl, of pfx _ resizeMap]
  by (simp add: processPodVolumes_def deref_def pendingOfPod_def)

lemma pendingResizes_kept:
  assumes "heapKept h h'" and "podPointersValid h ptrs"
  shows "pendingResizes pfx T populator h' ptrs = pendingResizes pfx T populator h ptrs"
proof -
  have "deref h' ptr = deref h ptr" if "ptr \<in> set ptrs" for ptr
  proof -
    from assms(2) that obtain a where a: "ptr = Some a" "a < length h"
      by (auto simp: podPointersValid_def list_all_iff split: option.splits)
    from heapKept_nth [OF assms(1) a(2)] heapKept_length [OF assms(1)] a
    show ?thesis by (simp add: deref_def)
  qed
  then show ?thesis
    unfolding pendingResizes_def by (intro arg_cong [where f = concat] map_cong) simp_all
qed

lemma podPointersValid_kept:
  "heapKept h h' \<Longrightarrow> podPointersValid h ptrs \<Longrightarrow> podPointersValid h' ptrs"
  using heapKept_length [of h h']
  by (auto simp: podPointersValid_def list_all_iff split: option.splits)

lemma addNewPods_refines:
  "podPointersValid (podHeap w) ptrs \<Longrightarrow>
   addNewPods_range pfx T populator ptrs (w, resizeMap)
     = (w\<lparr>podHeap := podHeap w @ map snd (pendingResizes pfx T populator (podHeap w) ptrs)\<rparr>,
        Inr (enqueueAll (length (podHeap w))
               (pendingResizes pfx T populator (podHeap w) ptrs) resizeMap))"
proof (induction ptrs arbitrary: w resizeMap)
  case Nil
  then show ?case by (simp add: pendingResizes_def)
next
  case (Cons ptr ptrs)
  from Cons.prems obtain a where ptr: "ptr = Some a" and a: "a < length (podHeap w)"
    and rest: "podPointersValid (podHeap w) ptrs"
    by (auto simp: podPointersValid_def split: option.splits)
  let ?p = "podHeap w ! a"
  have d: "deref (podHeap w) ptr = Inr ?p" using ptr a by (simp add: deref_def)
  have t: "isPodTerminated T populator w ptr = Inr (podTerminated T populator ?p)"
    by (simp add: isPodTerminated_def d podTerminated_def)
  show ?case
  proof (cases "podTerminated T populator ?p")
    case True
    with t d Cons.IH [OF rest] show ?thesis
      by (simp add: pendingResizes_def)
  next
    case False
    let ?pend = "pendingOfPod pfx ?p"
    let ?w1 = "w\<lparr>podHeap := podHeap w @ map snd ?pend\<rparr>"
    let ?fm1 = "enqueueAll (length (podHeap w)) ?pend resizeMap"
    have k: "heapKept (podHeap w) (podHeap ?w1)" by (simp add: heapKept_append)
    have pr: "processPodVolumes pfx ptr (w, resizeMap) = (?w1, Inr ?fm1)"
      unfolding ptr by (rule processPodVolumes_refines [OF a])
    from podPointersValid_kept [OF k rest] have rest1: "podPointersValid (podHeap ?w1) ptrs" .
    have same: "pendingResizes pfx T populator (podHeap ?w1) ptrs
        = pendingResizes pfx T populator (podHeap w) ptrs"
      by (rule pendingResizes_kept [OF k rest])
    have split: "pendingResizes pfx T populator (podHeap w) (ptr # ptrs)
        = ?pend @ pendingResizes pfx T populator (podHeap w) ptrs"
      using d False by (simp add: pendingResizes_def)
    show ?thesis
      using t False pr Cons.IH [OF rest1, of ?fm1]
      by (simp add: same [simplified] split enqueueAll_append)
  qed
qed

lemma fsLookup_enqueueOne:
  "fsLookup (enqueueOne a (v, p) resizeMap) u' v'
     = (if u' = GetUniquePodName p \<and> v' = v then Some \<lparr>Pod = Some a, VolumeName = v\<rparr>
        else fsLookup resizeMap u' v')"
  by (simp add: fsLookup_def enqueueOne_def update_conv' split: option.splits)

lemma fsLookup_enqueueAll:
  "(fsLookup (enqueueAll a pend resizeMap) u v = fsLookup resizeMap u v
      \<and> (\<forall>i < length pend. \<not> (GetUniquePodName (snd (pend ! i)) = u \<and> fst (pend ! i) = v)))
   \<or> (\<exists>j < length pend. GetUniquePodName (snd (pend ! j)) = u \<and> fst (pend ! j) = v
         \<and> fsLookup (enqueueAll a pend resizeMap) u v
             = Some \<lparr>Pod = Some (a + j), VolumeName = v\<rparr>)"
proof (induction pend arbitrary: a resizeMap)
  case Nil
  then show ?case by simp
next
  case (Cons vp pend)
  obtain v0 p0 where vp: "vp = (v0, p0)" by (cases vp)
  let ?fm1 = "enqueueOne a vp resizeMap"
  from Cons.IH [of "Suc a" ?fm1]
  show ?case
  proof
    assume same: "fsLookup (enqueueAll (Suc a) pend ?fm1) u v = fsLookup ?fm1 u v
      \<and> (\<forall>i < length pend. \<not> (GetUniquePodName (snd (pend ! i)) = u \<and> fst (pend ! i) = v))"
    show ?thesis
    proof (cases "GetUniquePodName p0 = u \<and> v0 = v")
      case True
      with same vp have "fsLookup (enqueueAll a (vp # pend) resizeMap) u v
          = Some \<lparr>Pod = Some (a + 0), VolumeName = v\<rparr>"
        by (simp add: fsLookup_enqueueOne)
      with True vp show ?thesis by (intro disjI2 exI [of _ 0]) simp
    next
      case False
      with same vp have l: "fsLookup (enqueueAll a (vp # pend) resizeMap) u v
          = fsLookup resizeMap u v"
        by (auto simp: fsLookup_enqueueOne)
      have "\<not> (GetUniquePodName (snd ((vp # pend) ! i)) = u \<and> fst ((vp # pend) ! i) = v)"
        if "i < length (vp # pend)" for i
        using that same False vp by (cases i) auto
      with l show ?thesis by (intro disjI1 conjI allI impI)
    qed
  next
    assume "\<exists>j < length pend. GetUniquePodName (snd (pend ! j)) = u \<and> fst (pend ! j) = v
         \<and> fsLookup (enqueueAll (Suc a) pend ?fm1) u v
             = Some \<lparr>Pod = Some (Suc a + j), VolumeName = v\<rparr>"
    then obtain j where "j < length pend" "GetUniquePodName (snd (pend ! j)) = u"
      "fst (pend ! j) = v"
      "fsLookup (enqueueAll (Suc a) pend ?fm1) u v = Some \<lparr>Pod = Some (Suc a + j), VolumeName = v\<rparr>"
      by (elim exE conjE)
    then show ?thesis by (intro disjI2 exI [of _ "Suc j"]) simp
  qed
qed

lemma pendingOfPod_iff:
  "(v, q) \<in> set (pendingOfPod pfx p) \<longleftrightarrow>
     q = p \<and> (\<exists>key. (key, ''yes'') \<in> set (annotationRange (podAnnotations p))
               \<and> IsVolumeFsResizeAnnotation pfx key
               \<and> v = GetVolumeUniqueNameFromFsResizeAnnotation pfx key)"
  by (auto simp: pendingOfPod_def)

lemma pendingResizes_iff:
  "(v, p) \<in> set (pendingResizes pfx T populator h ptrs) \<longleftrightarrow>
     (\<exists>ptr key. ptr \<in> set ptrs \<and> deref h ptr = Inr p
        \<and> \<not> T p (case podStatusProvider populator (podUID p) of
                     None \<Rightarrow> podStatusOf p | Some found \<Rightarrow> found)
        \<and> (key, ''yes'') \<in> set (annotationRange (podAnnotations p))
        \<and> IsVolumeFsResizeAnnotation pfx key
        \<and> v = GetVolumeUniqueNameFromFsResizeAnnotation pfx key)"
  (is "?L \<longleftrightarrow> ?R")
proof
  assume ?L
  then obtain ptr where ptr: "ptr \<in> set ptrs"
    and m: "(v, p) \<in> set (case deref h ptr of Inl _ \<Rightarrow> []
              | Inr q \<Rightarrow> if podTerminated T populator q then [] else pendingOfPod pfx q)"
    by (auto simp: pendingResizes_def)
  from m obtain q where q: "deref h ptr = Inr q" "\<not> podTerminated T populator q"
    "(v, p) \<in> set (pendingOfPod pfx q)"
    by (cases "deref h ptr") (auto split: if_splits)
  from q(3) have qp: "p = q" and "\<exists>key. (key, ''yes'') \<in> set (annotationRange (podAnnotations q))
               \<and> IsVolumeFsResizeAnnotation pfx key
               \<and> v = GetVolumeUniqueNameFromFsResizeAnnotation pfx key"
    by (simp_all add: pendingOfPod_iff)
  then obtain key where "(key, ''yes'') \<in> set (annotationRange (podAnnotations q))"
    "IsVolumeFsResizeAnnotation pfx key" "v = GetVolumeUniqueNameFromFsResizeAnnotation pfx key"
    by (elim exE conjE)
  with ptr q(1,2) show ?R
    unfolding qp by (intro exI [of _ ptr] exI [of _ key]) (simp add: podTerminated_def)
next
  assume ?R
  then obtain ptr key where r: "ptr \<in> set ptrs" "deref h ptr = Inr p"
    "\<not> T p (case podStatusProvider populator (podUID p) of
                     None \<Rightarrow> podStatusOf p | Some found \<Rightarrow> found)"
    "(key, ''yes'') \<in> set (annotationRange (podAnnotations p))"
    "IsVolumeFsResizeAnnotation pfx key" "v = GetVolumeUniqueNameFromFsResizeAnnotation pfx key"
    by (elim exE conjE)
  from r(4,5,6) have "(v, p) \<in> set (pendingOfPod pfx p)"
    unfolding pendingOfPod_iff by (intro conjI refl exI [of _ key])
  with r(2,3) have "(v, p) \<in> set (case deref h ptr of Inl _ \<Rightarrow> []
              | Inr q \<Rightarrow> if podTerminated T populator q then [] else pendingOfPod pfx q)"
    by (simp add: podTerminated_def)
  with r(1) have "(v, p) \<in> (\<Union>ptr \<in> set ptrs. set (case deref h ptr of Inl _ \<Rightarrow> []
              | Inr q \<Rightarrow> if podTerminated T populator q then [] else pendingOfPod pfx q))"
    by (rule UN_I)
  then show ?L unfolding pendingResizes_def by simp
qed

lemma populate_refines:
  "podPointersValid (podHeap w) (podManager populator) \<Longrightarrow>
   populate pfx T populator (w, resizeMap)
     = (w\<lparr>podHeap := podHeap w @ map snd
              (pendingResizes pfx T populator (podHeap w) (podManager populator))\<rparr>,
        Inr (enqueueAll (length (podHeap w))
               (pendingResizes pfx T populator (podHeap w) (podManager populator)) resizeMap))"
  by (simp add: populate_def addNewPods_def addNewPods_refines)

lemma populate_lookup:
  assumes "podPointersValid (podHeap w) (podManager populator)"
  shows "\<exists>resizeMap'.
      populate pfx T populator (w, resizeMap)
        = (w\<lparr>podHeap := podHeap w @ map snd
               (pendingResizes pfx T populator (podHeap w) (podManager populator))\<rparr>,
           Inr resizeMap')
    \<and> (\<forall>u v. if \<exists>p. (v, p) \<in> set (pendingResizes pfx T populator (podHeap w)
                                         (podManager populator))
                     \<and> GetUniquePodName p = u
              then \<exists>j < length (pendingResizes pfx T populator (podHeap w)
                                  (podManager populator)).
                     fst (pendingResizes pfx T populator (podHeap w)
                            (podManager populator) ! j) = v
                     \<and> GetUniquePodName (snd (pendingResizes pfx T populator (podHeap w)
                            (podManager populator) ! j)) = u
                     \<and> fsLookup resizeMap' u v
                         = Some \<lparr>Pod = Some (length (podHeap w) + j), VolumeName = v\<rparr>
              else fsLookup resizeMap' u v = fsLookup resizeMap u v)"
proof -
  let ?pending = "pendingResizes pfx T populator (podHeap w) (podManager populator)"
  let ?fm = "enqueueAll (length (podHeap w)) ?pending resizeMap"
  have look: "if \<exists>p. (v, p) \<in> set ?pending \<and> GetUniquePodName p = u
              then \<exists>j < length ?pending. fst (?pending ! j) = v
                     \<and> GetUniquePodName (snd (?pending ! j)) = u
                     \<and> fsLookup ?fm u v
                         = Some \<lparr>Pod = Some (length (podHeap w) + j), VolumeName = v\<rparr>
              else fsLookup ?fm u v = fsLookup resizeMap u v" for u v
  proof (cases "\<exists>p. (v, p) \<in> set ?pending \<and> GetUniquePodName p = u")
    case True
    then obtain p where p: "(v, p) \<in> set ?pending" "GetUniquePodName p = u"
      by (elim exE conjE)
    from p(1) obtain i where i: "i < length ?pending" "?pending ! i = (v, p)"
      by (auto simp: in_set_conv_nth)
    from fsLookup_enqueueAll [of "length (podHeap w)" ?pending resizeMap u v]
    have "\<exists>j < length ?pending. GetUniquePodName (snd (?pending ! j)) = u
         \<and> fst (?pending ! j) = v
         \<and> fsLookup ?fm u v = Some \<lparr>Pod = Some (length (podHeap w) + j), VolumeName = v\<rparr>"
    proof
      assume "fsLookup ?fm u v = fsLookup resizeMap u v
        \<and> (\<forall>i < length ?pending. \<not> (GetUniquePodName (snd (?pending ! i)) = u
              \<and> fst (?pending ! i) = v))"
      then have "\<not> (GetUniquePodName (snd (?pending ! i)) = u \<and> fst (?pending ! i) = v)"
        using i(1) by simp
      with i(2) p(2) show ?thesis by simp
    qed
    then obtain j where j: "j < length ?pending" "GetUniquePodName (snd (?pending ! j)) = u"
      "fst (?pending ! j) = v"
      "fsLookup ?fm u v = Some \<lparr>Pod = Some (length (podHeap w) + j), VolumeName = v\<rparr>"
      by (elim exE conjE)
    have "\<exists>j < length ?pending. fst (?pending ! j) = v
                     \<and> GetUniquePodName (snd (?pending ! j)) = u
                     \<and> fsLookup ?fm u v
                         = Some \<lparr>Pod = Some (length (podHeap w) + j), VolumeName = v\<rparr>"
      using j by (intro exI [of _ j]) simp
    then show ?thesis unfolding if_P [OF True] .
  next
    case False
    from fsLookup_enqueueAll [of "length (podHeap w)" ?pending resizeMap u v]
    have "fsLookup ?fm u v = fsLookup resizeMap u v"
    proof
      assume "fsLookup ?fm u v = fsLookup resizeMap u v
        \<and> (\<forall>i < length ?pending. \<not> (GetUniquePodName (snd (?pending ! i)) = u
              \<and> fst (?pending ! i) = v))"
      then show ?thesis by simp
    next
      assume "\<exists>j < length ?pending. GetUniquePodName (snd (?pending ! j)) = u
         \<and> fst (?pending ! j) = v
         \<and> fsLookup ?fm u v = Some \<lparr>Pod = Some (length (podHeap w) + j), VolumeName = v\<rparr>"
      then obtain j where j: "j < length ?pending" "GetUniquePodName (snd (?pending ! j)) = u"
        "fst (?pending ! j) = v" by (elim exE conjE)
      from j(1) have "?pending ! j \<in> set ?pending" by simp
      then have "(v, snd (?pending ! j)) \<in> set ?pending" using j(3) [symmetric] by simp
      with j(2) False show ?thesis by auto
    qed
    then show ?thesis unfolding if_not_P [OF False] .
  qed
  show ?thesis
    by (intro exI [of _ ?fm] conjI populate_refines [OF assms] allI look)
qed

lemmas populate_defs = populate_def addNewPods_def isPodTerminated_def processPodVolumes_def
  annotationRange_def IsVolumeFsResizeAnnotation_def GetVolumeUniqueNameFromFsResizeAnnotation_def
  AddVolumeForPod_def GetUniquePodName_def NewVolumeFsResizeMap_def example_IsPodTerminated_def
  deref_def DeepCopy_def Let_def

text \<open>
  C5. When every pod of the pod manager is an object, one run of the populator returns
  normally, and the pairs (volume name, pod) it enqueues are exactly these: the pod is
  one of the pod manager's and is not terminated, judged by the status the status
  provider has for its UID if it has one and by the pod's own status otherwise; the pod
  has an annotation with value \<open>yes\<close> under a key that is an fs-resize key; the volume
  name is decoded from that key. For each pair a copy of the pod is appended to the heap,
  and the entry stored under (pod UID, volume name) points to such a copy, never to the
  pod manager's object. Every other entry of the cache is as before.
\<close>

theorem populate_enqueues_exactly_the_pending_resizes:
  assumes "podPointersValid (podHeap w) (podManager populator)"
  shows "\<exists>pending resizeMap'.
      populate pfx IsPodTerminated populator (w, resizeMap)
        = (w\<lparr>podHeap := podHeap w @ map snd pending\<rparr>, Inr resizeMap')
    \<and> (\<forall>v p. (v, p) \<in> set pending \<longleftrightarrow>
          (\<exists>ptr key. ptr \<in> set (podManager populator) \<and> deref (podHeap w) ptr = Inr p
             \<and> \<not> IsPodTerminated p (case podStatusProvider populator (podUID p) of
                                       None \<Rightarrow> podStatusOf p | Some found \<Rightarrow> found)
             \<and> (key, ''yes'') \<in> set (annotationRange (podAnnotations p))
             \<and> IsVolumeFsResizeAnnotation pfx key
             \<and> v = GetVolumeUniqueNameFromFsResizeAnnotation pfx key))
    \<and> (\<forall>u v. if \<exists>p. (v, p) \<in> set pending \<and> GetUniquePodName p = u
              then \<exists>j < length pending. fst (pending ! j) = v
                     \<and> GetUniquePodName (snd (pending ! j)) = u
                     \<and> fsLookup resizeMap' u v
                         = Some \<lparr>Pod = Some (length (podHeap w) + j), VolumeName = v\<rparr>
              else fsLookup resizeMap' u v = fsLookup resizeMap u v)"
proof -
  let ?pending = "pendingResizes pfx IsPodTerminated populator (podHeap w) (podManager populator)"
  from populate_lookup [OF assms, of pfx IsPodTerminated resizeMap]
  obtain resizeMap' where
    r: "populate pfx IsPodTerminated populator (w, resizeMap)
        = (w\<lparr>podHeap := podHeap w @ map snd ?pending\<rparr>, Inr resizeMap')"
    and l: "\<forall>u v. if \<exists>p. (v, p) \<in> set ?pending \<and> GetUniquePodName p = u
              then \<exists>j < length ?pending. fst (?pending ! j) = v
                     \<and> GetUniquePodName (snd (?pending ! j)) = u
                     \<and> fsLookup resizeMap' u v
                         = Some \<lparr>Pod = Some (length (podHeap w) + j), VolumeName = v\<rparr>
              else fsLookup resizeMap' u v = fsLookup resizeMap u v"
    by (elim exE conjE)
  have m: "\<forall>v p. (v, p) \<in> set ?pending \<longleftrightarrow>
          (\<exists>ptr key. ptr \<in> set (podManager populator) \<and> deref (podHeap w) ptr = Inr p
             \<and> \<not> IsPodTerminated p (case podStatusProvider populator (podUID p) of
                                       None \<Rightarrow> podStatusOf p | Some found \<Rightarrow> found)
             \<and> (key, ''yes'') \<in> set (annotationRange (podAnnotations p))
             \<and> IsVolumeFsResizeAnnotation pfx key
             \<and> v = GetVolumeUniqueNameFromFsResizeAnnotation pfx key)"
    by (intro allI pendingResizes_iff)
  show ?thesis
    by (intro exI [of _ ?pending] exI [of _ resizeMap'] conjI r m l)
qed

lemma ex2_conjunct1: "\<exists>x y. P x y \<and> Q x y \<Longrightarrow> \<exists>x y. P x y"
  by blast

theorem populate_enqueues_exactly_the_pending_resizes_witness:
  "podPointersValid
     (podHeap (example_world
        [example_pod ''pod-x'' ''uid-x'' ''n1'' (Some [(''resize.data'', ''yes''), (''team'', ''a'')]),
         (example_pod ''pod-t'' ''uid-t'' ''n1'' (Some [(''resize.logs'', ''yes'')]))
           \<lparr>podStatusOf := \<lparr>phase = PodFailed\<rparr>\<rparr>]))
     (podManager \<lparr>podManager = [Some 0, Some 1], podStatusProvider = (\<lambda>_. None)\<rparr>)
   \<and> populate ''resize.'' example_IsPodTerminated
       \<lparr>podManager = [Some 0, Some 1], podStatusProvider = (\<lambda>_. None)\<rparr>
       (example_world
          [example_pod ''pod-x'' ''uid-x'' ''n1'' (Some [(''resize.data'', ''yes''), (''team'', ''a'')]),
           (example_pod ''pod-t'' ''uid-t'' ''n1'' (Some [(''resize.logs'', ''yes'')]))
             \<lparr>podStatusOf := \<lparr>phase = PodFailed\<rparr>\<rparr>],
        NewVolumeFsResizeMap example_client)
     = ((example_world
          [example_pod ''pod-x'' ''uid-x'' ''n1'' (Some [(''resize.data'', ''yes''), (''team'', ''a'')]),
           (example_pod ''pod-t'' ''uid-t'' ''n1'' (Some [(''resize.logs'', ''yes'')]))
             \<lparr>podStatusOf := \<lparr>phase = PodFailed\<rparr>\<rparr>])
         \<lparr>podHeap :=
            [example_pod ''pod-x'' ''uid-x'' ''n1'' (Some [(''resize.data'', ''yes''), (''team'', ''a'')]),
             (example_pod ''pod-t'' ''uid-t'' ''n1'' (Some [(''resize.logs'', ''yes'')]))
               \<lparr>podStatusOf := \<lparr>phase = PodFailed\<rparr>\<rparr>,
             example_pod ''pod-x'' ''uid-x'' ''n1'' (Some [(''resize.data'', ''yes''), (''team'', ''a'')])]\<rparr>,
        Inr \<lparr>fsPods = [(''uid-x'', [(''data'', \<lparr>Pod = Some 2, VolumeName = ''data''\<rparr>)])],
             fsKubeClient = example_client\<rparr>)
   \<and> (\<exists>(pending :: (string \<times> pod) list) resizeMap'.
        populate ''resize.'' example_IsPodTerminated
          \<lparr>podManager = [Some 0, Some 1], podStatusProvider = (\<lambda>_. None)\<rparr>
          (example_world
            [example_pod ''pod-x'' ''uid-x'' ''n1'' (Some [(''resize.data'', ''yes''), (''team'', ''a'')]),
             (example_pod ''pod-t'' ''uid-t'' ''n1'' (Some [(''resize.logs'', ''yes'')]))
               \<lparr>podStatusOf := \<lparr>phase = PodFailed\<rparr>\<rparr>],
           NewVolumeFsResizeMap example_client)
         = ((example_world
              [example_pod ''pod-x'' ''uid-x'' ''n1'' (Some [(''resize.data'', ''yes''), (''team'', ''a'')]),
               (example_pod ''pod-t'' ''uid-t'' ''n1'' (Some [(''resize.logs'', ''yes'')]))
                 \<lparr>podStatusOf := \<lparr>phase = PodFailed\<rparr>\<rparr>])
             \<lparr>podHeap := podHeap (example_world
              [example_pod ''pod-x'' ''uid-x'' ''n1'' (Some [(''resize.data'', ''yes''), (''team'', ''a'')]),
               (example_pod ''pod-t'' ''uid-t'' ''n1'' (Some [(''resize.logs'', ''yes'')]))
                 \<lparr>podStatusOf := \<lparr>phase = PodFailed\<rparr>\<rparr>]) @ map snd pending\<rparr>,
            Inr resizeMap'))"
proof -
  let ?px = "example_pod ''pod-x'' ''uid-x'' ''n1'' (Some [(''resize.data'', ''yes''), (''team'', ''a'')])"
  let ?pt = "(example_pod ''pod-t'' ''uid-t'' ''n1'' (Some [(''resize.logs'', ''yes'')]))
               \<lparr>podStatusOf := \<lparr>phase = PodFailed\<rparr>\<rparr>"
  let ?w = "example_world [?px, ?pt]"
  let ?pop = "\<lparr>podManager = [Some 0, Some 1], podStatusProvider = (\<lambda>_. None)\<rparr>"
  have h: "podPointersValid (podHeap ?w) (podManager ?pop)"
    by (simp add: podPointersValid_def example_world_def)
  have ev: "populate ''resize.'' example_IsPodTerminated ?pop (?w, NewVolumeFsResizeMap example_client)
     = (?w\<lparr>podHeap := [?px, ?pt, ?px]\<rparr>,
        Inr \<lparr>fsPods = [(''uid-x'', [(''data'', \<lparr>Pod = Some 2, VolumeName = ''data''\<rparr>)])],
             fsKubeClient = example_client\<rparr>)"
    by (simp add: populate_defs example_world_def example_pod_def)
  from populate_enqueues_exactly_the_pending_resizes
         [OF h, of "''resize.''" example_IsPodTerminated "NewVolumeFsResizeMap example_client"]
  have "\<exists>(pending :: (string \<times> pod) list) resizeMap'.
      populate ''resize.'' example_IsPodTerminated ?pop (?w, NewVolumeFsResizeMap example_client)
       = (?w\<lparr>podHeap := podHeap ?w @ map snd pending\<rparr>, Inr resizeMap')"
    by (rule ex2_conjunct1)
  with h ev show ?thesis by (intro conjI)
qed

lemma populate_entry:
  assumes valid: "podPointersValid (podHeap w) (podManager populator)"
    and ptr: "ptr \<in> set (podManager populator)"
    and p: "deref (podHeap w) ptr = Inr p"
    and alive: "\<not> IsPodTerminated p (case podStatusProvider populator (podUID p) of
                                       None \<Rightarrow> podStatusOf p | Some found \<Rightarrow> found)"
    and ann: "annotationGet (podAnnotations p) (GetVolumeFsResizeAnnotation pfx v) = Some ''yes''"
  shows "\<exists>w' cache' e copy.
       populate pfx IsPodTerminated populator (w, cache) = (w', Inr cache')
     \<and> heapKept (podHeap w) (podHeap w')
     \<and> fsLookup cache' (GetUniquePodName p) v = Some e \<and> VolumeName e = v
     \<and> deref (podHeap w') (Pod e) = Inr copy
     \<and> GetUniquePodName copy = GetUniquePodName p
     \<and> (GetVolumeFsResizeAnnotation pfx v, ''yes'') \<in> set (annotationRange (podAnnotations copy))
     \<and> (\<forall>u v'. fsLookup cache' u v' = None \<longrightarrow> fsLookup cache u v' = None)"
proof -
  let ?key = "GetVolumeFsResizeAnnotation pfx v"
  let ?pending = "pendingResizes pfx IsPodTerminated populator (podHeap w) (podManager populator)"
  from populate_lookup [OF valid, of pfx IsPodTerminated cache]
  obtain cache' where
    r: "populate pfx IsPodTerminated populator (w, cache)
        = (w\<lparr>podHeap := podHeap w @ map snd ?pending\<rparr>, Inr cache')"
    and l: "\<forall>u v. if \<exists>p. (v, p) \<in> set ?pending \<and> GetUniquePodName p = u
              then \<exists>j < length ?pending. fst (?pending ! j) = v
                     \<and> GetUniquePodName (snd (?pending ! j)) = u
                     \<and> fsLookup cache' u v
                         = Some \<lparr>Pod = Some (length (podHeap w) + j), VolumeName = v\<rparr>
              else fsLookup cache' u v = fsLookup cache u v"
    by (elim exE conjE)
  from ann have inl: "(?key, ''yes'') \<in> set (annotationRange (podAnnotations p))"
    by (cases "podAnnotations p")
       (auto simp: annotationGet_def annotationRange_def dest: map_of_SomeD)
  have isk: "IsVolumeFsResizeAnnotation pfx ?key"
    by (simp add: GetVolumeFsResizeAnnotation_def IsVolumeFsResizeAnnotation_def)
  have dec: "v = GetVolumeUniqueNameFromFsResizeAnnotation pfx ?key"
    by (simp add: GetVolumeFsResizeAnnotation_def GetVolumeUniqueNameFromFsResizeAnnotation_def)
  have mem: "(v, p) \<in> set ?pending"
    unfolding pendingResizes_iff
    by (intro exI [of _ ptr] exI [of _ ?key] conjI ptr p alive inl isk dec)
  then have ex: "\<exists>q. (v, q) \<in> set ?pending \<and> GetUniquePodName q = GetUniquePodName p"
    by (intro exI [of _ p]) simp
  from l [rule_format, of v "GetUniquePodName p", unfolded if_P [OF ex]]
  obtain j where j: "j < length ?pending" "fst (?pending ! j) = v"
    "GetUniquePodName (snd (?pending ! j)) = GetUniquePodName p"
    "fsLookup cache' (GetUniquePodName p) v
       = Some \<lparr>Pod = Some (length (podHeap w) + j), VolumeName = v\<rparr>"
    by (elim exE conjE)
  let ?copy = "snd (?pending ! j)"
  from j(1) have "?pending ! j \<in> set ?pending" by simp
  with j(2) [symmetric] have "(v, ?copy) \<in> set ?pending" by simp
  then obtain key where key: "(key, ''yes'') \<in> set (annotationRange (podAnnotations ?copy))"
    "IsVolumeFsResizeAnnotation pfx key" "v = GetVolumeUniqueNameFromFsResizeAnnotation pfx key"
    unfolding pendingResizes_iff by (elim exE conjE)
  from annotation_key_decoded [OF key(2)] key(3) have "key = ?key" by simp
  with key(1) have c: "(?key, ''yes'') \<in> set (annotationRange (podAnnotations ?copy))" by simp
  have d: "deref (podHeap (w\<lparr>podHeap := podHeap w @ map snd ?pending\<rparr>))
      (Pod \<lparr>Pod = Some (length (podHeap w) + j), VolumeName = v\<rparr>) = Inr ?copy"
    using j(1) by (simp add: deref_def)
  have keep: "\<forall>u v'. fsLookup cache' u v' = None \<longrightarrow> fsLookup cache u v' = None"
  proof (intro allI impI)
    fix u v' assume n: "fsLookup cache' u v' = None"
    show "fsLookup cache u v' = None"
    proof (cases "\<exists>p. (v', p) \<in> set ?pending \<and> GetUniquePodName p = u")
      case True
      from l [rule_format, of v' u, unfolded if_P [OF True]] n show ?thesis by auto
    next
      case False
      from l [rule_format, of v' u, unfolded if_not_P [OF False]] n show ?thesis by simp
    qed
  qed
  show ?thesis
    by (intro exI [of _ "w\<lparr>podHeap := podHeap w @ map snd ?pending\<rparr>"] exI [of _ cache']
          exI [of _ "\<lparr>Pod = Some (length (podHeap w) + j), VolumeName = v\<rparr>"]
          exI [of _ ?copy] conjI r j(3,4) c d keep)
       (simp_all add: heapKept_append)
qed


text \<open>
  C6, as amended. The populator removes nothing: an entry that is in the cache before a
  run is in it after the run. And it is level-triggered: if a pod of the pod manager is
  not terminated and its annotation for a volume has the value \<open>yes\<close> when the
  populator runs, then after the run the cache holds the entry for (pod, volume), with
  that volume name and a copy of a pod of that UID carrying the annotation. This holds
  from any cache, in particular from the empty cache a drain leaves behind.
\<close>

theorem populate_recreates_entry_after_drain:
  assumes valid: "podPointersValid (podHeap w) (podManager populator)"
    and ptr: "ptr \<in> set (podManager populator)"
    and p: "deref (podHeap w) ptr = Inr p"
    and alive: "\<not> IsPodTerminated p (case podStatusProvider populator (podUID p) of
                                       None \<Rightarrow> podStatusOf p | Some found \<Rightarrow> found)"
    and ann: "annotationGet (podAnnotations p) (GetVolumeFsResizeAnnotation pfx v) = Some ''yes''"
  shows "fsLookup (snd (GetVolumesToResize cache)) (GetUniquePodName p) v = None
     \<and> (\<exists>w' cache' e copy.
           populate pfx IsPodTerminated populator (w, snd (GetVolumesToResize cache))
             = (w', Inr cache')
         \<and> heapKept (podHeap w) (podHeap w')
         \<and> fsLookup cache' (GetUniquePodName p) v = Some e \<and> VolumeName e = v
         \<and> deref (podHeap w') (Pod e) = Inr copy
         \<and> GetUniquePodName copy = GetUniquePodName p
         \<and> (GetVolumeFsResizeAnnotation pfx v, ''yes'')
               \<in> set (annotationRange (podAnnotations copy)))
     \<and> (\<exists>w' cache' e.
           populate pfx IsPodTerminated populator (w, cache) = (w', Inr cache')
         \<and> fsLookup cache' (GetUniquePodName p) v = Some e \<and> VolumeName e = v
         \<and> (\<forall>u v'. fsLookup cache' u v' = None \<longrightarrow> fsLookup cache u v' = None))"
proof (intro conjI)
  show "fsLookup (snd (GetVolumesToResize cache)) (GetUniquePodName p) v = None"
    by (simp add: GetVolumesToResize_def fsLookup_def)
  from populate_entry [where IsPodTerminated = IsPodTerminated
         and cache = "snd (GetVolumesToResize cache)", OF valid ptr p alive ann]
  obtain w' cache' e copy where
    "populate pfx IsPodTerminated populator (w, snd (GetVolumesToResize cache)) = (w', Inr cache')"
    "heapKept (podHeap w) (podHeap w')"
    "fsLookup cache' (GetUniquePodName p) v = Some e" "VolumeName e = v"
    "deref (podHeap w') (Pod e) = Inr copy"
    "GetUniquePodName copy = GetUniquePodName p"
    "(GetVolumeFsResizeAnnotation pfx v, ''yes'') \<in> set (annotationRange (podAnnotations copy))"
    by (elim exE conjE)
  then show "\<exists>w' cache' e copy.
           populate pfx IsPodTerminated populator (w, snd (GetVolumesToResize cache))
             = (w', Inr cache')
         \<and> heapKept (podHeap w) (podHeap w')
         \<and> fsLookup cache' (GetUniquePodName p) v = Some e \<and> VolumeName e = v
         \<and> deref (podHeap w') (Pod e) = Inr copy
         \<and> GetUniquePodName copy = GetUniquePodName p
         \<and> (GetVolumeFsResizeAnnotation pfx v, ''yes'')
               \<in> set (annotationRange (podAnnotations copy))"
    by (intro exI [of _ w'] exI [of _ cache'] exI [of _ e] exI [of _ copy] conjI)
  from populate_entry [where IsPodTerminated = IsPodTerminated and cache = cache,
         OF valid ptr p alive ann]
  obtain w' cache' e where
    "populate pfx IsPodTerminated populator (w, cache) = (w', Inr cache')"
    "fsLookup cache' (GetUniquePodName p) v = Some e" "VolumeName e = v"
    "\<forall>u v'. fsLookup cache' u v' = None \<longrightarrow> fsLookup cache u v' = None"
    by (elim exE conjE)
  then show "\<exists>w' cache' e.
           populate pfx IsPodTerminated populator (w, cache) = (w', Inr cache')
         \<and> fsLookup cache' (GetUniquePodName p) v = Some e \<and> VolumeName e = v
         \<and> (\<forall>u v'. fsLookup cache' u v' = None \<longrightarrow> fsLookup cache u v' = None)"
    by (intro exI [of _ w'] exI [of _ cache'] exI [of _ e] conjI)
qed

theorem populate_recreates_entry_after_drain_witness:
  "podPointersValid
     (podHeap (example_world
        [example_pod ''pod-x'' ''uid-x'' ''n1'' (Some [(''resize.data'', ''yes'')])]))
     (podManager \<lparr>podManager = [Some 0], podStatusProvider = (\<lambda>_. None)\<rparr>)
   \<and> Some 0 \<in> set (podManager \<lparr>podManager = [Some 0], podStatusProvider = (\<lambda>_. None)\<rparr>)
   \<and> deref (podHeap (example_world
        [example_pod ''pod-x'' ''uid-x'' ''n1'' (Some [(''resize.data'', ''yes'')])])) (Some 0)
       = Inr (example_pod ''pod-x'' ''uid-x'' ''n1'' (Some [(''resize.data'', ''yes'')]))
   \<and> \<not> example_IsPodTerminated
         (example_pod ''pod-x'' ''uid-x'' ''n1'' (Some [(''resize.data'', ''yes'')]))
         (podStatusOf (example_pod ''pod-x'' ''uid-x'' ''n1'' (Some [(''resize.data'', ''yes'')])))
   \<and> annotationGet (podAnnotations
         (example_pod ''pod-x'' ''uid-x'' ''n1'' (Some [(''resize.data'', ''yes'')])))
         (GetVolumeFsResizeAnnotation ''resize.'' ''data'') = Some ''yes''
   \<and> fsLookup example_fsResizeMap ''uid-x'' ''data'' = Some \<lparr>Pod = Some 0, VolumeName = ''data''\<rparr>
   \<and> fsLookup (snd (GetVolumesToResize example_fsResizeMap))
        (GetUniquePodName (example_pod ''pod-x'' ''uid-x'' ''n1'' (Some [(''resize.data'', ''yes'')])))
        ''data'' = None
   \<and> populate ''resize.'' example_IsPodTerminated
        \<lparr>podManager = [Some 0], podStatusProvider = (\<lambda>_. None)\<rparr>
        (example_world [example_pod ''pod-x'' ''uid-x'' ''n1'' (Some [(''resize.data'', ''yes'')])],
         snd (GetVolumesToResize example_fsResizeMap))
      = ((example_world [example_pod ''pod-x'' ''uid-x'' ''n1'' (Some [(''resize.data'', ''yes'')])])
          \<lparr>podHeap := [example_pod ''pod-x'' ''uid-x'' ''n1'' (Some [(''resize.data'', ''yes'')]),
                       example_pod ''pod-x'' ''uid-x'' ''n1'' (Some [(''resize.data'', ''yes'')])]\<rparr>,
         Inr \<lparr>fsPods = [(''uid-x'', [(''data'', \<lparr>Pod = Some 1, VolumeName = ''data''\<rparr>)])],
              fsKubeClient = example_client\<rparr>)"
proof -
  let ?px = "example_pod ''pod-x'' ''uid-x'' ''n1'' (Some [(''resize.data'', ''yes'')])"
  let ?w = "example_world [?px]"
  let ?pop = "\<lparr>podManager = [Some 0], podStatusProvider = (\<lambda>_. None)\<rparr>"
  have h1: "podPointersValid (podHeap ?w) (podManager ?pop)"
    by (simp add: podPointersValid_def example_world_def)
  have h2: "Some 0 \<in> set (podManager ?pop)" by simp
  have h3: "deref (podHeap ?w) (Some 0) = Inr ?px"
    by (simp add: deref_def example_world_def)
  have h4': "\<not> example_IsPodTerminated ?px (podStatusOf ?px)"
    by (simp add: example_IsPodTerminated_def example_pod_def)
  then have h4: "\<not> example_IsPodTerminated ?px
      (case podStatusProvider ?pop (podUID ?px) of None \<Rightarrow> podStatusOf ?px | Some found \<Rightarrow> found)"
    by simp
  have h5: "annotationGet (podAnnotations ?px) (GetVolumeFsResizeAnnotation ''resize.'' ''data'')
      = Some ''yes''"
    by (simp add: annotationGet_def GetVolumeFsResizeAnnotation_def example_pod_def)
  have before: "fsLookup example_fsResizeMap ''uid-x'' ''data''
      = Some \<lparr>Pod = Some 0, VolumeName = ''data''\<rparr>"
    by (simp add: fsLookup_def example_fsResizeMap_def)
  from populate_recreates_entry_after_drain [where IsPodTerminated = example_IsPodTerminated
         and cache = example_fsResizeMap, OF h1 h2 h3 h4 h5]
  have drained: "fsLookup (snd (GetVolumesToResize example_fsResizeMap)) (GetUniquePodName ?px)
      ''data'' = None" by (rule conjunct1)
  have ev: "populate ''resize.'' example_IsPodTerminated ?pop
        (?w, snd (GetVolumesToResize example_fsResizeMap))
      = (?w\<lparr>podHeap := [?px, ?px]\<rparr>,
         Inr \<lparr>fsPods = [(''uid-x'', [(''data'', \<lparr>Pod = Some 1, VolumeName = ''data''\<rparr>)])],
              fsKubeClient = example_client\<rparr>)"
    by (simp add: populate_defs GetVolumesToResize_def example_fsResizeMap_def example_world_def
        example_pod_def)
  from h1 h2 h3 h4' h5 before drained ev show ?thesis by (intro conjI)
qed

text \<open>
  The claim as stated asks nothing of the pod but the annotation, and fails for a pod
  that has terminated: after a first run has enqueued \<open>pod-x\<close> and a drain has emptied
  the cache, the status provider reports the pod as failed; the annotation still has
  the value \<open>yes\<close>, and the second run leaves the cache empty.
\<close>

theorem populate_skips_terminated_pod_counterexample:
  "populate ''resize.'' example_IsPodTerminated
      (example_populator None)
      (example_world [example_pod ''pod-x'' ''uid-x'' ''n1'' (Some [(''resize.data'', ''yes'')])],
       NewVolumeFsResizeMap example_client)
     = ((example_world [example_pod ''pod-x'' ''uid-x'' ''n1'' (Some [(''resize.data'', ''yes'')])])
          \<lparr>podHeap := [example_pod ''pod-x'' ''uid-x'' ''n1'' (Some [(''resize.data'', ''yes'')]),
                       example_pod ''pod-x'' ''uid-x'' ''n1'' (Some [(''resize.data'', ''yes'')])]\<rparr>,
        Inr \<lparr>fsPods = [(''uid-x'', [(''data'', \<lparr>Pod = Some 1, VolumeName = ''data''\<rparr>)])],
             fsKubeClient = example_client\<rparr>)
   \<and> annotationGet (podAnnotations
         (example_pod ''pod-x'' ''uid-x'' ''n1'' (Some [(''resize.data'', ''yes'')])))
         (GetVolumeFsResizeAnnotation ''resize.'' ''data'') = Some ''yes''
   \<and> populate ''resize.'' example_IsPodTerminated
      (example_populator (Some \<lparr>phase = PodFailed\<rparr>))
      ((example_world [example_pod ''pod-x'' ''uid-x'' ''n1'' (Some [(''resize.data'', ''yes'')])])
          \<lparr>podHeap := [example_pod ''pod-x'' ''uid-x'' ''n1'' (Some [(''resize.data'', ''yes'')]),
                       example_pod ''pod-x'' ''uid-x'' ''n1'' (Some [(''resize.data'', ''yes'')])]\<rparr>,
       snd (GetVolumesToResize
         \<lparr>fsPods = [(''uid-x'', [(''data'', \<lparr>Pod = Some 1, VolumeName = ''data''\<rparr>)])],
          fsKubeClient = example_client\<rparr>))
     = ((example_world [example_pod ''pod-x'' ''uid-x'' ''n1'' (Some [(''resize.data'', ''yes'')])])
          \<lparr>podHeap := [example_pod ''pod-x'' ''uid-x'' ''n1'' (Some [(''resize.data'', ''yes'')]),
                       example_pod ''pod-x'' ''uid-x'' ''n1'' (Some [(''resize.data'', ''yes'')])]\<rparr>,
        Inr \<lparr>fsPods = [], fsKubeClient = example_client\<rparr>)"
  by (simp add: populate_defs GetVolumesToResize_def example_world_def example_pod_def
      example_populator_def annotationGet_def GetVolumeFsResizeAnnotation_def)

end
